theory Spec2Isabelle
  imports Complex_Main
begin

section \<open>Numeric model and errors\<close>

text \<open>
  The engine of \<^verbatim>\<open>hamiltonian_trading.py\<close> and the optimizer of
  \<^verbatim>\<open>gradient_optimizer.py\<close> compute on numpy arrays of IEEE doubles. In this
  development a Python \<^verbatim>\<open>float\<close> is a \<^typ>\<open>real\<close> and a numpy
  \<^verbatim>\<open>complex\<close> is a \<^typ>\<open>complex\<close>: arithmetic is exact, there is no rounding,
  no overflow and no NaN. A one-dimensional array is a list, a two-dimensional array a list
  of rows. An exception is a value of type \<open>error\<close>; a method that mutates its object
  takes the object and returns the outcome together with the object as it is afterwards, so
  that what a raise leaves behind is part of the result.
\<close>

datatype error =
    ValueError string
  | AssertionError string
  | RuntimeError string
  | TypeError string
  | IndexError
  | KeyError
  | ZeroDivisionError

type_synonym vec = "complex list"
type_synonym mat = "complex list list"

definition QUANTUM_PRECISION_TOLERANCE :: real where
  "QUANTUM_PRECISION_TOLERANCE = 1 / 10 ^ 15"

definition INTEGRATION_TOLERANCE :: real where
  "INTEGRATION_TOLERANCE = 1 / 10 ^ 12"

definition MAX_HAMILTONIAN_NORM :: real where
  "MAX_HAMILTONIAN_NORM = 10 ^ 10"

definition MIN_PARAM_VALUE :: real where
  "MIN_PARAM_VALUE = 1 / 10 ^ 10"

definition MAX_NOISE_AMPLITUDE :: real where
  "MAX_NOISE_AMPLITUDE = 1"

text \<open>\<^verbatim>\<open>np.vdot(a, b)\<close>: the first argument is conjugated.\<close>

definition vdot :: "vec \<Rightarrow> vec \<Rightarrow> complex" where
  "vdot a b = sum_list (map2 (\<lambda>x y. cnj x * y) a b)"

text \<open>The squared Euclidean norm of a state vector, as mathematics has it.\<close>

definition norm_sq :: "vec \<Rightarrow> real" where
  "norm_sq v = sum_list (map (\<lambda>x. (cmod x)\<^sup>2) v)"

section \<open>The engine object\<close>

datatype pauli = PauliX | PauliZ

record engine =
  n_qubits :: nat
  time_steps :: nat
  quantum_state :: vec
  state_history :: "vec list"
  pauli_cache :: "(nat \<times> pauli) \<rightharpoonup> mat"

text \<open>
  \<^verbatim>\<open>QuantumTradingHamiltonian.__init__\<close>: the state starts as the basis vector of
  index 0, the history and the cache start empty.
\<close>

definition init_engine :: "int \<Rightarrow> int \<Rightarrow> error + engine" where
  "init_engine nq ts =
     (if nq < 1 \<or> nq > 20 then Inl (ValueError ''n_qubits must be between 1 and 20'')
      else if ts < 1 then Inl (ValueError ''time_steps must be positive'')
      else Inr \<lparr> n_qubits = nat nq, time_steps = nat ts,
                 quantum_state = (replicate (2 ^ nat nq) 0)[0 := 1],
                 state_history = [],
                 pauli_cache = Map.empty \<rparr>)"

text \<open>
  \<^verbatim>\<open>self.hilbert_dim\<close> is assigned once, in the constructor, as
  \<^verbatim>\<open>2 ** n_qubits\<close>, and never again: it is a function of the engine.
\<close>

definition hilbert_dim :: "engine \<Rightarrow> nat" where
  "hilbert_dim e = 2 ^ n_qubits e"

definition demo_engine :: engine where
  "demo_engine = \<lparr> n_qubits = 1, time_steps = 1, quantum_state = [1, 0],
                   state_history = [], pauli_cache = Map.empty \<rparr>"

subsection \<open>State management\<close>

definition get_previous_state_norm :: "engine \<Rightarrow> real" where
  "get_previous_state_norm e =
     (if length (state_history e) = 0 then 0
      else cmod (vdot (last (state_history e)) (last (state_history e))))"

text \<open>
  \<^verbatim>\<open>update_quantum_state\<close>: the check comes first and raises before any field is
  assigned; then the state is replaced, the history grows by the new state, and the oldest
  entry is popped once the history is longer than 1000.
\<close>

definition update_quantum_state :: "vec \<Rightarrow> engine \<Rightarrow> (error + unit) \<times> engine" where
  "update_quantum_state new_state e =
     (let norm = cmod (vdot new_state new_state) in
      if \<bar>norm - 1\<bar> > QUANTUM_PRECISION_TOLERANCE
      then (Inl (ValueError ''State not normalized''), e)
      else
        let e1 = e\<lparr>quantum_state := new_state\<rparr>;
            e2 = e1\<lparr>state_history := state_history e1 @ [new_state]\<rparr>;
            e3 = (if length (state_history e2) > 1000
                  then e2\<lparr>state_history := tl (state_history e2)\<rparr> else e2)
        in (Inr (), e3))"

section \<open>Computations that mutate and may raise\<close>

text \<open>
  A method body is a function from the state before to an outcome and the state after.
  A raise keeps whatever was mutated before it.
\<close>

type_synonym ('s, 'a) comp = "'s \<Rightarrow> (error + 'a) \<times> 's"

definition returnC :: "'a \<Rightarrow> ('s, 'a) comp" where
  "returnC x = (\<lambda>s. (Inr x, s))"

definition raiseC :: "error \<Rightarrow> ('s, 'a) comp" where
  "raiseC err = (\<lambda>s. (Inl err, s))"

definition bindC :: "('s, 'a) comp \<Rightarrow> ('a \<Rightarrow> ('s, 'b) comp) \<Rightarrow> ('s, 'b) comp" where
  "bindC c f = (\<lambda>s. case c s of (Inl err, s') \<Rightarrow> (Inl err, s') | (Inr x, s') \<Rightarrow> f x s')"

definition liftE :: "error + 'a \<Rightarrow> ('s, 'a) comp" where
  "liftE r = (\<lambda>s. (r, s))"

text \<open>Indexing an array raises IndexError out of range (indices here are never negative).\<close>

definition nth_err :: "'a list \<Rightarrow> nat \<Rightarrow> error + 'a" where
  "nth_err xs i = (if i < length xs then Inr (xs ! i) else Inl IndexError)"

section \<open>Dense matrices\<close>

definition mk_mat :: "nat \<Rightarrow> nat \<Rightarrow> (nat \<Rightarrow> nat \<Rightarrow> complex) \<Rightarrow> mat" where
  "mk_mat r c f = map (\<lambda>i. map (\<lambda>j. f i j) [0..<c]) [0..<r]"

definition nrows :: "mat \<Rightarrow> nat" where
  "nrows M = length M"

definition ncols :: "mat \<Rightarrow> nat" where
  "ncols M = (case M of [] \<Rightarrow> 0 | row # _ \<Rightarrow> length row)"

text \<open>\<^verbatim>\<open>np.zeros((r, c), dtype=complex)\<close> and \<^verbatim>\<open>np.eye(n, dtype=complex)\<close>.\<close>

definition zeros :: "nat \<Rightarrow> nat \<Rightarrow> mat" where
  "zeros r c = mk_mat r c (\<lambda>i j. 0)"

definition eye :: "nat \<Rightarrow> mat" where
  "eye n = mk_mat n n (\<lambda>i j. if i = j then 1 else 0)"

text \<open>
  Scalar times matrix, matrix plus matrix (\<^verbatim>\<open>H += c * M\<close>), matrix minus matrix.
  Every sum and difference of the engine is between matrices of one shape, the square of
  the Hilbert space dimension, as long as the cache holds what the constructors build.
\<close>

definition smult :: "complex \<Rightarrow> mat \<Rightarrow> mat" where
  "smult c M = map (map (\<lambda>x. c * x)) M"

definition madd :: "mat \<Rightarrow> mat \<Rightarrow> mat" where
  "madd A B = map2 (map2 (\<lambda>x y. x + y)) A B"


text \<open>\<^verbatim>\<open>A @ B\<close>, \<^verbatim>\<open>M @ v\<close>, \<^verbatim>\<open>M.conj().T\<close> and \<^verbatim>\<open>np.kron(A, B)\<close>.\<close>

definition matmul :: "mat \<Rightarrow> mat \<Rightarrow> mat" where
  "matmul A B = mk_mat (nrows A) (ncols B) (\<lambda>i j. \<Sum>k<ncols A. A ! i ! k * B ! k ! j)"

definition matvec :: "mat \<Rightarrow> vec \<Rightarrow> vec" where
  "matvec M v = map (\<lambda>row. sum_list (map2 (\<lambda>x y. x * y) row v)) M"

definition dagger :: "mat \<Rightarrow> mat" where
  "dagger M = mk_mat (ncols M) (nrows M) (\<lambda>i j. cnj (M ! j ! i))"

definition kron :: "mat \<Rightarrow> mat \<Rightarrow> mat" where
  "kron A B = mk_mat (nrows A * nrows B) (ncols A * ncols B)
     (\<lambda>i j. A ! (i div nrows B) ! (j div ncols B) * B ! (i mod nrows B) ! (j mod ncols B))"

text \<open>\<^verbatim>\<open>np.linalg.norm(M)\<close> of a matrix is the Frobenius norm.\<close>

definition frobenius :: "mat \<Rightarrow> real" where
  "frobenius M = sqrt (sum_list (map (\<lambda>row. sum_list (map (\<lambda>x. (cmod x)\<^sup>2) row)) M))"

text \<open>
  \<^verbatim>\<open>np.allclose(A, B, atol=atol)\<close> with numpy's default relative tolerance
  \<open>rtol = 1e-5\<close>: every entry has \<open>|a - b| \<le> atol + rtol * |b|\<close>.
\<close>

definition allclose :: "mat \<Rightarrow> mat \<Rightarrow> real \<Rightarrow> bool" where
  "allclose A B atol =
     list_all2 (list_all2 (\<lambda>x y. cmod (x - y) \<le> atol + (1 / 10 ^ 5) * cmod y)) A B"

text \<open>
  Python's \<^verbatim>\<open>sum(...)\<close> of matrices starts from the integer 0, which numpy
  broadcasts: the running total is the matrix of zeros plus each summand.
\<close>

definition sum_mats :: "nat \<Rightarrow> mat list \<Rightarrow> mat" where
  "sum_mats d Ms = foldl madd (zeros d d) Ms"

section \<open>Parameter sets\<close>

record params =
  n_pairs :: int
  amplitude :: "real list"
  frequency :: "real list"
  phase :: "real list"
  decay :: "real list"
  decay_rate :: "real list"
  soft_a :: real
  soft_b :: real
  x0 :: real
  alpha_0 :: real
  alpha_1 :: real
  alpha_2 :: real
  tau :: real
  eta :: real
  gamma :: real
  sigma :: real
  beta :: real

text \<open>
  \<^verbatim>\<open>TradingParameters.__post_init__\<close>: the assertions, in the order of the source.
  The fields \<^verbatim>\<open>a\<close> and \<^verbatim>\<open>b\<close> of the source are \<open>soft_a\<close> and \<open>soft_b\<close> here.
\<close>

definition post_init :: "params \<Rightarrow> error + params" where
  "post_init p =
     (if \<not> n_pairs p > 0 then Inl (AssertionError ''n_pairs must be positive'')
      else if int (length (amplitude p)) \<noteq> n_pairs p
        then Inl (AssertionError ''amplitude array size mismatch'')
      else if int (length (frequency p)) \<noteq> n_pairs p
        then Inl (AssertionError ''frequency array size mismatch'')
      else if int (length (phase p)) \<noteq> n_pairs p
        then Inl (AssertionError ''phase array size mismatch'')
      else if int (length (decay p)) \<noteq> n_pairs p
        then Inl (AssertionError ''decay array size mismatch'')
      else if int (length (decay_rate p)) \<noteq> n_pairs p
        then Inl (AssertionError ''decay_rate array size mismatch'')
      else if \<not> list_all (\<lambda>x. x \<ge> MIN_PARAM_VALUE) (amplitude p)
        then Inl (AssertionError ''amplitude too small'')
      else if \<not> list_all (\<lambda>x. x \<ge> MIN_PARAM_VALUE) (frequency p)
        then Inl (AssertionError ''frequency too small'')
      else if \<not> list_all (\<lambda>x. x \<ge> MIN_PARAM_VALUE) (decay_rate p)
        then Inl (AssertionError ''decay_rate too small'')
      else if \<not> \<bar>sigma p\<bar> \<le> MAX_NOISE_AMPLITUDE
        then Inl (AssertionError ''noise amplitude too large'')
      else Inr p)"

text \<open>
  \<^verbatim>\<open>TradingParameters(n_pairs=..., ...)\<close>: the dataclass constructor stores the
  fields and runs \<^verbatim>\<open>__post_init__\<close>.
\<close>

definition TradingParameters ::
  "int \<Rightarrow> real list \<Rightarrow> real list \<Rightarrow> real list \<Rightarrow> real list \<Rightarrow> real list \<Rightarrow>
   real \<Rightarrow> real \<Rightarrow> real \<Rightarrow> real \<Rightarrow> real \<Rightarrow> real \<Rightarrow> real \<Rightarrow> real \<Rightarrow> real \<Rightarrow> real \<Rightarrow> real \<Rightarrow>
   error + params" where
  "TradingParameters n am fr ph de dr va vb vx0 al0 al1 al2 vtau veta vgamma vsigma vbeta =
     post_init \<lparr> n_pairs = n, amplitude = am, frequency = fr, phase = ph, decay = de,
                 decay_rate = dr, soft_a = va, soft_b = vb, x0 = vx0, alpha_0 = al0,
                 alpha_1 = al1, alpha_2 = al2, tau = vtau, eta = veta, gamma = vgamma,
                 sigma = vsigma, beta = vbeta \<rparr>"

definition valid_params :: "params \<Rightarrow> bool" where
  "valid_params p = (post_init p = Inr p)"

section \<open>The libraries the engine calls\<close>

text \<open>
  \<^verbatim>\<open>scipy.integrate.quad\<close> and numpy's global random generator are not part of
  the repository. The quadrature is a parameter: given the integrand, the limits, the two
  tolerances and the subdivision limit it raises or returns the value and the error
  estimate. The generator is a state \<open>'r\<close> with two parameters that draw from it: a
  standard normal deviate, and a raw natural number from which an integer of a range is
  taken.
\<close>

record 'r env =
  quad :: "(real \<Rightarrow> real) \<Rightarrow> real \<Rightarrow> real \<Rightarrow> real \<Rightarrow> real \<Rightarrow> nat \<Rightarrow> error + real \<times> real"
  gauss :: "'r \<Rightarrow> real \<times> 'r"
  rawint :: "'r \<Rightarrow> nat \<times> 'r"

type_synonym 'r world = "engine \<times> 'r"

text \<open>
  \<^verbatim>\<open>np.random.normal(loc, scale)\<close> raises ValueError for a negative scale and
  otherwise returns \<open>loc + scale * z\<close> for a standard normal deviate \<open>z\<close>.
  \<^verbatim>\<open>np.random.randint(low, high)\<close> raises ValueError for an empty range and
  otherwise returns an integer of \<open>[low, high)\<close>.
\<close>

definition random_normal :: "'r env \<Rightarrow> real \<Rightarrow> real \<Rightarrow> ('r world, real) comp" where
  "random_normal env loc scale =
     (\<lambda>(e, r). if scale < 0 then (Inl (ValueError ''scale < 0''), (e, r))
               else let (z, r') = gauss env r in (Inr (loc + scale * z), (e, r')))"

definition random_randint :: "'r env \<Rightarrow> nat \<Rightarrow> nat \<Rightarrow> ('r world, nat) comp" where
  "random_randint env low high =
     (\<lambda>(e, r). if low \<ge> high then (Inl (ValueError ''low >= high''), (e, r))
               else let (k, r') = rawint env r in (Inr (low + k mod (high - low)), (e, r')))"

text \<open>An engine method that cannot raise, run inside a computation on the world.\<close>

definition on_engine :: "(engine \<Rightarrow> 'a \<times> engine) \<Rightarrow> ('r world, 'a) comp" where
  "on_engine f = (\<lambda>(e, r). let (x, e') = f e in (Inr x, (e', r)))"

section \<open>The Hamiltonian\<close>

subsection \<open>Mathematical functions\<close>

definition softplus :: "real \<Rightarrow> real" where
  "softplus x = (if x > 20 then x else if x < - 20 then exp x else ln (1 + exp x))"

definition sigmoid :: "real \<Rightarrow> real" where
  "sigmoid x = (if x \<ge> 0 then 1 / (1 + exp (- x)) else exp x / (1 + exp x))"

definition f_function :: "real \<Rightarrow> real" where
  "f_function x = 1"

definition g_prime :: "real \<Rightarrow> real" where
  "g_prime x = 1"

definition integrand :: "params \<Rightarrow> real \<Rightarrow> real" where
  "integrand p x =
     (let s = soft_a p * (x - x0 p)\<^sup>2 + soft_b p;
          softplus_val = softplus s;
          f_val = f_function x;
          g_prime_val = g_prime x
      in softplus_val * f_val * g_prime_val)"

text \<open>
  \<^verbatim>\<open>_compute_softplus_integral\<close>: whatever the quadrature raises is turned into a
  RuntimeError; the error estimate is only logged.
\<close>

definition compute_softplus_integral :: "'r env \<Rightarrow> real \<Rightarrow> params \<Rightarrow> error + real" where
  "compute_softplus_integral env t p =
     (case quad env (integrand p) 0 t INTEGRATION_TOLERANCE INTEGRATION_TOLERANCE 100 of
        Inl err \<Rightarrow> Inl (RuntimeError ''Softplus integral computation failed'')
      | Inr (result, err) \<Rightarrow> Inr result)"

subsection \<open>Operator construction\<close>

definition sigma_x :: mat where
  "sigma_x = [[0, 1], [1, 0]]"

definition sigma_z :: mat where
  "sigma_z = [[1, 0], [0, - 1]]"

text \<open>
  \<^verbatim>\<open>_tensor_product_operator\<close>: the loop multiplies one factor per qubit onto
  \<^verbatim>\<open>np.eye(1)\<close>; the final reshape to \<open>hilbert_dim \<times> hilbert_dim\<close> keeps the
  shape the product already has.
\<close>

definition tensor_product_operator :: "engine \<Rightarrow> mat \<Rightarrow> nat \<Rightarrow> mat" where
  "tensor_product_operator e single_op qubit =
     foldl (\<lambda>result i. if i = qubit then kron result single_op else kron result (eye 2))
       (eye 1) [0..<n_qubits e]"

definition construct_pauli_x :: "engine \<Rightarrow> nat \<Rightarrow> mat" where
  "construct_pauli_x e qubit = tensor_product_operator e sigma_x qubit"

definition construct_pauli_z :: "engine \<Rightarrow> nat \<Rightarrow> mat" where
  "construct_pauli_z e qubit = tensor_product_operator e sigma_z qubit"

definition get_pauli_x :: "nat \<Rightarrow> engine \<Rightarrow> mat \<times> engine" where
  "get_pauli_x qubit e =
     (case pauli_cache e (qubit, PauliX) of
        None \<Rightarrow> (let M = construct_pauli_x e qubit
                 in (M, e\<lparr>pauli_cache := (pauli_cache e)((qubit, PauliX) \<mapsto> M)\<rparr>))
      | Some M \<Rightarrow> (M, e))"

definition get_pauli_z :: "nat \<Rightarrow> engine \<Rightarrow> mat \<times> engine" where
  "get_pauli_z qubit e =
     (case pauli_cache e (qubit, PauliZ) of
        None \<Rightarrow> (let M = construct_pauli_z e qubit
                 in (M, e\<lparr>pauli_cache := (pauli_cache e)((qubit, PauliZ) \<mapsto> M)\<rparr>))
      | Some M \<Rightarrow> (M, e))"

definition get_trading_operator :: "nat \<Rightarrow> engine \<Rightarrow> mat \<times> engine" where
  "get_trading_operator pair_index e =
     (let qubit = pair_index mod n_qubits e in
      if pair_index mod 2 = 0 then get_pauli_x qubit e else get_pauli_z qubit e)"

text \<open>The generator expressions: one cached operator after the other, in index order.\<close>

fun get_each :: "(nat \<Rightarrow> engine \<Rightarrow> mat \<times> engine) \<Rightarrow> nat list \<Rightarrow> engine \<Rightarrow> mat list \<times> engine" where
  "get_each g [] e = ([], e)"
| "get_each g (i # is) e =
     (let (M, e1) = g i e; (Ms, e2) = get_each g is e1 in (M # Ms, e2))"

definition get_integral_operator :: "engine \<Rightarrow> mat \<times> engine" where
  "get_integral_operator e =
     (let (Ms, e') = get_each get_pauli_x [0..<n_qubits e] e
      in (sum_mats (hilbert_dim e) Ms, e'))"

definition get_time_operator :: "engine \<Rightarrow> mat \<times> engine" where
  "get_time_operator e =
     (let (Ms, e') = get_each get_pauli_z [0..<n_qubits e] e
      in (sum_mats (hilbert_dim e) Ms, e'))"

text \<open>
  \<^verbatim>\<open>_get_regime_operator\<close>: the loop over \<open>i < n_qubits - 1\<close> adds
  \<^verbatim>\<open>X(i) @ X(i+1)\<close> to the matrix of zeros.
\<close>

fun regime_loop :: "nat list \<Rightarrow> mat \<Rightarrow> engine \<Rightarrow> mat \<times> engine" where
  "regime_loop [] op e = (op, e)"
| "regime_loop (i # is) op e =
     (let (A, e1) = get_pauli_x i e;
          (B, e2) = get_pauli_x (i + 1) e1
      in regime_loop is (madd op (matmul A B)) e2)"

definition get_regime_operator :: "engine \<Rightarrow> mat \<times> engine" where
  "get_regime_operator e =
     regime_loop [0..<n_qubits e - 1] (zeros (hilbert_dim e) (hilbert_dim e)) e"

definition get_noise_operator :: "'r env \<Rightarrow> ('r world, mat) comp" where
  "get_noise_operator env =
     (\<lambda>(e, r). bindC (random_randint env 0 (n_qubits e))
                  (\<lambda>q. on_engine (get_pauli_z q)) (e, r))"

subsection \<open>Validation\<close>

text \<open>
  \<^verbatim>\<open>_validate_hamiltonian\<close>: the symmetrised matrix is bound to the local name
  \<^verbatim>\<open>H\<close> only; the method returns nothing, and raises when the norm of the matrix it
  holds then is too large.
\<close>

definition validate_hamiltonian :: "mat \<Rightarrow> real \<Rightarrow> error + unit" where
  "validate_hamiltonian H t =
     (let H' = (if \<not> allclose H (dagger H) QUANTUM_PRECISION_TOLERANCE
                then smult (1 / 2) (madd H (dagger H)) else H);
          norm = frobenius H'
      in if norm > MAX_HAMILTONIAN_NORM then Inl (ValueError ''Hamiltonian norm too large'')
         else Inr ())"

subsection \<open>The five terms\<close>

text \<open>Term 1: one signal per trading pair, on the pair's operator.\<close>

fun channel_terms :: "real \<Rightarrow> params \<Rightarrow> nat list \<Rightarrow> mat \<Rightarrow> ('r world, mat) comp" where
  "channel_terms t p [] H = returnC H"
| "channel_terms t p (i # is) H =
     bindC (liftE (nth_err (amplitude p) i)) (\<lambda>am.
     bindC (liftE (nth_err (frequency p) i)) (\<lambda>fr.
     bindC (liftE (nth_err (phase p) i)) (\<lambda>ph.
     bindC (liftE (nth_err (decay p) i)) (\<lambda>de.
     bindC (liftE (nth_err (decay_rate p) i)) (\<lambda>dr.
       let sin_term = am * sin (fr * t + ph);
           exp_term = de * exp (- dr * t);
           signal = sin_term + exp_term
       in bindC (on_engine (get_trading_operator i)) (\<lambda>M.
          channel_terms t p is (madd H (smult (complex_of_real signal) M))))))))"

text \<open>
  Term 2: the softplus integral; when computing it raises, the integrand at the
  current time stands in for it.
\<close>

definition softplus_term :: "'r env \<Rightarrow> real \<Rightarrow> params \<Rightarrow> mat \<Rightarrow> ('r world, mat) comp" where
  "softplus_term env t p H =
     (case compute_softplus_integral env t p of
        Inr integral_value \<Rightarrow>
          bindC (on_engine get_integral_operator) (\<lambda>M.
          returnC (madd H (smult (complex_of_real integral_value) M)))
      | Inl err \<Rightarrow>
          (let s = soft_a p * (t - x0 p)\<^sup>2 + soft_b p in
           bindC (on_engine get_integral_operator) (\<lambda>M.
           returnC (madd H (smult (complex_of_real (softplus s)) M)))))"

text \<open>Term 3: the polynomial, sine and logarithm of time.\<close>

definition alpha_term :: "real \<Rightarrow> params \<Rightarrow> mat \<Rightarrow> ('r world, mat) comp" where
  "alpha_term t p H =
     (let alpha_terms = alpha_0 p * t\<^sup>2 + alpha_1 p * sin (2 * pi * t) + alpha_2 p * ln (1 + t)
      in bindC (on_engine get_time_operator) (\<lambda>M.
         returnC (madd H (smult (complex_of_real alpha_terms) M))))"

text \<open>Term 4: the regime change, from the transition time on.\<close>

definition regime_term :: "real \<Rightarrow> params \<Rightarrow> mat \<Rightarrow> ('r world, mat) comp" where
  "regime_term t p H =
     (if t \<ge> tau p then
        (let heaviside_val = 1;
             sigmoid_val = sigmoid (gamma p * heaviside_val);
             regime_val = eta p * heaviside_val * sigmoid_val
         in bindC (on_engine get_regime_operator) (\<lambda>M.
            returnC (madd H (smult (complex_of_real regime_val) M))))
      else returnC H)"

text \<open>Term 5: the noise, scaled by the norm of the last state of the history.\<close>

definition noise_term :: "'r env \<Rightarrow> real \<Rightarrow> params \<Rightarrow> mat \<Rightarrow> ('r world, mat) comp" where
  "noise_term env t p H =
     (\<lambda>(e, r).
        (let previous_state_norm = get_previous_state_norm e;
             noise_scaling = 1 + beta p * previous_state_norm
         in bindC (random_normal env 0 noise_scaling) (\<lambda>z.
            let noise = sigma p * z in
            bindC (get_noise_operator env) (\<lambda>M.
            returnC (madd H (smult (complex_of_real noise) M))))) (e, r))"

subsection \<open>The operator\<close>

definition hamiltonian_operator :: "'r env \<Rightarrow> real \<Rightarrow> params \<Rightarrow> ('r world, mat) comp" where
  "hamiltonian_operator env t p =
     (\<lambda>(e, r).
        bindC (channel_terms t p [0..<nat (n_pairs p)] (zeros (hilbert_dim e) (hilbert_dim e)))
          (\<lambda>H1.
        bindC (softplus_term env t p H1) (\<lambda>H2.
        bindC (alpha_term t p H2) (\<lambda>H3.
        bindC (regime_term t p H3) (\<lambda>H4.
        bindC (noise_term env t p H4) (\<lambda>H5.
        bindC (liftE (validate_hamiltonian H5 t)) (\<lambda>u.
        returnC H5)))))) (e, r))"

subsection \<open>Time evolution\<close>




subsection \<open>Trading metrics\<close>

text \<open>
  \<^verbatim>\<open>calculate_trading_signal\<close>: the real part of the expectation value of the
  sum of the Pauli X operators, divided by the number of qubits. The matrix product raises
  when the stored state does not have the dimension of the operator.
\<close>

definition calculate_trading_signal :: "engine \<Rightarrow> (error + real) \<times> engine" where
  "calculate_trading_signal e =
     (let (Ms, e') = get_each get_pauli_x [0..<n_qubits e] e;
          signal_operator = sum_mats (hilbert_dim e) Ms
      in if length (quantum_state e') \<noteq> hilbert_dim e
         then (Inl (ValueError ''matmul: dimension mismatch''), e')
         else
           let expectation = vdot (quantum_state e') (matvec signal_operator (quantum_state e'))
           in (Inr (Re expectation / real (n_qubits e)), e'))"

section \<open>The gradient optimizer\<close>

definition DEFAULT_LEARNING_RATE :: real where
  "DEFAULT_LEARNING_RATE = 1 / 100"

definition MIN_LEARNING_RATE :: real where
  "MIN_LEARNING_RATE = 1 / 10 ^ 6"

definition MAX_LEARNING_RATE :: real where
  "MAX_LEARNING_RATE = 1"

definition GRADIENT_CLIP_THRESHOLD :: real where
  "GRADIENT_CLIP_THRESHOLD = 10"

definition CONVERGENCE_TOLERANCE :: real where
  "CONVERGENCE_TOLERANCE = 1 / 10 ^ 6"

text \<open>
  The names of the parameters, which the source passes as strings to
  \<^verbatim>\<open>getattr\<close> and uses as the keys of the gradient dictionary. The keys of the Adam
  dictionaries are the name of a scalar, or \<^verbatim>\<open>f'{name}_{i}'\<close> for the entry
  \<open>i\<close> of an array.
\<close>

datatype field =
    F_amplitude | F_frequency | F_phase | F_decay | F_decay_rate
  | F_a | F_b | F_x0 | F_alpha_0 | F_alpha_1 | F_alpha_2
  | F_tau | F_eta | F_gamma | F_sigma | F_beta

datatype adam_key = Key_entry field nat | Key_scalar field

datatype scheduler = Cosine | Exponential | Constant

record optimizer =
  learning_rate :: real
  initial_learning_rate :: real
  beta1 :: real
  beta2 :: real
  epsilon :: real
  use_adam :: bool
  clip_gradients :: bool
  scheduler_type :: scheduler
  adam_m :: "adam_key \<rightharpoonup> real"
  adam_v :: "adam_key \<rightharpoonup> real"
  adam_t :: nat

text \<open>\<^verbatim>\<open>QuantumGradientOptimizer.__init__\<close>, with its assertions.\<close>

definition init_optimizer ::
  "real \<Rightarrow> real \<Rightarrow> real \<Rightarrow> real \<Rightarrow> bool \<Rightarrow> bool \<Rightarrow> scheduler \<Rightarrow> error + optimizer" where
  "init_optimizer lr b1 b2 eps adam clip sched =
     (if \<not> (MIN_LEARNING_RATE \<le> lr \<and> lr \<le> MAX_LEARNING_RATE) then Inl (AssertionError [])
      else if \<not> (0 < b1 \<and> b1 < 1) then Inl (AssertionError [])
      else if \<not> (0 < b2 \<and> b2 < 1) then Inl (AssertionError [])
      else Inr \<lparr> learning_rate = lr, initial_learning_rate = lr, beta1 = b1, beta2 = b2,
                 epsilon = eps, use_adam = adam, clip_gradients = clip,
                 scheduler_type = sched, adam_m = Map.empty, adam_v = Map.empty,
                 adam_t = 0 \<rparr>)"

record optimization_result =
  optimized_params :: params
  final_loss :: real
  loss_history :: "real list"
  gradient_norms :: "real list"
  learning_rates :: "real list"
  epochs :: int
  converged :: bool
  convergence_reason :: string

subsection \<open>Perturbed copies\<close>

definition array_of :: "field \<Rightarrow> params \<Rightarrow> real list option" where
  "array_of name p =
     (case name of
        F_amplitude \<Rightarrow> Some (amplitude p)
      | F_frequency \<Rightarrow> Some (frequency p)
      | F_phase \<Rightarrow> Some (phase p)
      | F_decay \<Rightarrow> Some (decay p)
      | F_decay_rate \<Rightarrow> Some (decay_rate p)
      | _ \<Rightarrow> None)"

definition scalar_of :: "field \<Rightarrow> params \<Rightarrow> real option" where
  "scalar_of name p =
     (case name of
        F_a \<Rightarrow> Some (soft_a p) | F_b \<Rightarrow> Some (soft_b p) | F_x0 \<Rightarrow> Some (x0 p)
      | F_alpha_0 \<Rightarrow> Some (alpha_0 p) | F_alpha_1 \<Rightarrow> Some (alpha_1 p)
      | F_alpha_2 \<Rightarrow> Some (alpha_2 p)
      | F_tau \<Rightarrow> Some (tau p) | F_eta \<Rightarrow> Some (eta p) | F_gamma \<Rightarrow> Some (gamma p)
      | F_sigma \<Rightarrow> Some (sigma p) | F_beta \<Rightarrow> Some (beta p)
      | _ \<Rightarrow> None)"

definition set_array :: "field \<Rightarrow> real list \<Rightarrow> params \<Rightarrow> params" where
  "set_array name xs p =
     (case name of
        F_amplitude \<Rightarrow> p\<lparr>amplitude := xs\<rparr>
      | F_frequency \<Rightarrow> p\<lparr>frequency := xs\<rparr>
      | F_phase \<Rightarrow> p\<lparr>phase := xs\<rparr>
      | F_decay \<Rightarrow> p\<lparr>decay := xs\<rparr>
      | F_decay_rate \<Rightarrow> p\<lparr>decay_rate := xs\<rparr>
      | _ \<Rightarrow> p)"

definition set_scalar :: "field \<Rightarrow> real \<Rightarrow> params \<Rightarrow> params" where
  "set_scalar name x p =
     (case name of
        F_a \<Rightarrow> p\<lparr>soft_a := x\<rparr> | F_b \<Rightarrow> p\<lparr>soft_b := x\<rparr> | F_x0 \<Rightarrow> p\<lparr>x0 := x\<rparr>
      | F_alpha_0 \<Rightarrow> p\<lparr>alpha_0 := x\<rparr> | F_alpha_1 \<Rightarrow> p\<lparr>alpha_1 := x\<rparr>
      | F_alpha_2 \<Rightarrow> p\<lparr>alpha_2 := x\<rparr>
      | F_tau \<Rightarrow> p\<lparr>tau := x\<rparr> | F_eta \<Rightarrow> p\<lparr>eta := x\<rparr> | F_gamma \<Rightarrow> p\<lparr>gamma := x\<rparr>
      | F_sigma \<Rightarrow> p\<lparr>sigma := x\<rparr> | F_beta \<Rightarrow> p\<lparr>beta := x\<rparr>
      | _ \<Rightarrow> p)"

text \<open>
  The deep copy both helpers start with: a new \<^verbatim>\<open>TradingParameters\<close> from the
  fields of the old one, which runs the validation on the unperturbed values.
\<close>

definition copy_params :: "params \<Rightarrow> error + params" where
  "copy_params p =
     TradingParameters (n_pairs p) (amplitude p) (frequency p) (phase p) (decay p)
       (decay_rate p) (soft_a p) (soft_b p) (x0 p) (alpha_0 p) (alpha_1 p) (alpha_2 p)
       (tau p) (eta p) (gamma p) (sigma p) (beta p)"

text \<open>
  \<^verbatim>\<open>_perturb_param\<close>: the copy, then
  \<^verbatim>\<open>getattr(new_params, param_name)[index] += delta\<close> on the copy. Subscripting a
  scalar field is a TypeError.
\<close>

definition perturb_param :: "params \<Rightarrow> field \<Rightarrow> nat \<Rightarrow> real \<Rightarrow> error + params" where
  "perturb_param p param_name index delta =
     (case copy_params p of
        Inl err \<Rightarrow> Inl err
      | Inr new_params \<Rightarrow>
          (case array_of param_name new_params of
             None \<Rightarrow> Inl (TypeError ''not subscriptable'')
           | Some xs \<Rightarrow>
               if index < length xs
               then Inr (set_array param_name (xs[index := xs ! index + delta]) new_params)
               else Inl IndexError))"

text \<open>
  \<^verbatim>\<open>_perturb_scalar_param\<close>: the copy, then
  \<^verbatim>\<open>setattr(new_params, param_name, current_value + delta)\<close>. For an array field the
  sum is numpy's broadcast.
\<close>

definition perturb_scalar_param :: "params \<Rightarrow> field \<Rightarrow> real \<Rightarrow> error + params" where
  "perturb_scalar_param p param_name delta =
     (case copy_params p of
        Inl err \<Rightarrow> Inl err
      | Inr new_params \<Rightarrow>
          (case scalar_of param_name new_params of
             Some current_value \<Rightarrow> Inr (set_scalar param_name (current_value + delta) new_params)
           | None \<Rightarrow>
               (case array_of param_name new_params of
                  Some xs \<Rightarrow> Inr (set_array param_name (map (\<lambda>x. x + delta) xs) new_params)
                | None \<Rightarrow> Inr new_params)))"

subsection \<open>Gradient dictionaries and clipping\<close>

datatype grad = GArr "real list" | GScal real

type_synonym gradients = "(field \<times> grad) list"

definition grad_sq :: "grad \<Rightarrow> real" where
  "grad_sq g = (case g of GArr xs \<Rightarrow> sum_list (map (\<lambda>x. x\<^sup>2) xs) | GScal x \<Rightarrow> x\<^sup>2)"

text \<open>The loop that both \<^verbatim>\<open>_clip_gradients\<close> and the optimization loop run.\<close>

definition global_norm :: "('k \<times> grad) list \<Rightarrow> real" where
  "global_norm gs = sqrt (sum_list (map (\<lambda>(k, g). grad_sq g) gs))"

definition grad_scale :: "real \<Rightarrow> grad \<Rightarrow> grad" where
  "grad_scale c g = (case g of GArr xs \<Rightarrow> GArr (map (\<lambda>x. x * c) xs) | GScal x \<Rightarrow> GScal (x * c))"

definition clip_gradients_fn :: "('k \<times> grad) list \<Rightarrow> ('k \<times> grad) list" where
  "clip_gradients_fn gs =
     (let gn = global_norm gs in
      if gn > GRADIENT_CLIP_THRESHOLD
      then (let scale = GRADIENT_CLIP_THRESHOLD / gn in map (\<lambda>(k, g). (k, grad_scale scale g)) gs)
      else gs)"

text \<open>
  \<^verbatim>\<open>gradients[name][i]\<close> and \<^verbatim>\<open>gradients[name]\<close> as the update reads them:
  a missing key is a KeyError; the arrays hold arrays and the scalars hold scalars.
\<close>

definition grad_entry :: "gradients \<Rightarrow> field \<Rightarrow> nat \<Rightarrow> error + real" where
  "grad_entry gs name i =
     (case map_of gs name of
        None \<Rightarrow> Inl KeyError
      | Some (GArr xs) \<Rightarrow> nth_err xs i
      | Some (GScal x) \<Rightarrow> Inl (TypeError ''not subscriptable''))"

definition grad_scalar :: "gradients \<Rightarrow> field \<Rightarrow> error + real" where
  "grad_scalar gs name =
     (case map_of gs name of
        None \<Rightarrow> Inl KeyError
      | Some (GScal x) \<Rightarrow> Inr x
      | Some (GArr xs) \<Rightarrow> Inl (TypeError ''array where a scalar is expected''))"


subsection \<open>Gradient computation\<close>

fun mapC :: "('a \<Rightarrow> ('s, 'b) comp) \<Rightarrow> 'a list \<Rightarrow> ('s, 'b list) comp" where
  "mapC f [] = returnC []"
| "mapC f (x # xs) = bindC (f x) (\<lambda>y. bindC (mapC f xs) (\<lambda>ys. returnC (y # ys)))"

text \<open>The finite difference step \<^verbatim>\<open>h = 1e-5\<close>.\<close>

definition fd_h :: real where
  "fd_h = 1 / 10 ^ 5"

text \<open>
  A central finite difference as every block of \<^verbatim>\<open>compute_gradients\<close> writes it:
  both perturbed copies are made first, then the loss is evaluated at the upper and at
  the lower one.
\<close>

definition finite_difference ::
  "(params \<Rightarrow> ('s, real) comp) \<Rightarrow> error + params \<Rightarrow> error + params \<Rightarrow> ('s, real) comp" where
  "finite_difference loss_fn made_plus made_minus =
     bindC (liftE made_plus) (\<lambda>params_plus.
     bindC (liftE made_minus) (\<lambda>params_minus.
     bindC (loss_fn params_plus) (\<lambda>loss_plus.
     bindC (loss_fn params_minus) (\<lambda>loss_minus.
     returnC ((loss_plus - loss_minus) / (2 * fd_h))))))"

definition fd_array :: "(params \<Rightarrow> ('s, real) comp) \<Rightarrow> params \<Rightarrow> field \<Rightarrow> nat \<Rightarrow> ('s, real) comp" where
  "fd_array loss_fn p name i =
     finite_difference loss_fn (perturb_param p name i fd_h) (perturb_param p name i (- fd_h))"

definition fd_scalar :: "(params \<Rightarrow> ('s, real) comp) \<Rightarrow> params \<Rightarrow> field \<Rightarrow> ('s, real) comp" where
  "fd_scalar loss_fn p name =
     finite_difference loss_fn (perturb_scalar_param p name fd_h)
       (perturb_scalar_param p name (- fd_h))"

definition phase_gradient ::
  "(params \<Rightarrow> ('s, real) comp) \<Rightarrow> params \<Rightarrow> real \<Rightarrow> nat \<Rightarrow> ('s, real) comp" where
  "phase_gradient loss_fn p t i =
     bindC (liftE (nth_err (amplitude p) i)) (\<lambda>am.
     bindC (liftE (nth_err (frequency p) i)) (\<lambda>fr.
     bindC (liftE (nth_err (phase p) i)) (\<lambda>ph.
       let analytical_grad = am * cos (fr * t + ph) in
       bindC (fd_array loss_fn p F_phase i) (\<lambda>numerical_grad.
       returnC (0.5 * (analytical_grad + numerical_grad))))))"

definition decay_rate_gradient :: "params \<Rightarrow> real \<Rightarrow> nat \<Rightarrow> ('s, real) comp" where
  "decay_rate_gradient p t i =
     bindC (liftE (nth_err (decay p) i)) (\<lambda>de.
     bindC (liftE (nth_err (decay_rate p) i)) (\<lambda>dr.
     returnC (- t * de * exp (- dr * t))))"

text \<open>
  \<^verbatim>\<open>compute_gradients\<close> for a given loss function. The dictionary is built in the
  order of the source; \<^verbatim>\<open>np.zeros(params.n_pairs)\<close> raises for a negative size.
\<close>

definition compute_gradients_with ::
  "optimizer \<Rightarrow> params \<Rightarrow> real \<Rightarrow> (params \<Rightarrow> ('s, real) comp) \<Rightarrow> ('s, gradients) comp" where
  "compute_gradients_with opt p t loss_fn =
     (if n_pairs p < 0 then raiseC (ValueError ''negative dimensions are not allowed'')
      else
        let idx = [0..<nat (n_pairs p)] in
        bindC (mapC (fd_array loss_fn p F_amplitude) idx) (\<lambda>g_amplitude.
        bindC (mapC (phase_gradient loss_fn p t) idx) (\<lambda>g_phase.
        bindC (mapC (decay_rate_gradient p t) idx) (\<lambda>g_decay_rate.
        bindC (mapC (fd_array loss_fn p F_frequency) idx) (\<lambda>g_frequency.
        bindC (mapC (fd_array loss_fn p F_decay) idx) (\<lambda>g_decay.
          let s = soft_a p * (t - x0 p)\<^sup>2 + soft_b p;
              sigmoid_s = (if \<bar>s\<bar> < 20 then 1 / (1 + exp (- s)) else if s > 0 then 1 else 0);
              g_a = (t - x0 p)\<^sup>2 * sigmoid_s;
              g_b = sigmoid_s;
              g_x0 = - 2 * soft_a p * (t - x0 p) * sigmoid_s;
              g_alpha_0 = t\<^sup>2;
              g_alpha_1 = sin (2 * pi * t);
              g_alpha_2 = ln (1 + t)
          in
          bindC (if t \<ge> tau p
                 then bindC (fd_scalar loss_fn p F_tau) (\<lambda>g_tau.
                      bindC (fd_scalar loss_fn p F_eta) (\<lambda>g_eta.
                      bindC (fd_scalar loss_fn p F_gamma) (\<lambda>g_gamma.
                      returnC (g_tau, g_eta, g_gamma))))
                 else returnC (0, 0, 0)) (\<lambda>(g_tau, g_eta, g_gamma).
          bindC (fd_scalar loss_fn p F_sigma) (\<lambda>g_sigma.
          bindC (fd_scalar loss_fn p F_beta) (\<lambda>g_beta.
            let gradients =
              [(F_amplitude, GArr g_amplitude), (F_phase, GArr g_phase),
               (F_decay_rate, GArr g_decay_rate), (F_frequency, GArr g_frequency),
               (F_decay, GArr g_decay),
               (F_a, GScal g_a), (F_b, GScal g_b), (F_x0, GScal g_x0),
               (F_alpha_0, GScal g_alpha_0), (F_alpha_1, GScal g_alpha_1),
               (F_alpha_2, GScal g_alpha_2),
               (F_tau, GScal g_tau), (F_eta, GScal g_eta), (F_gamma, GScal g_gamma),
               (F_sigma, GScal g_sigma), (F_beta, GScal g_beta)]
            in returnC (if clip_gradients opt then clip_gradients_fn gradients
                        else gradients))))))))))"

text \<open>The default loss: the norm of the Hamiltonian at the given time.\<close>

definition default_loss :: "'r env \<Rightarrow> real \<Rightarrow> params \<Rightarrow> ('r world, real) comp" where
  "default_loss env t p = bindC (hamiltonian_operator env t p) (\<lambda>H. returnC (frobenius H))"

definition compute_gradients ::
  "'r env \<Rightarrow> optimizer \<Rightarrow> params \<Rightarrow> real \<Rightarrow> (params \<Rightarrow> ('r world, real) comp) option \<Rightarrow>
   ('r world, gradients) comp" where
  "compute_gradients env opt p t loss_fn =
     compute_gradients_with opt p t
       (case loss_fn of None \<Rightarrow> default_loss env t | Some f \<Rightarrow> f)"

subsection \<open>Adam and the learning rate\<close>

text \<open>
  \<^verbatim>\<open>_adam_update\<close>. The two bias corrections divide by \<open>1 - beta ** t\<close>; a zero
  denominator is an error here (ZeroDivisionError for Python floats; numpy scalars would
  give inf or nan, which the reals lack). Inside \<^verbatim>\<open>optimize_parameters\<close> the step
  count is at least 1 and the constructor has asserted \<open>0 < beta < 1\<close>.
\<close>

definition adam_update :: "real \<Rightarrow> real \<Rightarrow> adam_key \<Rightarrow> (optimizer, real) comp" where
  "adam_update param_value gradient param_key opt =
     (let o1 = (if adam_m opt param_key = None
                then opt\<lparr>adam_m := (adam_m opt)(param_key \<mapsto> 0),
                         adam_v := (adam_v opt)(param_key \<mapsto> 0)\<rparr>
                else opt)
      in case adam_m o1 param_key of
           None \<Rightarrow> (Inl KeyError, o1)
         | Some m_old \<Rightarrow>
             let m_new = beta1 o1 * m_old + (1 - beta1 o1) * gradient;
                 o2 = o1\<lparr>adam_m := (adam_m o1)(param_key \<mapsto> m_new)\<rparr>
             in case adam_v o2 param_key of
                  None \<Rightarrow> (Inl KeyError, o2)
                | Some v_old \<Rightarrow>
                    let v_new = beta2 o2 * v_old + (1 - beta2 o2) * gradient\<^sup>2;
                        o3 = o2\<lparr>adam_v := (adam_v o2)(param_key \<mapsto> v_new)\<rparr>
                    in if 1 - beta1 o3 ^ adam_t o3 = 0 \<or> 1 - beta2 o3 ^ adam_t o3 = 0
                       then (Inl ZeroDivisionError, o3)
                       else
                         let m_hat = m_new / (1 - beta1 o3 ^ adam_t o3);
                             v_hat = v_new / (1 - beta2 o3 ^ adam_t o3)
                         in if sqrt v_hat + epsilon o3 = 0 then (Inl ZeroDivisionError, o3)
                            else (Inr (param_value
                                       - learning_rate o3 * m_hat / (sqrt v_hat + epsilon o3)),
                                  o3))"

definition update_learning_rate :: "nat \<Rightarrow> int \<Rightarrow> optimizer \<Rightarrow> optimizer" where
  "update_learning_rate epoch max_epochs opt =
     (case scheduler_type opt of
        Cosine \<Rightarrow>
          opt\<lparr>learning_rate :=
                 MIN_LEARNING_RATE
                 + 0.5 * (initial_learning_rate opt - MIN_LEARNING_RATE)
                   * (1 + cos (pi * real epoch / real_of_int max_epochs))\<rparr>
      | Exponential \<Rightarrow>
          opt\<lparr>learning_rate :=
                 max (initial_learning_rate opt * ((95 / 100) powr (real epoch / 100)))
                     MIN_LEARNING_RATE\<rparr>
      | Constant \<Rightarrow> opt)"

subsection \<open>Applying the gradients\<close>

text \<open>One entry of one array: Adam under its key, or plain gradient descent.\<close>

definition update_entry :: "params \<Rightarrow> gradients \<Rightarrow> field \<Rightarrow> nat \<Rightarrow> (optimizer, real) comp" where
  "update_entry p gs name i =
     (case array_of name p of
        None \<Rightarrow> raiseC (TypeError ''not subscriptable'')
      | Some xs \<Rightarrow>
          bindC (liftE (nth_err xs i)) (\<lambda>x.
          bindC (liftE (grad_entry gs name i)) (\<lambda>g opt.
            if use_adam opt then adam_update x g (Key_entry name i) opt
            else (Inr (x - learning_rate opt * g), opt))))"

definition update_scalar :: "params \<Rightarrow> gradients \<Rightarrow> field \<Rightarrow> (optimizer, real) comp" where
  "update_scalar p gs name =
     (case scalar_of name p of
        None \<Rightarrow> raiseC (TypeError ''not a scalar'')
      | Some x \<Rightarrow>
          bindC (liftE (grad_scalar gs name)) (\<lambda>g opt.
            if use_adam opt then adam_update x g (Key_scalar name) opt
            else (Inr (x - learning_rate opt * g), opt)))"

definition update_pair :: "params \<Rightarrow> gradients \<Rightarrow> nat \<Rightarrow> (optimizer, real \<times> real \<times> real \<times> real \<times> real) comp" where
  "update_pair p gs i =
     bindC (update_entry p gs F_amplitude i) (\<lambda>am.
     bindC (update_entry p gs F_frequency i) (\<lambda>fr.
     bindC (update_entry p gs F_phase i) (\<lambda>ph.
     bindC (update_entry p gs F_decay i) (\<lambda>de.
     bindC (update_entry p gs F_decay_rate i) (\<lambda>dr.
     returnC (am, fr, ph, de, dr))))))"

text \<open>
  \<^verbatim>\<open>_update_params_with_gradients\<close>: the arrays are copies whose first
  \<open>n_pairs\<close> entries are overwritten, the scalars follow, and the result is a new
  \<^verbatim>\<open>TradingParameters\<close>, validated by its constructor.
\<close>

definition update_params_with_gradients :: "params \<Rightarrow> gradients \<Rightarrow> (optimizer, params) comp" where
  "update_params_with_gradients p gs =
     bindC (mapC (update_pair p gs) [0..<nat (n_pairs p)]) (\<lambda>rows.
       let k = length rows;
           new_amplitude = map (\<lambda>(am, fr, ph, de, dr). am) rows @ drop k (amplitude p);
           new_frequency = map (\<lambda>(am, fr, ph, de, dr). fr) rows @ drop k (frequency p);
           new_phase = map (\<lambda>(am, fr, ph, de, dr). ph) rows @ drop k (phase p);
           new_decay = map (\<lambda>(am, fr, ph, de, dr). de) rows @ drop k (decay p);
           new_decay_rate = map (\<lambda>(am, fr, ph, de, dr). dr) rows @ drop k (decay_rate p)
       in
       bindC (update_scalar p gs F_a) (\<lambda>new_a.
       bindC (update_scalar p gs F_b) (\<lambda>new_b.
       bindC (update_scalar p gs F_x0) (\<lambda>new_x0.
       bindC (update_scalar p gs F_alpha_0) (\<lambda>new_alpha_0.
       bindC (update_scalar p gs F_alpha_1) (\<lambda>new_alpha_1.
       bindC (update_scalar p gs F_alpha_2) (\<lambda>new_alpha_2.
       bindC (update_scalar p gs F_tau) (\<lambda>new_tau.
       bindC (update_scalar p gs F_eta) (\<lambda>new_eta.
       bindC (update_scalar p gs F_gamma) (\<lambda>new_gamma.
       bindC (update_scalar p gs F_sigma) (\<lambda>new_sigma.
       bindC (update_scalar p gs F_beta) (\<lambda>new_beta.
       liftE (TradingParameters (n_pairs p) new_amplitude new_frequency new_phase new_decay
                new_decay_rate new_a new_b new_x0 new_alpha_0 new_alpha_1 new_alpha_2
                new_tau new_eta new_gamma new_sigma new_beta)))))))))))))"

subsection \<open>The optimization loop\<close>

text \<open>The local variables of \<^verbatim>\<open>optimize_parameters\<close> that the loop carries.\<close>

record run =
  r_params :: params
  r_loss_history :: "real list"
  r_gradient_norms :: "real list"
  r_learning_rates :: "real list"
  r_best_loss :: "real option"
  r_patience_counter :: int

definition on_opt :: "(optimizer, 'a) comp \<Rightarrow> (optimizer \<times> 'w, 'a) comp" where
  "on_opt c = (\<lambda>(opt, w). let (res, opt') = c opt in (res, (opt', w)))"

definition on_world :: "('w, 'a) comp \<Rightarrow> (optimizer \<times> 'w, 'a) comp" where
  "on_world c = (\<lambda>(opt, w). let (res, w') = c w in (res, (opt, w')))"

text \<open>
  One pass of the loop up to the convergence check. \<open>r_best_loss = None\<close> is the
  initial \<^verbatim>\<open>float('inf')\<close>, which every loss is below.
\<close>

definition optimize_epoch ::
  "'r env \<Rightarrow> (params \<Rightarrow> ('r world, real) comp) option \<Rightarrow> int \<Rightarrow> nat \<Rightarrow> run \<Rightarrow>
   (optimizer \<times> 'r world, run \<times> real) comp" where
  "optimize_epoch env loss_fn max_epochs epoch st =
     bindC (on_opt (\<lambda>opt. (Inr (), update_learning_rate epoch max_epochs
                                      (opt\<lparr>adam_t := epoch + 1\<rparr>)))) (\<lambda>u.
     bindC (on_opt (\<lambda>opt. (Inr (learning_rate opt), opt))) (\<lambda>lr.
       let t = real epoch * 0.01 in
       bindC (on_world (case loss_fn of
                          None \<Rightarrow> default_loss env t (r_params st)
                        | Some f \<Rightarrow> f (r_params st))) (\<lambda>loss.
       bindC (\<lambda>(opt, w). on_world (compute_gradients env opt (r_params st) t loss_fn) (opt, w))
         (\<lambda>gradients.
       let grad_norm = global_norm gradients in
       bindC (on_opt (update_params_with_gradients (r_params st) gradients)) (\<lambda>new_params.
       let improved = (case r_best_loss st of
                         None \<Rightarrow> True
                       | Some best \<Rightarrow> loss < best - CONVERGENCE_TOLERANCE)
       in returnC
            (\<lparr> r_params = new_params,
                r_loss_history = r_loss_history st @ [loss],
                r_gradient_norms = r_gradient_norms st @ [grad_norm],
                r_learning_rates = r_learning_rates st @ [lr],
                r_best_loss = (if improved then Some loss else r_best_loss st),
                r_patience_counter = (if improved then 0 else r_patience_counter st + 1) \<rparr>,
             loss))))))"

fun optimize_loop ::
  "'r env \<Rightarrow> (params \<Rightarrow> ('r world, real) comp) option \<Rightarrow> int \<Rightarrow> int \<Rightarrow> nat list \<Rightarrow> run \<Rightarrow>
   (optimizer \<times> 'r world, optimization_result) comp" where
  "optimize_loop env loss_fn max_epochs patience [] st =
     (if r_loss_history st = [] then raiseC IndexError
      else returnC
        \<lparr> optimized_params = r_params st, final_loss = last (r_loss_history st),
          loss_history = r_loss_history st, gradient_norms = r_gradient_norms st,
          learning_rates = r_learning_rates st, epochs = max_epochs,
          converged = False, convergence_reason = ''max_epochs'' \<rparr>)"
| "optimize_loop env loss_fn max_epochs patience (epoch # rest) st =
     bindC (optimize_epoch env loss_fn max_epochs epoch st) (\<lambda>(st', loss).
       if r_patience_counter st' \<ge> patience
       then returnC
         \<lparr> optimized_params = r_params st', final_loss = loss,
           loss_history = r_loss_history st', gradient_norms = r_gradient_norms st',
           learning_rates = r_learning_rates st', epochs = int epoch + 1,
           converged = True, convergence_reason = ''patience'' \<rparr>
       else optimize_loop env loss_fn max_epochs patience rest st')"

definition optimize_parameters ::
  "'r env \<Rightarrow> params \<Rightarrow> (params \<Rightarrow> ('r world, real) comp) option \<Rightarrow> int \<Rightarrow> int \<Rightarrow>
   (optimizer \<times> 'r world, optimization_result) comp" where
  "optimize_parameters env initial_params loss_fn max_epochs convergence_patience =
     bindC (on_opt (\<lambda>opt. (Inr (), opt\<lparr>adam_m := Map.empty, adam_v := Map.empty,
                                       adam_t := 0\<rparr>))) (\<lambda>u.
     optimize_loop env loss_fn max_epochs convergence_patience [0..<nat max_epochs]
       \<lparr> r_params = initial_params, r_loss_history = [], r_gradient_norms = [],
         r_learning_rates = [], r_best_loss = None, r_patience_counter = 0 \<rparr>)"

subsection \<open>Sample inputs\<close>

text \<open>
  A loss function that is constantly 0 and records, in the state, every parameter set it
  is evaluated at.
\<close>

definition logging_loss :: "params \<Rightarrow> (params list, real) comp" where
  "logging_loss q = (\<lambda>log. (Inr 0, log @ [q]))"

text \<open>A valid parameter set whose one amplitude sits on the minimum.\<close>

definition edge_params :: params where
  "edge_params = \<lparr> n_pairs = 1, amplitude = [1 / 10 ^ 10], frequency = [1], phase = [0],
      decay = [0], decay_rate = [1], soft_a = 0, soft_b = 0, x0 = 0, alpha_0 = 0,
      alpha_1 = 0, alpha_2 = 0, tau = 0, eta = 0, gamma = 0, sigma = 0, beta = 0 \<rparr>"

text \<open>The optimizer as its constructor makes it from the default arguments.\<close>

definition demo_optimizer :: optimizer where
  "demo_optimizer = \<lparr> learning_rate = 1 / 100, initial_learning_rate = 1 / 100,
      beta1 = 9 / 10, beta2 = 999 / 1000, epsilon = 1 / 10 ^ 8, use_adam = True,
      clip_gradients = True, scheduler_type = Cosine, adam_m = Map.empty,
      adam_v = Map.empty, adam_t = 0 \<rparr>"

section \<open>The assembled operator as a formula\<close>

text \<open>
  What the five blocks of \<^verbatim>\<open>hamiltonian_operator\<close> add up to, written without
  the cache and the control flow: the operators as their constructors build them, the
  coefficients as functions of the time and the parameters, and the two random draws taken
  from the generator in the order of the source.
\<close>

definition trading_operator :: "engine \<Rightarrow> nat \<Rightarrow> mat" where
  "trading_operator e i =
     (if i mod 2 = 0 then construct_pauli_x e (i mod n_qubits e)
      else construct_pauli_z e (i mod n_qubits e))"

definition pauli_x_sum :: "engine \<Rightarrow> mat" where
  "pauli_x_sum e = sum_mats (hilbert_dim e) (map (construct_pauli_x e) [0..<n_qubits e])"

definition pauli_z_sum :: "engine \<Rightarrow> mat" where
  "pauli_z_sum e = sum_mats (hilbert_dim e) (map (construct_pauli_z e) [0..<n_qubits e])"

definition regime_operator :: "engine \<Rightarrow> mat" where
  "regime_operator e =
     foldl (\<lambda>op i. madd op (matmul (construct_pauli_x e i) (construct_pauli_x e (i + 1))))
       (zeros (hilbert_dim e) (hilbert_dim e)) [0..<n_qubits e - 1]"

definition channel_signal :: "real \<Rightarrow> params \<Rightarrow> nat \<Rightarrow> real" where
  "channel_signal t p i =
     amplitude p ! i * sin (frequency p ! i * t + phase p ! i)
     + decay p ! i * exp (- decay_rate p ! i * t)"

definition channel_sum :: "real \<Rightarrow> params \<Rightarrow> engine \<Rightarrow> nat list \<Rightarrow> mat \<Rightarrow> mat" where
  "channel_sum t p e idx H =
     foldl (\<lambda>H i. madd H (smult (complex_of_real (channel_signal t p i)) (trading_operator e i)))
       H idx"

definition integral_value :: "'r env \<Rightarrow> real \<Rightarrow> params \<Rightarrow> real" where
  "integral_value env t p =
     (case compute_softplus_integral env t p of
        Inr v \<Rightarrow> v
      | Inl err \<Rightarrow> softplus (soft_a p * (t - x0 p)\<^sup>2 + soft_b p))"

definition alpha_value :: "real \<Rightarrow> params \<Rightarrow> real" where
  "alpha_value t p = alpha_0 p * t\<^sup>2 + alpha_1 p * sin (2 * pi * t) + alpha_2 p * ln (1 + t)"

definition regime_value :: "params \<Rightarrow> real" where
  "regime_value p = eta p * 1 * sigmoid (gamma p * 1)"

definition noise_scaling :: "params \<Rightarrow> engine \<Rightarrow> real" where
  "noise_scaling p e = 1 + beta p * get_previous_state_norm e"

definition noise_value :: "'r env \<Rightarrow> params \<Rightarrow> engine \<Rightarrow> 'r \<Rightarrow> real" where
  "noise_value env p e r = sigma p * (0 + noise_scaling p e * fst (gauss env r))"

definition noise_qubit :: "'r env \<Rightarrow> engine \<Rightarrow> 'r \<Rightarrow> nat" where
  "noise_qubit env e r = 0 + fst (rawint env (snd (gauss env r))) mod (n_qubits e - 0)"

definition assembled :: "'r env \<Rightarrow> real \<Rightarrow> params \<Rightarrow> engine \<Rightarrow> 'r \<Rightarrow> mat" where
  "assembled env t p e r =
     (let H1 = channel_sum t p e [0..<nat (n_pairs p)] (zeros (hilbert_dim e) (hilbert_dim e));
          H2 = madd H1 (smult (complex_of_real (integral_value env t p)) (pauli_x_sum e));
          H3 = madd H2 (smult (complex_of_real (alpha_value t p)) (pauli_z_sum e));
          H4 = (if t \<ge> tau p
                then madd H3 (smult (complex_of_real (regime_value p)) (regime_operator e))
                else H3);
          H5 = madd H4 (smult (complex_of_real (noise_value env p e r))
                           (construct_pauli_z e (noise_qubit env e r)))
      in H5)"

text \<open>
  The invariant of an engine that the constructor establishes and every method keeps: at
  least one qubit, and every cached operator is the one its constructor builds.
\<close>

definition cache_ok :: "engine \<Rightarrow> bool" where
  "cache_ok e =
     (1 \<le> n_qubits e
      \<and> (\<forall>q M. pauli_cache e (q, PauliX) = Some M \<longrightarrow> M = construct_pauli_x e q)
      \<and> (\<forall>q M. pauli_cache e (q, PauliZ) = Some M \<longrightarrow> M = construct_pauli_z e q))"

text \<open>What a method that only fills the cache may change.\<close>

definition cache_step :: "engine \<Rightarrow> engine \<Rightarrow> bool" where
  "cache_step e e' =
     (n_qubits e' = n_qubits e \<and> time_steps e' = time_steps e
      \<and> quantum_state e' = quantum_state e \<and> state_history e' = state_history e
      \<and> cache_ok e')"

text \<open>The five blocks of \<^verbatim>\<open>hamiltonian_operator\<close> up to the validation.\<close>

definition assemble_terms :: "'r env \<Rightarrow> real \<Rightarrow> params \<Rightarrow> ('r world, mat) comp" where
  "assemble_terms env t p =
     (\<lambda>(e, r).
        bindC (channel_terms t p [0..<nat (n_pairs p)] (zeros (hilbert_dim e) (hilbert_dim e)))
          (\<lambda>H1.
        bindC (softplus_term env t p H1) (\<lambda>H2.
        bindC (alpha_term t p H2) (\<lambda>H3.
        bindC (regime_term t p H3) (\<lambda>H4.
        noise_term env t p H4)))) (e, r))"

text \<open>
  A quadrature that ends every integral with the value 0, a generator without state whose
  draws are all 0, and an engine of one qubit whose cache holds a matrix that is not
  Hermitian in the place of the Pauli X operator.
\<close>

definition demo_env :: "unit env" where
  "demo_env = \<lparr> quad = (\<lambda>f a b epsabs epsrel limit. Inr (0, 0)),
                 gauss = (\<lambda>r. (0, r)), rawint = (\<lambda>r. (0, r)) \<rparr>"

definition skewed_engine :: engine where
  "skewed_engine = \<lparr> n_qubits = 1, time_steps = 1, quantum_state = [1, 0],
      state_history = [], pauli_cache = [(0, PauliX) \<mapsto> [[0, 1], [0, 0]]] \<rparr>"

definition decay_params :: params where
  "decay_params = \<lparr> n_pairs = 1, amplitude = [1], frequency = [1], phase = [0],
      decay = [1], decay_rate = [1], soft_a = 0, soft_b = 0, x0 = 0, alpha_0 = 0,
      alpha_1 = 0, alpha_2 = 0, tau = 0, eta = 0, gamma = 0, sigma = 0, beta = 0 \<rparr>"

section \<open>Shapes and symmetry\<close>

text \<open>A matrix of \<open>r\<close> rows that all have length \<open>c\<close>.\<close>

definition is_mat :: "nat \<Rightarrow> nat \<Rightarrow> mat \<Rightarrow> bool" where
  "is_mat r c M = (length M = r \<and> (\<forall>row\<in>set M. length row = c))"

text \<open>A square matrix with real entries that equals its transpose.\<close>

definition real_sym :: "nat \<Rightarrow> mat \<Rightarrow> bool" where
  "real_sym d M =
     (is_mat d d M \<and> (\<forall>i<d. \<forall>j<d. Im (M ! i ! j) = 0 \<and> M ! i ! j = M ! j ! i))"


text \<open>The Kronecker product of the factors \<open>g 0, \<dots>, g (n - 1)\<close>, folded from the left.\<close>

definition tensor_of :: "(nat \<Rightarrow> mat) \<Rightarrow> nat \<Rightarrow> mat" where
  "tensor_of g n = foldl (\<lambda>result i. kron result (g i)) (eye 1) [0..<n]"

text \<open>
  The one-qubit engine after one accepted update with the basis state, a parameter set
  whose \<open>beta\<close> is below \<open>-1\<close>, a quadrature that always raises, and a generator whose
  state counts the draws and whose draws are that count.
\<close>

definition hist_engine :: engine where
  "hist_engine = demo_engine\<lparr>state_history := [[1, 0]]\<rparr>"

definition neg_beta_params :: params where
  "neg_beta_params = decay_params\<lparr>beta := - 2\<rparr>"

definition fail_env :: "unit env" where
  "fail_env = \<lparr> quad = (\<lambda>f a b epsabs epsrel limit. Inl (RuntimeError ''quadrature failed'')),
                 gauss = (\<lambda>r. (0, r)), rawint = (\<lambda>r. (0, r)) \<rparr>"

definition counter_env :: "nat env" where
  "counter_env = \<lparr> quad = (\<lambda>f a b epsabs epsrel limit. Inr (0, 0)),
                    gauss = (\<lambda>r. (real r, Suc r)), rawint = (\<lambda>r. (r, Suc r)) \<rparr>"

text \<open>
  The record of the one-channel scenario with amplitude 1, phase 0, decay amplitude 0, decay
  rate 1 and every scalar 0, for a given frequency.
\<close>

definition scenario_params :: "real \<Rightarrow> params" where
  "scenario_params f = \<lparr> n_pairs = 1, amplitude = [1], frequency = [f], phase = [0],
      decay = [0], decay_rate = [1], soft_a = 0, soft_b = 0, x0 = 0, alpha_0 = 0,
      alpha_1 = 0, alpha_2 = 0, tau = 0, eta = 0, gamma = 0, sigma = 0, beta = 0 \<rparr>"



section \<open>Runs with a constant loss\<close>

text \<open>
  The parameters whose gradient is a finite difference of the loss alone, the field a key
  of the Adam dictionaries belongs to, and what a run with a constant loss keeps true of
  the optimizer: the configuration the constructor asserted (with a positive
  \<open>epsilon\<close>), a step count of at least 1, both dictionaries with the same keys, no
  negative second moment, a zero first moment under every key of a finite-difference
  parameter and no positive first moment under the keys of the decay rates.
\<close>

definition zero_field :: "field \<Rightarrow> bool" where
  "zero_field name =
     (name \<in> {F_amplitude, F_frequency, F_decay, F_tau, F_eta, F_gamma, F_sigma, F_beta})"

definition key_field :: "adam_key \<Rightarrow> field" where
  "key_field k = (case k of Key_entry name i \<Rightarrow> name | Key_scalar name \<Rightarrow> name)"

definition config_ok :: "optimizer \<Rightarrow> bool" where
  "config_ok opt =
     (0 < beta1 opt \<and> beta1 opt < 1 \<and> 0 < beta2 opt \<and> beta2 opt < 1 \<and> 0 < epsilon opt
      \<and> 0 \<le> learning_rate opt \<and> MIN_LEARNING_RATE \<le> initial_learning_rate opt)"

definition moments_ok :: "optimizer \<Rightarrow> bool" where
  "moments_ok opt =
     ((\<forall>k. (adam_m opt k = None) = (adam_v opt k = None))
      \<and> (\<forall>k x. adam_v opt k = Some x \<longrightarrow> 0 \<le> x)
      \<and> (\<forall>k x. zero_field (key_field k) \<longrightarrow> adam_m opt k = Some x \<longrightarrow> x = 0)
      \<and> (\<forall>k x. key_field k = F_decay_rate \<longrightarrow> adam_m opt k = Some x \<longrightarrow> x \<le> 0))"

definition opt_inv :: "optimizer \<Rightarrow> bool" where
  "opt_inv opt = (config_ok opt \<and> 1 \<le> adam_t opt \<and> moments_ok opt)"

text \<open>
  What one update with the gradients of a constant loss keeps of a parameter set: the
  finite-difference parameters stay, the decay rates do not fall, the lengths stay.
\<close>

definition kept :: "params \<Rightarrow> params \<Rightarrow> bool" where
  "kept p p' =
     (n_pairs p' = n_pairs p \<and> amplitude p' = amplitude p \<and> frequency p' = frequency p
      \<and> decay p' = decay p \<and> tau p' = tau p \<and> eta p' = eta p \<and> gamma p' = gamma p
      \<and> sigma p' = sigma p \<and> beta p' = beta p
      \<and> length (phase p') = length (phase p)
      \<and> length (decay_rate p') = length (decay_rate p)
      \<and> (\<forall>i<length (decay_rate p). decay_rate p ! i \<le> decay_rate p' ! i))"

text \<open>The loss function that is \<open>c\<close> everywhere and touches nothing.\<close>

definition constant_loss :: "real \<Rightarrow> params \<Rightarrow> ('s, real) comp" where
  "constant_loss c = (\<lambda>q. returnC c)"

text \<open>
  What the gradient dictionary of a constant loss looks like to the update: every array
  has an entry for each pair and every scalar is there; the finite-difference ones are 0
  and the decay rates' are not positive.
\<close>

definition is_array :: "field \<Rightarrow> bool" where
  "is_array name = (name \<in> {F_amplitude, F_frequency, F_phase, F_decay, F_decay_rate})"

definition grads_ok :: "nat \<Rightarrow> gradients \<Rightarrow> bool" where
  "grads_ok n G =
     ((\<forall>name i. is_array name \<longrightarrow> i < n \<longrightarrow>
         (\<exists>g. grad_entry G name i = Inr g \<and> (zero_field name \<longrightarrow> g = 0)
              \<and> (name = F_decay_rate \<longrightarrow> g \<le> 0)))
      \<and> (\<forall>name. \<not> is_array name \<longrightarrow>
         (\<exists>g. grad_scalar G name = Inr g \<and> (zero_field name \<longrightarrow> g = 0))))"

text \<open>An optimizer with plain gradient descent, no clipping and the constant schedule.\<close>

definition sgd_optimizer :: optimizer where
  "sgd_optimizer = \<lparr> learning_rate = 1 / 100, initial_learning_rate = 1 / 100,
      beta1 = 9 / 10, beta2 = 999 / 1000, epsilon = 1 / 10 ^ 8, use_adam = False,
      clip_gradients = False, scheduler_type = Constant, adam_m = Map.empty,
      adam_v = Map.empty, adam_t = 0 \<rparr>"

section \<open>Vectors\<close>

lemma vdot_self_sum: "vdot v v = complex_of_real (norm_sq v)"
proof -
  have "sum_list (map2 (\<lambda>x y. cnj x * y) v v) = complex_of_real (sum_list (map (\<lambda>x. (cmod x)\<^sup>2) v))"
  proof (induction v)
    case Nil
    show ?case by simp
  next
    case (Cons a v)
    have "cnj a * a = complex_of_real ((cmod a)\<^sup>2)"
      using complex_norm_square [of a] by (simp only: mult.commute)
    with Cons show ?case by simp
  qed
  then show ?thesis by (simp add: vdot_def norm_sq_def)
qed

lemma norm_sq_nonneg: "0 \<le> norm_sq v"
  unfolding norm_sq_def by (induction v) simp_all

lemma cmod_vdot_self: "cmod (vdot v v) = norm_sq v"
  by (simp add: vdot_self_sum norm_sq_nonneg)

section \<open>Updating the state\<close>

text \<open>
  Claim C10. \<^verbatim>\<open>update_quantum_state\<close> is atomic on error. An input whose squared
  norm differs from 1 by more than 1e-15 raises a ValueError and the engine is exactly as
  it was. An input within the tolerance becomes the current state and is appended to the
  history as its newest entry (after which the oldest entry is dropped when the history
  has grown beyond 1000); no other field of the engine changes.
\<close>

theorem update_quantum_state_atomic:
  "(\<bar>norm_sq v - 1\<bar> > 1 / 10 ^ 15 \<longrightarrow>
      (\<exists>msg. update_quantum_state v e = (Inl (ValueError msg), e)))
   \<and> (\<bar>norm_sq v - 1\<bar> \<le> 1 / 10 ^ 15 \<longrightarrow>
      (\<exists>e'. update_quantum_state v e = (Inr (), e')
         \<and> quantum_state e' = v
         \<and> state_history e' =
             (if length (state_history e) \<ge> 1000 then tl (state_history e @ [v])
              else state_history e @ [v])
         \<and> last (state_history e') = v
         \<and> n_qubits e' = n_qubits e \<and> time_steps e' = time_steps e
         \<and> pauli_cache e' = pauli_cache e))"
proof (intro conjI impI)
  assume "\<bar>norm_sq v - 1\<bar> > 1 / 10 ^ 15"
  then show "\<exists>msg. update_quantum_state v e = (Inl (ValueError msg), e)"
    by (simp add: update_quantum_state_def cmod_vdot_self QUANTUM_PRECISION_TOLERANCE_def)
next
  assume ok: "\<bar>norm_sq v - 1\<bar> \<le> 1 / 10 ^ 15"
  have l: "last (tl (state_history e @ [v])) = v" if "length (state_history e) \<ge> 1000"
  proof -
    from that obtain a hs where "state_history e = a # hs" "hs \<noteq> []"
      by (cases "state_history e"; cases "tl (state_history e)") auto
    then show ?thesis by simp
  qed
  show "\<exists>e'. update_quantum_state v e = (Inr (), e')
         \<and> quantum_state e' = v
         \<and> state_history e' =
             (if length (state_history e) \<ge> 1000 then tl (state_history e @ [v])
              else state_history e @ [v])
         \<and> last (state_history e') = v
         \<and> n_qubits e' = n_qubits e \<and> time_steps e' = time_steps e
         \<and> pauli_cache e' = pauli_cache e"
    using ok l
    by (simp add: update_quantum_state_def cmod_vdot_self QUANTUM_PRECISION_TOLERANCE_def
        Let_def)
qed

theorem update_quantum_state_atomic_witness:
  "snd (update_quantum_state [2, 0] demo_engine) = demo_engine
   \<and> fst (update_quantum_state [1, 0] demo_engine) = Inr ()
   \<and> quantum_state (snd (update_quantum_state [0, 1] demo_engine)) = [0, 1]
   \<and> state_history (snd (update_quantum_state [0, 1] demo_engine)) = [[0, 1]]"
proof -
  have bad: "\<bar>norm_sq [2, 0] - 1\<bar> > 1 / 10 ^ 15"
    by (simp add: norm_sq_def)
  have ok1: "\<bar>norm_sq [1, 0] - 1\<bar> \<le> 1 / 10 ^ 15"
    by (simp add: norm_sq_def)
  have ok2: "\<bar>norm_sq [0, 1] - 1\<bar> \<le> 1 / 10 ^ 15"
    by (simp add: norm_sq_def)
  have h: "state_history demo_engine = []"
    by (simp add: demo_engine_def)
  from update_quantum_state_atomic [of "[2, 0]" demo_engine] bad
  have a: "snd (update_quantum_state [2, 0] demo_engine) = demo_engine"
    by auto
  from update_quantum_state_atomic [of "[1, 0]" demo_engine] ok1
  have b: "fst (update_quantum_state [1, 0] demo_engine) = Inr ()"
    by auto
  from update_quantum_state_atomic [of "[0, 1]" demo_engine] ok2 h
  have c: "quantum_state (snd (update_quantum_state [0, 1] demo_engine)) = [0, 1]
     \<and> state_history (snd (update_quantum_state [0, 1] demo_engine)) = [[0, 1]]"
    by auto
  from a b c show ?thesis by blast
qed

section \<open>Gradient clipping\<close>







section \<open>Computations\<close>

lemma bindC_simps [simp]:
  "bindC (returnC x) f = f x"
  "bindC (raiseC err) f = raiseC err"
  "bindC (liftE (Inr x)) f = f x"
  "bindC (liftE (Inl err)) f = raiseC err"
  by (simp_all add: bindC_def returnC_def raiseC_def liftE_def fun_eq_iff)

lemma bindC_apply:
  "bindC c f s = (case c s of (Inl err, s') \<Rightarrow> (Inl err, s') | (Inr x, s') \<Rightarrow> f x s')"
  by (simp add: bindC_def)

lemma returnC_apply [simp]: "returnC x s = (Inr x, s)"
  by (simp add: returnC_def)

lemma raiseC_apply [simp]: "raiseC err s = (Inl err, s)"
  by (simp add: raiseC_def)

section \<open>Perturbed copies and validation\<close>

lemma copy_params_valid: "valid_params p \<Longrightarrow> copy_params p = Inr p"
  by (cases p) (simp add: copy_params_def TradingParameters_def valid_params_def)

lemma perturb_param_valid:
  assumes "valid_params p" "array_of name p = Some xs" "i < length xs"
  shows "perturb_param p name i delta = Inr (set_array name (xs[i := xs ! i + delta]) p)"
  using assms by (simp add: perturb_param_def copy_params_valid)

lemma perturb_scalar_param_valid:
  assumes "valid_params p" "scalar_of name p = Some x"
  shows "perturb_scalar_param p name delta = Inr (set_scalar name (x + delta) p)"
  using assms by (simp add: perturb_scalar_param_def copy_params_valid)

lemma edge_valid: "valid_params edge_params"
  by (simp add: valid_params_def post_init_def edge_params_def MIN_PARAM_VALUE_def
      MAX_NOISE_AMPLITUDE_def)

lemma edge_minus_invalid:
  "\<not> valid_params (edge_params\<lparr>amplitude := [1 / 10 ^ 10 - 1 / 10 ^ 5]\<rparr>)"
  by (simp add: valid_params_def post_init_def edge_params_def MIN_PARAM_VALUE_def
      MAX_NOISE_AMPLITUDE_def)

lemma edge_gradients_logged:
  "\<exists>G log. compute_gradients_with demo_optimizer edge_params 0 logging_loss [] = (Inr G, log)
     \<and> edge_params\<lparr>amplitude := [1 / 10 ^ 10 - 1 / 10 ^ 5]\<rparr> \<in> set log"
  by (simp add: compute_gradients_with_def edge_params_def fd_array_def finite_difference_def
      perturb_param_def copy_params_def TradingParameters_def post_init_def array_of_def
      set_array_def MIN_PARAM_VALUE_def MAX_NOISE_AMPLITUDE_def fd_h_def bindC_apply
      logging_loss_def liftE_def phase_gradient_def decay_rate_gradient_def nth_err_def
      fd_scalar_def perturb_scalar_param_def scalar_of_def set_scalar_def Let_def)

text \<open>
  Claim C9. For every valid parameter set the perturbation helpers return without
  raising, whatever the delta: the copy is validated with the old values and the delta is
  added afterwards, so the result is the parameter set with the one entry (or scalar)
  changed, valid or not. Consequently \<^verbatim>\<open>compute_gradients\<close> can evaluate the loss at
  a parameter set that violates the construction invariants and still return its
  gradients: it does so at a valid parameter set whose amplitude is the minimum 1e-10,
  where the lower finite-difference point has a negative amplitude.
\<close>

theorem perturb_after_validation:
  "(\<forall>p name xs i delta.
       valid_params p \<longrightarrow> array_of name p = Some xs \<longrightarrow> i < length xs \<longrightarrow>
       perturb_param p name i delta = Inr (set_array name (xs[i := xs ! i + delta]) p))
   \<and> (\<forall>p name x delta.
       valid_params p \<longrightarrow> scalar_of name p = Some x \<longrightarrow>
       perturb_scalar_param p name delta = Inr (set_scalar name (x + delta) p))
   \<and> (\<exists>p q. valid_params p \<and> perturb_param p F_amplitude 0 (- fd_h) = Inr q
          \<and> \<not> valid_params q)
   \<and> (\<exists>p opt G log q. valid_params p
          \<and> compute_gradients_with opt p 0 logging_loss [] = (Inr G, log)
          \<and> q \<in> set log \<and> \<not> valid_params q)"
proof (intro conjI allI impI)
  fix p name xs i delta
  assume "valid_params p" "array_of name p = Some xs" "i < length xs"
  then show "perturb_param p name i delta = Inr (set_array name (xs[i := xs ! i + delta]) p)"
    by (rule perturb_param_valid)
next
  fix p name x delta
  assume "valid_params p" "scalar_of name p = Some x"
  then show "perturb_scalar_param p name delta = Inr (set_scalar name (x + delta) p)"
    by (rule perturb_scalar_param_valid)
next
  have "perturb_param edge_params F_amplitude 0 (- fd_h)
          = Inr (edge_params\<lparr>amplitude := [1 / 10 ^ 10 - 1 / 10 ^ 5]\<rparr>)"
    using perturb_param_valid [OF edge_valid, of F_amplitude "[1 / 10 ^ 10]" 0 "- fd_h"]
    by (simp add: array_of_def set_array_def fd_h_def edge_params_def)
  with edge_valid edge_minus_invalid
  show "\<exists>p q. valid_params p \<and> perturb_param p F_amplitude 0 (- fd_h) = Inr q
          \<and> \<not> valid_params q"
    by blast
next
  from edge_gradients_logged edge_valid edge_minus_invalid
  show "\<exists>p opt G log q. valid_params p
          \<and> compute_gradients_with opt p 0 logging_loss [] = (Inr G, log)
          \<and> q \<in> set log \<and> \<not> valid_params q"
    by blast
qed

theorem perturb_after_validation_witness:
  "perturb_param edge_params F_amplitude 0 (- 1)
     = Inr (edge_params\<lparr>amplitude := [1 / 10 ^ 10 - 1]\<rparr>)
   \<and> perturb_scalar_param edge_params F_sigma 5 = Inr (edge_params\<lparr>sigma := 5\<rparr>)
   \<and> post_init (edge_params\<lparr>sigma := 5\<rparr>) = Inl (AssertionError ''noise amplitude too large'')"
proof -
  have a: "array_of F_amplitude edge_params = Some [1 / 10 ^ 10]"
    by (simp add: array_of_def edge_params_def)
  have s: "scalar_of F_sigma edge_params = Some 0"
    by (simp add: scalar_of_def edge_params_def)
  from perturb_after_validation edge_valid a
  have "perturb_param edge_params F_amplitude 0 (- 1)
          = Inr (set_array F_amplitude ([1 / 10 ^ 10][0 := [1 / 10 ^ 10] ! 0 + (- 1)]) edge_params)"
    by (metis length_Cons less_Suc0 list.size(3))
  then have 1: "perturb_param edge_params F_amplitude 0 (- 1)
     = Inr (edge_params\<lparr>amplitude := [1 / 10 ^ 10 - 1]\<rparr>)"
    by (simp add: set_array_def)
  from perturb_after_validation edge_valid s
  have "perturb_scalar_param edge_params F_sigma 5 = Inr (set_scalar F_sigma (0 + 5) edge_params)"
    by blast
  then have 2: "perturb_scalar_param edge_params F_sigma 5 = Inr (edge_params\<lparr>sigma := 5\<rparr>)"
    by (simp add: set_scalar_def)
  have 3: "post_init (edge_params\<lparr>sigma := 5\<rparr>) = Inl (AssertionError ''noise amplitude too large'')"
    by (simp add: post_init_def edge_params_def MIN_PARAM_VALUE_def MAX_NOISE_AMPLITUDE_def)
  from 1 2 3 show ?thesis by blast
qed

section \<open>The cache is transparent\<close>

lemma cache_step_refl: "cache_ok e \<Longrightarrow> cache_step e e"
  by (simp add: cache_step_def)

lemma cache_step_trans: "cache_step e e1 \<Longrightarrow> cache_step e1 e2 \<Longrightarrow> cache_step e e2"
  by (simp add: cache_step_def)

lemma cache_step_ok: "cache_step e e' \<Longrightarrow> cache_ok e'"
  by (simp add: cache_step_def)

lemma cache_step_construct:
  assumes "cache_step e e'"
  shows "construct_pauli_x e' = construct_pauli_x e" "construct_pauli_z e' = construct_pauli_z e"
  using assms
  by (simp_all add: cache_step_def fun_eq_iff construct_pauli_x_def construct_pauli_z_def
      tensor_product_operator_def)

lemma cache_step_pure:
  assumes "cache_step e e'"
  shows "construct_pauli_x e' = construct_pauli_x e"
    "construct_pauli_z e' = construct_pauli_z e"
    "hilbert_dim e' = hilbert_dim e"
    "n_qubits e' = n_qubits e"
    "trading_operator e' = trading_operator e"
    "pauli_x_sum e' = pauli_x_sum e"
    "pauli_z_sum e' = pauli_z_sum e"
    "regime_operator e' = regime_operator e"
    "get_previous_state_norm e' = get_previous_state_norm e"
proof -
  have n: "n_qubits e' = n_qubits e" and h: "state_history e' = state_history e"
    using assms by (simp_all add: cache_step_def)
  note c = cache_step_construct [OF assms]
  show "construct_pauli_x e' = construct_pauli_x e" "construct_pauli_z e' = construct_pauli_z e"
    by (rule c)+
  show "hilbert_dim e' = hilbert_dim e" by (simp add: hilbert_dim_def n)
  show "n_qubits e' = n_qubits e" by (rule n)
  show "trading_operator e' = trading_operator e"
    by (simp add: trading_operator_def fun_eq_iff c n)
  show "pauli_x_sum e' = pauli_x_sum e" by (simp add: pauli_x_sum_def hilbert_dim_def c n)
  show "pauli_z_sum e' = pauli_z_sum e" by (simp add: pauli_z_sum_def hilbert_dim_def c n)
  show "regime_operator e' = regime_operator e"
    by (simp add: regime_operator_def hilbert_dim_def c n)
  show "get_previous_state_norm e' = get_previous_state_norm e"
    by (simp add: get_previous_state_norm_def h)
qed

lemma get_pauli_x_run:
  assumes "cache_ok e"
  shows "\<exists>e'. get_pauli_x q e = (construct_pauli_x e q, e') \<and> cache_step e e'"
proof (cases "pauli_cache e (q, PauliX)")
  case None
  let ?e' = "e\<lparr>pauli_cache := (pauli_cache e)((q, PauliX) \<mapsto> construct_pauli_x e q)\<rparr>"
  have "cache_step e ?e'"
    using assms
    by (auto simp: cache_step_def cache_ok_def construct_pauli_x_def construct_pauli_z_def
        tensor_product_operator_def)
  with None show ?thesis by (simp add: get_pauli_x_def Let_def)
next
  case (Some M)
  with assms have "M = construct_pauli_x e q" by (simp add: cache_ok_def)
  with Some assms show ?thesis by (simp add: get_pauli_x_def cache_step_refl)
qed

lemma get_pauli_z_run:
  assumes "cache_ok e"
  shows "\<exists>e'. get_pauli_z q e = (construct_pauli_z e q, e') \<and> cache_step e e'"
proof (cases "pauli_cache e (q, PauliZ)")
  case None
  let ?e' = "e\<lparr>pauli_cache := (pauli_cache e)((q, PauliZ) \<mapsto> construct_pauli_z e q)\<rparr>"
  have "cache_step e ?e'"
    using assms
    by (auto simp: cache_step_def cache_ok_def construct_pauli_x_def construct_pauli_z_def
        tensor_product_operator_def)
  with None show ?thesis by (simp add: get_pauli_z_def Let_def)
next
  case (Some M)
  with assms have "M = construct_pauli_z e q" by (simp add: cache_ok_def)
  with Some assms show ?thesis by (simp add: get_pauli_z_def cache_step_refl)
qed

lemma get_trading_operator_run:
  assumes "cache_ok e"
  shows "\<exists>e'. get_trading_operator i e = (trading_operator e i, e') \<and> cache_step e e'"
  using get_pauli_x_run [OF assms] get_pauli_z_run [OF assms]
  by (simp add: get_trading_operator_def trading_operator_def Let_def)

lemma get_each_x_run:
  "cache_ok e \<Longrightarrow> \<exists>e'. get_each get_pauli_x qs e = (map (construct_pauli_x e) qs, e') \<and> cache_step e e'"
proof (induction qs arbitrary: e)
  case Nil
  then show ?case by (simp add: cache_step_refl)
next
  case (Cons q qs)
  from get_pauli_x_run [OF Cons.prems, of q] obtain e1
    where 1: "get_pauli_x q e = (construct_pauli_x e q, e1)" and s1: "cache_step e e1" by blast
  from Cons.IH [OF cache_step_ok [OF s1]] obtain e2
    where 2: "get_each get_pauli_x qs e1 = (map (construct_pauli_x e1) qs, e2)"
      and s2: "cache_step e1 e2" by blast
  from 1 2 cache_step_pure(1) [OF s1] cache_step_trans [OF s1 s2]
  show ?case by simp
qed

lemma get_each_z_run:
  "cache_ok e \<Longrightarrow> \<exists>e'. get_each get_pauli_z qs e = (map (construct_pauli_z e) qs, e') \<and> cache_step e e'"
proof (induction qs arbitrary: e)
  case Nil
  then show ?case by (simp add: cache_step_refl)
next
  case (Cons q qs)
  from get_pauli_z_run [OF Cons.prems, of q] obtain e1
    where 1: "get_pauli_z q e = (construct_pauli_z e q, e1)" and s1: "cache_step e e1" by blast
  from Cons.IH [OF cache_step_ok [OF s1]] obtain e2
    where 2: "get_each get_pauli_z qs e1 = (map (construct_pauli_z e1) qs, e2)"
      and s2: "cache_step e1 e2" by blast
  from 1 2 cache_step_pure(2) [OF s1] cache_step_trans [OF s1 s2]
  show ?case by simp
qed

lemma get_integral_operator_run:
  assumes "cache_ok e"
  shows "\<exists>e'. get_integral_operator e = (pauli_x_sum e, e') \<and> cache_step e e'"
  using get_each_x_run [OF assms, of "[0..<n_qubits e]"]
  by (auto simp: get_integral_operator_def pauli_x_sum_def)

lemma get_time_operator_run:
  assumes "cache_ok e"
  shows "\<exists>e'. get_time_operator e = (pauli_z_sum e, e') \<and> cache_step e e'"
  using get_each_z_run [OF assms, of "[0..<n_qubits e]"]
  by (auto simp: get_time_operator_def pauli_z_sum_def)

lemma regime_loop_run:
  "cache_ok e \<Longrightarrow> \<exists>e'. regime_loop qs op e =
      (foldl (\<lambda>op i. madd op (matmul (construct_pauli_x e i) (construct_pauli_x e (i + 1)))) op qs, e')
      \<and> cache_step e e'"
proof (induction qs arbitrary: e op)
  case Nil
  then show ?case by (simp add: cache_step_refl)
next
  case (Cons q qs)
  from get_pauli_x_run [OF Cons.prems, of q] obtain e1
    where 1: "get_pauli_x q e = (construct_pauli_x e q, e1)" and s1: "cache_step e e1" by blast
  from get_pauli_x_run [OF cache_step_ok [OF s1], of "q + 1"] obtain e2
    where 2: "get_pauli_x (q + 1) e1 = (construct_pauli_x e1 (q + 1), e2)"
      and s2: "cache_step e1 e2" by blast
  have s12: "cache_step e e2" by (rule cache_step_trans [OF s1 s2])
  from Cons.IH [OF cache_step_ok [OF s12]] obtain e3
    where 3: "regime_loop qs (madd op (matmul (construct_pauli_x e q) (construct_pauli_x e (q + 1)))) e2 =
      (foldl (\<lambda>op i. madd op (matmul (construct_pauli_x e2 i) (construct_pauli_x e2 (i + 1))))
         (madd op (matmul (construct_pauli_x e q) (construct_pauli_x e (q + 1)))) qs, e3)"
      and s3: "cache_step e2 e3" by blast
  from 1 2 3 cache_step_pure(1) [OF s1] cache_step_pure(1) [OF s12] cache_step_trans [OF s12 s3]
  show ?case by simp
qed

lemma get_regime_operator_run:
  assumes "cache_ok e"
  shows "\<exists>e'. get_regime_operator e = (regime_operator e, e') \<and> cache_step e e'"
  using regime_loop_run [OF assms]
  by (simp add: get_regime_operator_def regime_operator_def)

section \<open>The operator is the assembled formula\<close>

lemma channel_terms_run:
  assumes "cache_ok e"
    and "\<forall>i\<in>set idx. i < length (amplitude p) \<and> i < length (frequency p) \<and> i < length (phase p)
           \<and> i < length (decay p) \<and> i < length (decay_rate p)"
  shows "\<exists>e'. channel_terms t p idx H (e, r) = (Inr (channel_sum t p e idx H), (e', r))
           \<and> cache_step e e'"
  using assms
proof (induction idx arbitrary: e H)
  case Nil
  then show ?case by (simp add: channel_sum_def cache_step_refl)
next
  case (Cons i idx)
  from get_trading_operator_run [OF Cons.prems(1), of i] obtain e1
    where 1: "get_trading_operator i e = (trading_operator e i, e1)" and s1: "cache_step e e1"
    by blast
  let ?H = "madd H (smult (complex_of_real (channel_signal t p i)) (trading_operator e i))"
  from Cons.IH [OF cache_step_ok [OF s1], of ?H] Cons.prems(2) obtain e2
    where 2: "channel_terms t p idx ?H (e1, r) = (Inr (channel_sum t p e1 idx ?H), (e2, r))"
      and s2: "cache_step e1 e2" by auto
  have cs: "channel_sum t p e1 idx ?H = channel_sum t p e (i # idx) H"
    by (simp add: channel_sum_def cache_step_pure(5) [OF s1])
  from Cons.prems(2) have inr: "nth_err (amplitude p) i = Inr (amplitude p ! i)"
    "nth_err (frequency p) i = Inr (frequency p ! i)"
    "nth_err (phase p) i = Inr (phase p ! i)"
    "nth_err (decay p) i = Inr (decay p ! i)"
    "nth_err (decay_rate p) i = Inr (decay_rate p ! i)"
    by (simp_all add: nth_err_def)
  have "channel_terms t p (i # idx) H (e, r) = channel_terms t p idx ?H (e1, r)"
    by (simp add: inr Let_def bindC_apply on_engine_def 1 channel_signal_def)
  with 2 cs cache_step_trans [OF s1 s2] show ?case by simp
qed

lemma softplus_term_run:
  assumes "cache_ok e"
  shows "\<exists>e'. softplus_term env t p H (e, r)
           = (Inr (madd H (smult (complex_of_real (integral_value env t p)) (pauli_x_sum e))), (e', r))
         \<and> cache_step e e'"
proof -
  from get_integral_operator_run [OF assms] obtain e1
    where 1: "get_integral_operator e = (pauli_x_sum e, e1)" and s1: "cache_step e e1" by blast
  show ?thesis
    using s1
    by (cases "compute_softplus_integral env t p")
      (auto simp: softplus_term_def integral_value_def bindC_apply on_engine_def 1 Let_def)
qed

lemma alpha_term_run:
  assumes "cache_ok e"
  shows "\<exists>e'. alpha_term t p H (e, r)
           = (Inr (madd H (smult (complex_of_real (alpha_value t p)) (pauli_z_sum e))), (e', r))
         \<and> cache_step e e'"
proof -
  from get_time_operator_run [OF assms] obtain e1
    where 1: "get_time_operator e = (pauli_z_sum e, e1)" and s1: "cache_step e e1" by blast
  show ?thesis
    using s1
    by (auto simp: alpha_term_def alpha_value_def bindC_apply on_engine_def 1 Let_def)
qed

lemma regime_term_run:
  assumes "cache_ok e"
  shows "\<exists>e'. regime_term t p H (e, r)
           = (Inr (if t \<ge> tau p
                   then madd H (smult (complex_of_real (regime_value p)) (regime_operator e))
                   else H), (e', r))
         \<and> cache_step e e'"
proof -
  from get_regime_operator_run [OF assms] obtain e1
    where 1: "get_regime_operator e = (regime_operator e, e1)" and s1: "cache_step e e1" by blast
  show ?thesis
    using s1 cache_step_refl [OF assms]
    by (auto simp: regime_term_def regime_value_def bindC_apply on_engine_def 1 Let_def)
qed

lemma noise_term_run:
  assumes "cache_ok e"
  shows "\<exists>e'. cache_step e e' \<and> noise_term env t p H (e, r) =
           (if noise_scaling p e < 0 then (Inl (ValueError ''scale < 0''), (e', r))
            else (Inr (madd H (smult (complex_of_real (noise_value env p e r))
                                  (construct_pauli_z e (noise_qubit env e r)))),
                  (e', snd (rawint env (snd (gauss env r))))))"
proof (cases "noise_scaling p e < 0")
  case True
  then show ?thesis
    using cache_step_refl [OF assms]
    by (auto simp: noise_term_def noise_scaling_def random_normal_def bindC_apply Let_def)
next
  case False
  from assms have n: "0 < n_qubits e" by (simp add: cache_ok_def)
  from get_pauli_z_run [OF assms, of "noise_qubit env e r"] obtain e1
    where 1: "get_pauli_z (noise_qubit env e r) e = (construct_pauli_z e (noise_qubit env e r), e1)"
      and s1: "cache_step e e1" by blast
  have "noise_term env t p H (e, r) =
     (Inr (madd H (smult (complex_of_real (noise_value env p e r))
                                  (construct_pauli_z e (noise_qubit env e r)))),
                  (e1, snd (rawint env (snd (gauss env r)))))"
    using False n 1
    by (simp add: noise_term_def noise_scaling_def noise_value_def noise_qubit_def
        random_normal_def random_randint_def get_noise_operator_def bindC_apply Let_def
        split_def on_engine_def)
  with False s1 show ?thesis by auto
qed


lemma valid_params_lengths:
  assumes "valid_params p"
  shows "n_pairs p > 0" "length (amplitude p) = nat (n_pairs p)"
    "length (frequency p) = nat (n_pairs p)" "length (phase p) = nat (n_pairs p)"
    "length (decay p) = nat (n_pairs p)" "length (decay_rate p) = nat (n_pairs p)"
    "list_all (\<lambda>x. x \<ge> MIN_PARAM_VALUE) (amplitude p)"
    "list_all (\<lambda>x. x \<ge> MIN_PARAM_VALUE) (frequency p)"
    "list_all (\<lambda>x. x \<ge> MIN_PARAM_VALUE) (decay_rate p)"
    "\<bar>sigma p\<bar> \<le> MAX_NOISE_AMPLITUDE"
  using assms by (auto simp: valid_params_def post_init_def split: if_splits)

lemma valid_params_iff:
  "valid_params p \<longleftrightarrow>
     n_pairs p > 0 \<and> int (length (amplitude p)) = n_pairs p
     \<and> int (length (frequency p)) = n_pairs p \<and> int (length (phase p)) = n_pairs p
     \<and> int (length (decay p)) = n_pairs p \<and> int (length (decay_rate p)) = n_pairs p
     \<and> list_all (\<lambda>x. x \<ge> MIN_PARAM_VALUE) (amplitude p)
     \<and> list_all (\<lambda>x. x \<ge> MIN_PARAM_VALUE) (frequency p)
     \<and> list_all (\<lambda>x. x \<ge> MIN_PARAM_VALUE) (decay_rate p)
     \<and> \<bar>sigma p\<bar> \<le> MAX_NOISE_AMPLITUDE"
  by (auto simp: valid_params_def post_init_def split: if_splits)

lemma noise_pure:
  assumes "cache_step e e'"
  shows "noise_scaling p e' = noise_scaling p e" "noise_value env p e' r = noise_value env p e r"
    "noise_qubit env e' r = noise_qubit env e r"
  using cache_step_pure [OF assms]
  by (simp_all add: noise_scaling_def noise_value_def noise_qubit_def)

lemma hamiltonian_operator_run:
  assumes ok: "cache_ok e" and v: "valid_params p"
  shows "\<exists>e'. cache_step e e' \<and> hamiltonian_operator env t p (e, r) =
     (if noise_scaling p e < 0 then (Inl (ValueError ''scale < 0''), (e', r))
      else (case validate_hamiltonian (assembled env t p e r) t of
              Inl err \<Rightarrow> Inl err
            | Inr u \<Rightarrow> Inr (assembled env t p e r),
            (e', snd (rawint env (snd (gauss env r))))))"
proof -
  let ?Z = "zeros (hilbert_dim e) (hilbert_dim e)"
  let ?H1 = "channel_sum t p e [0..<nat (n_pairs p)] ?Z"
  let ?H2 = "madd ?H1 (smult (complex_of_real (integral_value env t p)) (pauli_x_sum e))"
  let ?H3 = "madd ?H2 (smult (complex_of_real (alpha_value t p)) (pauli_z_sum e))"
  let ?H4 = "if t \<ge> tau p
             then madd ?H3 (smult (complex_of_real (regime_value p)) (regime_operator e))
             else ?H3"
  let ?H5 = "madd ?H4 (smult (complex_of_real (noise_value env p e r))
                          (construct_pauli_z e (noise_qubit env e r)))"
  have a: "assembled env t p e r = ?H5"
    by (simp add: assembled_def Let_def)
  have cover: "\<forall>i\<in>set [0..<nat (n_pairs p)]. i < length (amplitude p) \<and> i < length (frequency p)
      \<and> i < length (phase p) \<and> i < length (decay p) \<and> i < length (decay_rate p)"
    using valid_params_lengths [OF v] by simp
  from channel_terms_run [OF ok cover, where t = t and H = ?Z and r = r] obtain e1
    where 1: "channel_terms t p [0..<nat (n_pairs p)] ?Z (e, r) = (Inr ?H1, (e1, r))"
      and s1: "cache_step e e1" by blast
  from softplus_term_run [OF cache_step_ok [OF s1], where env = env and t = t and p = p and H = ?H1 and r = r] obtain e2
    where 2: "softplus_term env t p ?H1 (e1, r) = (Inr ?H2, (e2, r))" and s2: "cache_step e1 e2"
    unfolding cache_step_pure [OF s1] by blast
  have s02: "cache_step e e2" by (rule cache_step_trans [OF s1 s2])
  from alpha_term_run [OF cache_step_ok [OF s02], where t = t and p = p and H = ?H2 and r = r] obtain e3
    where 3: "alpha_term t p ?H2 (e2, r) = (Inr ?H3, (e3, r))" and s3: "cache_step e2 e3"
    unfolding cache_step_pure [OF s02] by blast
  have s03: "cache_step e e3" by (rule cache_step_trans [OF s02 s3])
  from regime_term_run [OF cache_step_ok [OF s03], where t = t and p = p and H = ?H3 and r = r] obtain e4
    where 4: "regime_term t p ?H3 (e3, r) = (Inr ?H4, (e4, r))" and s4: "cache_step e3 e4"
    unfolding cache_step_pure [OF s03] by blast
  have s04: "cache_step e e4" by (rule cache_step_trans [OF s03 s4])
  from noise_term_run [OF cache_step_ok [OF s04], where env = env and t = t and p = p and H = ?H4 and r = r] obtain e5
    where s5: "cache_step e4 e5" and 5: "noise_term env t p ?H4 (e4, r) =
           (if noise_scaling p e < 0 then (Inl (ValueError ''scale < 0''), (e5, r))
            else (Inr ?H5, (e5, snd (rawint env (snd (gauss env r))))))"
    unfolding cache_step_pure [OF s04] noise_pure [OF s04] by blast
  have s05: "cache_step e e5" by (rule cache_step_trans [OF s04 s5])
  have "hamiltonian_operator env t p (e, r) =
     (if noise_scaling p e < 0 then (Inl (ValueError ''scale < 0''), (e5, r))
      else (case validate_hamiltonian ?H5 t of
              Inl err \<Rightarrow> Inl err
            | Inr u \<Rightarrow> Inr ?H5,
            (e5, snd (rawint env (snd (gauss env r))))))"
    unfolding hamiltonian_operator_def
    by (simp add: bindC_apply 1 2 3 4 5 liftE_def split: sum.splits)
  with s05 show ?thesis unfolding a by blast
qed

section \<open>Runs on sample engines\<close>

lemma hamiltonian_operator_split:
  "hamiltonian_operator env t p w =
     (case assemble_terms env t p w of
        (Inl err, w') \<Rightarrow> (Inl err, w')
      | (Inr H, w') \<Rightarrow>
          (case validate_hamiltonian H t of
             Inl err \<Rightarrow> (Inl err, w')
           | Inr u \<Rightarrow> (Inr H, w')))"
  by (cases w)
    (simp add: hamiltonian_operator_def assemble_terms_def bindC_apply liftE_def
      split: prod.splits sum.splits)

lemma z1: "construct_pauli_z skewed_engine 0 = [[1, 0], [0, - 1]]"
  by code_simp

lemma z1': "tensor_product_operator skewed_engine sigma_z 0 = [[1, 0], [0, - 1]]"
  using z1 by (simp add: construct_pauli_z_def)


lemma tpo_cong:
  "n_qubits e = n_qubits e' \<Longrightarrow> tensor_product_operator e op q = tensor_product_operator e' op q"
  by (simp add: tensor_product_operator_def)

lemma z_one: "n_qubits e = Suc 0 \<Longrightarrow> tensor_product_operator e sigma_z 0 = [[1, 0], [0, - 1]]"
  using tpo_cong [of e skewed_engine sigma_z 0] z1' by (simp add: skewed_engine_def)

lemma upt_small: "[0..<Suc 0] = [0]" "[0..<1] = [0]" "[0..<2] = [0, 1]"
  by (simp_all add: upt_rec)


lemma x_one: "n_qubits e = Suc 0 \<Longrightarrow> tensor_product_operator e sigma_x 0 = [[0, 1], [1, 0]]"
proof -
  have "tensor_product_operator skewed_engine sigma_x 0 = [[0, 1], [1, 0]]" by code_simp
  then show "n_qubits e = Suc 0 \<Longrightarrow> tensor_product_operator e sigma_x 0 = [[0, 1], [1, 0]]"
    using tpo_cong [of e skewed_engine sigma_x 0] by (simp add: skewed_engine_def)
qed

lemmas run_defs =
  hamiltonian_operator_def bindC_apply nth_err_def liftE_def
  on_engine_def get_trading_operator_def get_pauli_x_def hilbert_dim_def
  zeros_def mk_mat_def upt_small madd_def smult_def softplus_term_def
  compute_softplus_integral_def get_integral_operator_def sum_mats_def
  alpha_term_def get_time_operator_def get_pauli_z_def construct_pauli_z_def
  construct_pauli_x_def z_one x_one regime_term_def sigmoid_def get_regime_operator_def
  noise_term_def get_previous_state_norm_def random_normal_def get_noise_operator_def
  random_randint_def validate_hamiltonian_def allclose_def dagger_def nrows_def ncols_def
  frobenius_def QUANTUM_PRECISION_TOLERANCE_def MAX_HAMILTONIAN_NORM_def Let_def

lemma skewed_run:
  "hamiltonian_operator demo_env 0 decay_params (skewed_engine, ())
     = (Inr [[0, 1], [0, 0]],
        (skewed_engine\<lparr>pauli_cache := (pauli_cache skewed_engine)((0, PauliZ) \<mapsto> [[1, 0], [0, - 1]])\<rparr>, ()))"
  apply (simp add: run_defs decay_params_def skewed_engine_def demo_env_def)
  apply (simp add: not_less)
  apply (rule real_le_lsqrt)
   apply (simp_all add: power2_eq_square)
  done

lemma demo_run:
  "hamiltonian_operator demo_env 0 decay_params (demo_engine, ())
     = (Inr [[0, 1], [1, 0]],
        (demo_engine\<lparr>pauli_cache := [(0, PauliX) \<mapsto> [[0, 1], [1, 0]], (0, PauliZ) \<mapsto> [[1, 0], [0, - 1]]]\<rparr>, ()))"
  apply (simp add: run_defs decay_params_def demo_engine_def demo_env_def)
  apply (simp add: not_less)
  apply (rule real_le_lsqrt)
   apply (simp_all add: power2_eq_square)
  done

lemma skewed_not_hermitian:
  "\<not> allclose [[0, 1], [0, 0]] (dagger [[0, 1], [0, 0]]) QUANTUM_PRECISION_TOLERANCE"
  by (simp add: allclose_def dagger_def mk_mat_def nrows_def ncols_def upt_small
      QUANTUM_PRECISION_TOLERANCE_def)

section \<open>Matrices: shapes and entries\<close>

lemma mk_mat_is_mat [simp]: "is_mat r c (mk_mat r c f)"
  by (auto simp: is_mat_def mk_mat_def)

lemma mk_mat_nth [simp]: "i < r \<Longrightarrow> j < c \<Longrightarrow> mk_mat r c f ! i ! j = f i j"
  by (simp add: mk_mat_def)

lemma is_mat_length: "is_mat r c M \<Longrightarrow> length M = r"
  by (simp add: is_mat_def)

lemma is_mat_row: "is_mat r c M \<Longrightarrow> i < r \<Longrightarrow> length (M ! i) = c"
  by (simp add: is_mat_def)

lemma is_mat_nrows: "is_mat r c M \<Longrightarrow> nrows M = r"
  by (simp add: is_mat_def nrows_def)

lemma is_mat_ncols: "is_mat r c M \<Longrightarrow> 0 < r \<Longrightarrow> ncols M = c"
  by (cases M) (auto simp: is_mat_def ncols_def)

lemma mat_eqI:
  assumes "is_mat r c A" "is_mat r c B" "\<And>i j. i < r \<Longrightarrow> j < c \<Longrightarrow> A ! i ! j = B ! i ! j"
  shows "A = B"
proof (rule nth_equalityI)
  show "length A = length B" using assms(1,2) by (simp add: is_mat_def)
next
  fix i assume i: "i < length A"
  then have ir: "i < r" using assms(1) by (simp add: is_mat_def)
  show "A ! i = B ! i"
  proof (rule nth_equalityI)
    show "length (A ! i) = length (B ! i)"
      using is_mat_row [OF assms(1) ir] is_mat_row [OF assms(2) ir] by simp
  next
    fix j assume "j < length (A ! i)"
    then have "j < c" using is_mat_row [OF assms(1) ir] by simp
    then show "A ! i ! j = B ! i ! j" using assms(3) ir by simp
  qed
qed

lemma mk_mat_cong:
  "(\<And>i j. i < r \<Longrightarrow> j < c \<Longrightarrow> f i j = g i j) \<Longrightarrow> mk_mat r c f = mk_mat r c g"
  by (simp add: mk_mat_def)

lemma zeros_is_mat [simp]: "is_mat r c (zeros r c)"
  by (simp add: zeros_def)

lemma zeros_nth [simp]: "i < r \<Longrightarrow> j < c \<Longrightarrow> zeros r c ! i ! j = 0"
  by (simp add: zeros_def)

lemma eye_is_mat [simp]: "is_mat n n (eye n)"
  by (simp add: eye_def)

lemma eye_nth [simp]: "i < n \<Longrightarrow> j < n \<Longrightarrow> eye n ! i ! j = (if i = j then 1 else 0)"
  by (simp add: eye_def)

lemma smult_is_mat: "is_mat r c M \<Longrightarrow> is_mat r c (smult a M)"
  by (auto simp: is_mat_def smult_def)

lemma smult_nth: "is_mat r c M \<Longrightarrow> i < r \<Longrightarrow> j < c \<Longrightarrow> smult a M ! i ! j = a * M ! i ! j"
  by (simp add: is_mat_def smult_def)

lemma madd_is_mat: "is_mat r c A \<Longrightarrow> is_mat r c B \<Longrightarrow> is_mat r c (madd A B)"
  by (auto simp: is_mat_def madd_def set_zip)

lemma madd_nth:
  "is_mat r c A \<Longrightarrow> is_mat r c B \<Longrightarrow> i < r \<Longrightarrow> j < c \<Longrightarrow> madd A B ! i ! j = A ! i ! j + B ! i ! j"
  by (simp add: is_mat_def madd_def)

lemma kron_is_mat:
  assumes "is_mat ra ca A" "is_mat rb cb B" "0 < ra" "0 < rb"
  shows "is_mat (ra * rb) (ca * cb) (kron A B)"
  using assms by (simp add: kron_def is_mat_nrows is_mat_ncols)

lemma kron_nth:
  assumes "is_mat ra ca A" "is_mat rb cb B" "0 < ra" "0 < rb" "i < ra * rb" "j < ca * cb"
  shows "kron A B ! i ! j = A ! (i div rb) ! (j div cb) * B ! (i mod rb) ! (j mod cb)"
  using assms by (simp add: kron_def is_mat_nrows is_mat_ncols)

lemma matmul_is_mat:
  assumes "is_mat r k A" "is_mat k c B" "0 < k"
  shows "is_mat r c (matmul A B)"
  using assms by (simp add: matmul_def is_mat_nrows is_mat_ncols)

lemma matmul_nth:
  assumes "is_mat r k A" "is_mat k c B" "0 < k" "0 < r" "i < r" "j < c"
  shows "matmul A B ! i ! j = (\<Sum>l<k. A ! i ! l * B ! l ! j)"
  using assms by (simp add: matmul_def is_mat_nrows is_mat_ncols)

lemma dagger_is_mat: "is_mat r c M \<Longrightarrow> 0 < r \<Longrightarrow> is_mat c r (dagger M)"
  by (simp add: dagger_def is_mat_nrows is_mat_ncols)

lemma dagger_nth:
  "is_mat r c M \<Longrightarrow> 0 < r \<Longrightarrow> i < c \<Longrightarrow> j < r \<Longrightarrow> dagger M ! i ! j = cnj (M ! j ! i)"
  by (simp add: dagger_def is_mat_nrows is_mat_ncols)

section \<open>Real symmetric operators\<close>

lemma real_sym_is_mat: "real_sym d M \<Longrightarrow> is_mat d d M"
  by (simp add: real_sym_def)

lemma real_sym_zeros [simp]: "real_sym d (zeros d d)"
  by (simp add: real_sym_def)

lemma real_sym_eye [simp]: "real_sym d (eye d)"
  by (simp add: real_sym_def)

lemma real_sym_sigma_x [simp]: "real_sym 2 sigma_x"
  by (auto simp: real_sym_def is_mat_def sigma_x_def less_Suc_eq numeral_2_eq_2)

lemma real_sym_sigma_z [simp]: "real_sym 2 sigma_z"
  by (auto simp: real_sym_def is_mat_def sigma_z_def less_Suc_eq numeral_2_eq_2)

lemma real_sym_smult: "real_sym d M \<Longrightarrow> real_sym d (smult (complex_of_real a) M)"
  by (auto simp: real_sym_def smult_is_mat smult_nth [of d d])

lemma real_sym_madd: "real_sym d A \<Longrightarrow> real_sym d B \<Longrightarrow> real_sym d (madd A B)"
  by (auto simp: real_sym_def madd_is_mat madd_nth [of d d])

lemma real_sym_kron:
  assumes A: "real_sym a A" and B: "real_sym b B" and pos: "0 < a" "0 < b"
  shows "real_sym (a * b) (kron A B)"
proof -
  have mA: "is_mat a a A" and mB: "is_mat b b B"
    using A B by (simp_all add: real_sym_def)
  have m: "is_mat (a * b) (a * b) (kron A B)"
    by (rule kron_is_mat [OF mA mB pos])
  have e: "Im (kron A B ! i ! j) = 0 \<and> kron A B ! i ! j = kron A B ! j ! i"
    if "i < a * b" "j < a * b" for i j
  proof -
    have d: "i div b < a" "j div b < a"
      using that by (simp_all add: less_mult_imp_div_less)
    have r: "i mod b < b" "j mod b < b" using pos by simp_all
    from A d have 1: "Im (A ! (i div b) ! (j div b)) = 0"
      "A ! (i div b) ! (j div b) = A ! (j div b) ! (i div b)"
      by (simp_all add: real_sym_def)
    from B r have 2: "Im (B ! (i mod b) ! (j mod b)) = 0"
      "B ! (i mod b) ! (j mod b) = B ! (j mod b) ! (i mod b)"
      by (simp_all add: real_sym_def)
    show ?thesis
      using 1 2 by (simp add: kron_nth [OF mA mB pos that] kron_nth [OF mA mB pos that(2,1)])
  qed
  from m e show ?thesis by (simp add: real_sym_def)
qed

lemma tensor_of_Suc: "tensor_of g (Suc n) = kron (tensor_of g n) (g n)"
  by (simp add: tensor_of_def)

lemma tensor_of_0: "tensor_of g 0 = eye 1"
  by (simp add: tensor_of_def)

lemma tensor_of_real_sym:
  "(\<forall>i<n. real_sym 2 (g i)) \<Longrightarrow> real_sym (2 ^ n) (tensor_of g n)"
proof (induction n)
  case 0
  show ?case using real_sym_eye [of 1] by (simp add: tensor_of_0)
next
  case (Suc n)
  then have "real_sym (2 ^ n) (tensor_of g n)" "real_sym 2 (g n)" by simp_all
  from real_sym_kron [OF this] show ?case by (simp add: tensor_of_Suc mult.commute)
qed

lemma tensor_of_is_mat:
  "(\<forall>i<n. is_mat 2 2 (g i)) \<Longrightarrow> is_mat (2 ^ n) (2 ^ n) (tensor_of g n)"
proof (induction n)
  case 0
  show ?case using eye_is_mat [of 1] by (simp add: tensor_of_0)
next
  case (Suc n)
  then have "is_mat (2 ^ n) (2 ^ n) (tensor_of g n)" "is_mat 2 2 (g n)" by simp_all
  from kron_is_mat [OF this] show ?case by (simp add: tensor_of_Suc mult.commute)
qed

lemma tensor_product_operator_tensor_of:
  "tensor_product_operator e op q = tensor_of (\<lambda>i. if i = q then op else eye 2) (n_qubits e)"
proof -
  have "(\<lambda>result i. if i = q then kron result op else kron result (eye 2))
      = (\<lambda>result i. kron result (if i = q then op else eye 2))"
    by (simp add: fun_eq_iff)
  then show ?thesis by (simp add: tensor_product_operator_def tensor_of_def)
qed

lemma construct_pauli_real_sym:
  "real_sym (hilbert_dim e) (construct_pauli_x e q)"
  "real_sym (hilbert_dim e) (construct_pauli_z e q)"
  by (simp_all add: construct_pauli_x_def construct_pauli_z_def hilbert_dim_def
      tensor_product_operator_tensor_of tensor_of_real_sym)

lemma sum_mats_real_sym:
  "(\<forall>M\<in>set Ms. real_sym d M) \<Longrightarrow> real_sym d (sum_mats d Ms)"
proof -
  have "real_sym d A \<Longrightarrow> (\<forall>M\<in>set Ms. real_sym d M) \<Longrightarrow> real_sym d (foldl madd A Ms)" for A
    by (induction Ms arbitrary: A) (simp_all add: real_sym_madd)
  then show "(\<forall>M\<in>set Ms. real_sym d M) \<Longrightarrow> real_sym d (sum_mats d Ms)"
    by (simp add: sum_mats_def)
qed

lemma pauli_sums_real_sym:
  "real_sym (hilbert_dim e) (pauli_x_sum e)" "real_sym (hilbert_dim e) (pauli_z_sum e)"
  by (simp_all add: pauli_x_sum_def pauli_z_sum_def sum_mats_real_sym construct_pauli_real_sym)

lemma trading_operator_real_sym: "real_sym (hilbert_dim e) (trading_operator e i)"
  by (simp add: trading_operator_def construct_pauli_real_sym)

lemma channel_sum_real_sym:
  "real_sym (hilbert_dim e) H \<Longrightarrow> real_sym (hilbert_dim e) (channel_sum t p e idx H)"
  unfolding channel_sum_def
  by (induction idx arbitrary: H)
    (simp_all add: real_sym_madd real_sym_smult trading_operator_real_sym)

section \<open>Products of tensor operators\<close>

lemma sum_div_mod:
  fixes f :: "nat \<Rightarrow> nat \<Rightarrow> complex"
  assumes "0 < k"
  shows "(\<Sum>l<m * k. f (l div k) (l mod k)) = (\<Sum>a<m. \<Sum>b<k. f a b)"
proof -
  have blk: "(\<Sum>l = a * k..<a * k + k. f (l div k) (l mod k)) = (\<Sum>b<k. f a b)" for a
  proof -
    have "(\<Sum>l = a * k..<a * k + k. f (l div k) (l mod k))
        = (\<Sum>l = 0 + a * k..<k + a * k. f (l div k) (l mod k))"
      by (simp add: add.commute)
    also have "\<dots> = (\<Sum>b = 0..<k. f ((b + a * k) div k) ((b + a * k) mod k))"
      by (rule sum.shift_bounds_nat_ivl)
    also have "\<dots> = (\<Sum>b = 0..<k. f a b)"
      using assms by (intro sum.cong) simp_all
    finally show ?thesis by (simp add: atLeast0LessThan)
  qed
  have "(\<Sum>l<m * k. f (l div k) (l mod k))
      = (\<Sum>a<m. \<Sum>l = a * k..<a * k + k. f (l div k) (l mod k))"
    by (rule sum.nat_group [symmetric])
  then show ?thesis by (simp add: blk)
qed

lemma kron_matmul:
  assumes A: "is_mat m m A" and C: "is_mat m m C" and B: "is_mat k k B" and D: "is_mat k k D"
    and pos: "0 < m" "0 < k"
  shows "matmul (kron A B) (kron C D) = kron (matmul A C) (matmul B D)"
proof (rule mat_eqI [where r = "m * k" and c = "m * k"])
  have kAB: "is_mat (m * k) (m * k) (kron A B)" by (rule kron_is_mat [OF A B pos])
  have kCD: "is_mat (m * k) (m * k) (kron C D)" by (rule kron_is_mat [OF C D pos])
  have mk: "0 < m * k" using pos by simp
  have mAC: "is_mat m m (matmul A C)" by (rule matmul_is_mat [OF A C pos(1)])
  have mBD: "is_mat k k (matmul B D)" by (rule matmul_is_mat [OF B D pos(2)])
  show "is_mat (m * k) (m * k) (matmul (kron A B) (kron C D))"
    by (rule matmul_is_mat [OF kAB kCD mk])
  show "is_mat (m * k) (m * k) (kron (matmul A C) (matmul B D))"
    by (rule kron_is_mat [OF mAC mBD pos])
  fix i j assume i: "i < m * k" and j: "j < m * k"
  have di: "i div k < m" and dj: "j div k < m"
    using i j by (simp_all add: less_mult_imp_div_less)
  have ri: "i mod k < k" and rj: "j mod k < k" using pos by simp_all
  have "matmul (kron A B) (kron C D) ! i ! j
      = (\<Sum>l<m * k. kron A B ! i ! l * kron C D ! l ! j)"
    by (rule matmul_nth [OF kAB kCD mk mk i j])
  also have "\<dots> = (\<Sum>l<m * k. (A ! (i div k) ! (l div k) * C ! (l div k) ! (j div k))
                            * (B ! (i mod k) ! (l mod k) * D ! (l mod k) ! (j mod k)))"
    by (rule sum.cong)
      (simp_all add: kron_nth [OF A B pos i] kron_nth [OF C D pos _ j] algebra_simps)
  also have "\<dots> = (\<Sum>a<m. \<Sum>b<k. (A ! (i div k) ! a * C ! a ! (j div k))
                            * (B ! (i mod k) ! b * D ! b ! (j mod k)))"
    by (rule sum_div_mod [OF pos(2)])
  also have "\<dots> = (\<Sum>a<m. A ! (i div k) ! a * C ! a ! (j div k))
                   * (\<Sum>b<k. B ! (i mod k) ! b * D ! b ! (j mod k))"
    by (simp add: sum_product)
  also have "\<dots> = matmul A C ! (i div k) ! (j div k) * matmul B D ! (i mod k) ! (j mod k)"
    by (simp add: matmul_nth [OF A C pos(1) pos(1) di dj] matmul_nth [OF B D pos(2) pos(2) ri rj])
  also have "\<dots> = kron (matmul A C) (matmul B D) ! i ! j"
    by (simp add: kron_nth [OF mAC mBD pos i j])
  finally show "matmul (kron A B) (kron C D) ! i ! j = kron (matmul A C) (matmul B D) ! i ! j" .
qed

lemma matmul_eye1: "matmul (eye 1) (eye 1) = eye 1"
  by code_simp

lemma tensor_of_matmul:
  "(\<forall>i<n. is_mat 2 2 (g i) \<and> is_mat 2 2 (h i)) \<Longrightarrow>
     matmul (tensor_of g n) (tensor_of h n) = tensor_of (\<lambda>i. matmul (g i) (h i)) n"
proof (induction n)
  case 0
  show ?case unfolding tensor_of_0 by (rule matmul_eye1)
next
  case (Suc n)
  then have g: "\<forall>i<n. is_mat 2 2 (g i)" and h: "\<forall>i<n. is_mat 2 2 (h i)"
    and gn: "is_mat 2 2 (g n)" and hn: "is_mat 2 2 (h n)" by simp_all
  have "matmul (kron (tensor_of g n) (g n)) (kron (tensor_of h n) (h n))
      = kron (matmul (tensor_of g n) (tensor_of h n)) (matmul (g n) (h n))"
    by (rule kron_matmul [OF tensor_of_is_mat [OF g] tensor_of_is_mat [OF h] gn hn]) simp_all
  with Suc show ?case by (simp add: tensor_of_Suc)
qed

lemma pauli_factor_products:
  "matmul sigma_x (eye 2) = sigma_x" "matmul (eye 2) sigma_x = sigma_x"
  "matmul (eye 2) (eye 2) = eye 2" "matmul sigma_x sigma_x = eye 2"
  by code_simp+

lemma pauli_x_product_real_sym:
  "real_sym (hilbert_dim e) (matmul (construct_pauli_x e a) (construct_pauli_x e b))"
proof -
  let ?g = "\<lambda>i. if i = a then sigma_x else eye 2"
  let ?h = "\<lambda>i. if i = b then sigma_x else eye 2"
  have m: "\<forall>i<n_qubits e. is_mat 2 2 (?g i) \<and> is_mat 2 2 (?h i)"
    using real_sym_is_mat [OF real_sym_sigma_x] by simp
  have f: "\<forall>i<n_qubits e. real_sym 2 (matmul (?g i) (?h i))"
    by (simp add: pauli_factor_products)
  show ?thesis
    unfolding construct_pauli_x_def tensor_product_operator_tensor_of hilbert_dim_def
      tensor_of_matmul [OF m]
    by (rule tensor_of_real_sym [OF f])
qed

lemma regime_operator_real_sym: "real_sym (hilbert_dim e) (regime_operator e)"
proof -
  have "real_sym (hilbert_dim e) A \<Longrightarrow>
     real_sym (hilbert_dim e)
       (foldl (\<lambda>op i. madd op (matmul (construct_pauli_x e i) (construct_pauli_x e (i + 1)))) A qs)"
    for A qs
    by (induction qs arbitrary: A) (simp_all add: real_sym_madd pauli_x_product_real_sym)
  then show ?thesis by (simp add: regime_operator_def)
qed

lemma assembled_real_sym: "real_sym (hilbert_dim e) (assembled env t p e r)"
  by (simp add: assembled_def Let_def real_sym_madd real_sym_smult channel_sum_real_sym
      pauli_sums_real_sym regime_operator_real_sym construct_pauli_real_sym)

section \<open>Validation of the assembled operator\<close>

lemma hilbert_dim_pos [simp]: "0 < hilbert_dim e"
  by (simp add: hilbert_dim_def)

lemma real_sym_dagger:
  assumes "real_sym d M" "0 < d"
  shows "dagger M = M"
proof (rule mat_eqI [where r = d and c = d])
  have m: "is_mat d d M" using assms(1) by (simp add: real_sym_def)
  show "is_mat d d (dagger M)" by (rule dagger_is_mat [OF m assms(2)])
  show "is_mat d d M" by (rule m)
  fix i j assume ij: "i < d" "j < d"
  with assms(1) have "Im (M ! j ! i) = 0" "M ! j ! i = M ! i ! j"
    by (simp_all add: real_sym_def)
  then have "cnj (M ! j ! i) = M ! i ! j"
    by (metis complex_cnj_complex_of_real complex_is_Real_iff Reals_cases)
  then show "dagger M ! i ! j = M ! i ! j"
    by (simp add: dagger_nth [OF m assms(2) ij])
qed

lemma allclose_refl: "0 \<le> atol \<Longrightarrow> allclose M M atol"
  by (simp add: allclose_def list_all2_same)


lemma validate_real_sym:
  assumes "real_sym d M" "0 < d"
  shows "validate_hamiltonian M t =
     (if frobenius M > MAX_HAMILTONIAN_NORM then Inl (ValueError ''Hamiltonian norm too large'')
      else Inr ())"
  by (simp add: validate_hamiltonian_def real_sym_dagger [OF assms] allclose_refl
      QUANTUM_PRECISION_TOLERANCE_def Let_def)

lemma hamiltonian_operator_outcome:
  assumes ok: "cache_ok e" and v: "valid_params p"
  shows "\<exists>e'. cache_step e e' \<and> hamiltonian_operator env t p (e, r) =
     (if noise_scaling p e < 0 then (Inl (ValueError ''scale < 0''), (e', r))
      else if frobenius (assembled env t p e r) > MAX_HAMILTONIAN_NORM
      then (Inl (ValueError ''Hamiltonian norm too large''),
            (e', snd (rawint env (snd (gauss env r)))))
      else (Inr (assembled env t p e r), (e', snd (rawint env (snd (gauss env r))))))"
proof -
  from hamiltonian_operator_run [OF ok v, of env t r] obtain e'
    where s: "cache_step e e'" and h: "hamiltonian_operator env t p (e, r) =
     (if noise_scaling p e < 0 then (Inl (ValueError ''scale < 0''), (e', r))
      else (case validate_hamiltonian (assembled env t p e r) t of
              Inl err \<Rightarrow> Inl err
            | Inr u \<Rightarrow> Inr (assembled env t p e r),
            (e', snd (rawint env (snd (gauss env r))))))"
    by blast
  have "hamiltonian_operator env t p (e, r) =
     (if noise_scaling p e < 0 then (Inl (ValueError ''scale < 0''), (e', r))
      else if frobenius (assembled env t p e r) > MAX_HAMILTONIAN_NORM
      then (Inl (ValueError ''Hamiltonian norm too large''),
            (e', snd (rawint env (snd (gauss env r)))))
      else (Inr (assembled env t p e r), (e', snd (rawint env (snd (gauss env r))))))"
    unfolding h validate_real_sym [OF assembled_real_sym hilbert_dim_pos] by simp
  with s show ?thesis by blast
qed

lemma smult_zero: "is_mat r c M \<Longrightarrow> smult 0 M = zeros r c"
  by (rule mat_eqI [where r = r and c = c]) (simp_all add: smult_is_mat smult_nth)

lemma madd_zeros: "is_mat r c M \<Longrightarrow> madd M (zeros r c) = M"
  by (rule mat_eqI [where r = r and c = c]) (simp_all add: madd_is_mat madd_nth)

lemma assembled_no_noise:
  assumes "sigma p = 0"
  shows "assembled env t p e r1 = assembled env t p e r2"
proof -
  have "smult 0 (construct_pauli_z e q) = zeros (hilbert_dim e) (hilbert_dim e)" for q
    by (rule smult_zero [OF real_sym_is_mat [OF construct_pauli_real_sym(2)]])
  then show ?thesis using assms by (simp add: assembled_def noise_value_def Let_def)
qed

section \<open>Sample inputs are well formed\<close>

lemma demo_engine_ok: "cache_ok demo_engine"
  by (simp add: cache_ok_def demo_engine_def)

lemma hist_engine_ok: "cache_ok hist_engine"
  by (simp add: cache_ok_def hist_engine_def demo_engine_def)

lemma hist_engine_reached: "snd (update_quantum_state [1, 0] demo_engine) = hist_engine"
  by (simp add: update_quantum_state_def vdot_def QUANTUM_PRECISION_TOLERANCE_def
      hist_engine_def demo_engine_def Let_def)

lemma decay_params_valid: "valid_params decay_params"
  by (simp add: valid_params_def post_init_def decay_params_def MIN_PARAM_VALUE_def
      MAX_NOISE_AMPLITUDE_def)

lemma neg_beta_params_valid: "valid_params neg_beta_params"
  by (simp add: valid_params_def post_init_def decay_params_def neg_beta_params_def
      MIN_PARAM_VALUE_def MAX_NOISE_AMPLITUDE_def)

lemma neg_beta_scaling: "noise_scaling neg_beta_params hist_engine = - 1"
  by (simp add: noise_scaling_def neg_beta_params_def hist_engine_def
      get_previous_state_norm_def vdot_def)

lemma neg_beta_run:
  "fst (hamiltonian_operator demo_env 0 neg_beta_params (hist_engine, ()))
     = Inl (ValueError ''scale < 0'')"
  by (simp add: run_defs neg_beta_params_def decay_params_def hist_engine_def demo_engine_def
      demo_env_def vdot_def)

lemma neg_beta_assembled:
  "assembled demo_env 0 neg_beta_params hist_engine () = [[0, 1], [1, 0]]"
  by (simp add: assembled_def channel_sum_def channel_signal_def trading_operator_def
      integral_value_def compute_softplus_integral_def alpha_value_def regime_value_def
      noise_value_def noise_qubit_def noise_scaling_def pauli_x_sum_def pauli_z_sum_def
      regime_operator_def sum_mats_def run_defs neg_beta_params_def decay_params_def
      hist_engine_def demo_engine_def demo_env_def)

lemma frobenius_x: "frobenius [[0, 1], [1, 0]] \<le> 10 ^ 10"
  unfolding frobenius_def by (rule real_le_lsqrt) simp_all


section \<open>What the operator returns\<close>

text \<open>
  Claim C8. The matrix \<^verbatim>\<open>hamiltonian_operator\<close> returns is exactly what its five
  blocks assembled: whenever it returns, the five blocks alone produce that same matrix and
  that same state, and the validation only answered yes. On an engine whose cache is
  intact and a valid parameter set it is the assembled formula. The symmetrised matrix of
  \<^verbatim>\<open>_validate_hamiltonian\<close> is never what the caller gets.
\<close>

theorem returned_matrix_is_assembled:
  "(hamiltonian_operator env t p w = (Inr H, w') \<longrightarrow>
      assemble_terms env t p w = (Inr H, w') \<and> validate_hamiltonian H t = Inr ())
   \<and> (cache_ok e \<longrightarrow> valid_params p \<longrightarrow> hamiltonian_operator env t p (e, r) = (Inr H, w') \<longrightarrow>
      H = assembled env t p e r)"
proof (intro conjI impI)
  assume h: "hamiltonian_operator env t p w = (Inr H, w')"
  then show "assemble_terms env t p w = (Inr H, w')"
    unfolding hamiltonian_operator_split by (auto split: prod.splits sum.splits)
  from h show "validate_hamiltonian H t = Inr ()"
    unfolding hamiltonian_operator_split by (auto split: prod.splits sum.splits)
next
  assume ok: "cache_ok e" and v: "valid_params p"
    and h: "hamiltonian_operator env t p (e, r) = (Inr H, w')"
  from hamiltonian_operator_outcome [OF ok v, of env t r] h
  show "H = assembled env t p e r" by (auto split: if_splits)
qed

theorem returned_matrix_is_assembled_witness:
  "assemble_terms demo_env 0 decay_params (skewed_engine, ())
     = (Inr [[0, 1], [0, 0]],
        (skewed_engine\<lparr>pauli_cache := (pauli_cache skewed_engine)((0, PauliZ) \<mapsto> [[1, 0], [0, - 1]])\<rparr>, ()))
   \<and> \<not> allclose [[0, 1], [0, 0]] (dagger [[0, 1], [0, 0]]) QUANTUM_PRECISION_TOLERANCE
   \<and> assembled demo_env 0 decay_params demo_engine () = [[0, 1], [1, 0]]"
proof -
  from returned_matrix_is_assembled
    [of demo_env 0 decay_params "(skewed_engine, ())" "[[0, 1], [0, 0]]"
      "(skewed_engine\<lparr>pauli_cache := (pauli_cache skewed_engine)((0, PauliZ) \<mapsto> [[1, 0], [0, - 1]])\<rparr>, ())"]
    skewed_run
  have a: "assemble_terms demo_env 0 decay_params (skewed_engine, ())
     = (Inr [[0, 1], [0, 0]],
        (skewed_engine\<lparr>pauli_cache := (pauli_cache skewed_engine)((0, PauliZ) \<mapsto> [[1, 0], [0, - 1]])\<rparr>, ()))"
    by blast
  from returned_matrix_is_assembled
    [of demo_env 0 decay_params "(demo_engine, ())" "[[0, 1], [1, 0]]"
      "(demo_engine\<lparr>pauli_cache := [(0, PauliX) \<mapsto> [[0, 1], [1, 0]], (0, PauliZ) \<mapsto> [[1, 0], [0, - 1]]]\<rparr>, ())"
      demo_engine "()"]
    demo_run demo_engine_ok decay_params_valid
  have b: "assembled demo_env 0 decay_params demo_engine () = [[0, 1], [1, 0]]"
    by metis
  from a skewed_not_hermitian b show ?thesis by blast
qed



text \<open>
  Claim C5. With \<open>sigma = 0\<close> the operator does not depend on the random generator:
  on an engine whose cache is intact and a valid parameter set, two calls that start from
  the same engine state and any two generator states have the same outcome, the same
  matrix or the same error.
\<close>

theorem sigma_zero_deterministic:
  "cache_ok e \<Longrightarrow> valid_params p \<Longrightarrow> sigma p = 0 \<Longrightarrow>
     fst (hamiltonian_operator env t p (e, r1)) = fst (hamiltonian_operator env t p (e, r2))"
proof -
  assume ok: "cache_ok e" and v: "valid_params p" and s: "sigma p = 0"
  note a = assembled_no_noise [OF s, of env t e r1 r2]
  from hamiltonian_operator_outcome [OF ok v, of env t r1]
    hamiltonian_operator_outcome [OF ok v, of env t r2]
  show ?thesis unfolding a by (auto split: if_splits)
qed

theorem sigma_zero_deterministic_witness:
  "fst (hamiltonian_operator counter_env (1 / 2) decay_params (demo_engine, 3))
     = fst (hamiltonian_operator counter_env (1 / 2) decay_params (demo_engine, 8))"
proof -
  have "sigma decay_params = 0" by (simp add: decay_params_def)
  from sigma_zero_deterministic [OF demo_engine_ok decay_params_valid this]
  show ?thesis .
qed

section \<open>When the operator raises\<close>

lemma softplus_term_returns: "\<exists>H' w'. softplus_term env t p H w = (Inr H', w')"
  by (cases w; cases "compute_softplus_integral env t p")
    (simp_all add: softplus_term_def bindC_apply on_engine_def split_def Let_def)

lemma integral_value_fallback:
  assumes "quad env (integrand p) 0 t INTEGRATION_TOLERANCE INTEGRATION_TOLERANCE 100 = Inl qerr"
  shows "integral_value env t p = integrand p t"
  using assms
  by (simp add: integral_value_def compute_softplus_integral_def integrand_def f_function_def
      g_prime_def Let_def)

lemma demo_engine_constructed: "init_engine 1 1 = Inr demo_engine"
proof -
  have r: "(replicate 2 (0::complex))[0 := 1] = [1, 0]" by code_simp
  show ?thesis by (simp add: init_engine_def demo_engine_def r)
qed

text \<open>
  Claim C3. For every valid parameter set and time, \<^verbatim>\<open>hamiltonian_operator\<close>
  raises if and only if the norm of the assembled matrix exceeds 1e10, and a failed
  quadrature is replaced by the integrand at \<open>x = t\<close> without raising. The code does
  not keep to the first half. The parameter set below passes the constructor's validation
  (\<open>beta\<close> is the one noise parameter it does not check); the engine is the one-qubit
  engine of the constructor after one accepted update with the basis state. There the call
  raises the ValueError of numpy's normal draw, whose scale \<open>1 + beta * 1 = -1\<close> is
  negative, although the assembled matrix has norm at most 1e10.
\<close>

theorem negative_noise_scale_raises:
  "post_init neg_beta_params = Inr neg_beta_params
   \<and> beta neg_beta_params = - 2
   \<and> init_engine 1 1 = Inr demo_engine
   \<and> snd (update_quantum_state [1, 0] demo_engine) = hist_engine
   \<and> fst (hamiltonian_operator demo_env 0 neg_beta_params (hist_engine, ()))
       = Inl (ValueError ''scale < 0'')
   \<and> frobenius (assembled demo_env 0 neg_beta_params hist_engine ()) \<le> 10 ^ 10"
proof -
  have b: "beta neg_beta_params = - 2" by (simp add: neg_beta_params_def)
  from neg_beta_params_valid have v: "post_init neg_beta_params = Inr neg_beta_params"
    by (simp add: valid_params_def)
  from v b demo_engine_constructed hist_engine_reached neg_beta_run frobenius_x
  show ?thesis by (simp add: neg_beta_assembled)
qed

text \<open>
  The exact condition under which the call raises. On an engine whose cache is intact, for
  every valid parameter set and time, \<^verbatim>\<open>hamiltonian_operator\<close> raises if and only
  if the noise scale \<open>1 + beta * |last state|\<^sup>2\<close> is negative or the norm of the
  assembled matrix exceeds 1e10. A failure of the quadrature never raises: the softplus
  block always yields a matrix, and the value it uses then is the integrand at \<open>x = t\<close>.
\<close>

theorem hamiltonian_raises_iff:
  "cache_ok e \<Longrightarrow> valid_params p \<Longrightarrow>
     ((\<exists>err w'. hamiltonian_operator env t p (e, r) = (Inl err, w'))
        \<longleftrightarrow> (noise_scaling p e < 0 \<or> frobenius (assembled env t p e r) > 10 ^ 10))
     \<and> (\<forall>H w. \<exists>H' w'. softplus_term env t p H w = (Inr H', w'))
     \<and> (\<forall>qerr. quad env (integrand p) 0 t INTEGRATION_TOLERANCE INTEGRATION_TOLERANCE 100
                  = Inl qerr \<longrightarrow> integral_value env t p = integrand p t)"
proof (intro conjI allI impI)
  assume ok: "cache_ok e" and v: "valid_params p"
  from hamiltonian_operator_outcome [OF ok v, of env t r]
  show "(\<exists>err w'. hamiltonian_operator env t p (e, r) = (Inl err, w'))
        \<longleftrightarrow> (noise_scaling p e < 0 \<or> frobenius (assembled env t p e r) > 10 ^ 10)"
    by (auto simp: MAX_HAMILTONIAN_NORM_def split: if_splits)
next
  fix H w
  show "\<exists>H' w'. softplus_term env t p H w = (Inr H', w')"
    by (rule softplus_term_returns)
next
  fix qerr
  assume "quad env (integrand p) 0 t INTEGRATION_TOLERANCE INTEGRATION_TOLERANCE 100 = Inl qerr"
  then show "integral_value env t p = integrand p t"
    by (rule integral_value_fallback)
qed

theorem hamiltonian_raises_iff_witness:
  "(\<exists>err w'. hamiltonian_operator demo_env 0 neg_beta_params (hist_engine, ()) = (Inl err, w'))
   \<and> integral_value fail_env 0 decay_params = ln 2"
proof -
  have s: "noise_scaling neg_beta_params hist_engine < 0" by (simp add: neg_beta_scaling)
  from hamiltonian_raises_iff [OF hist_engine_ok neg_beta_params_valid, of demo_env 0 "()"] s
  have a: "\<exists>err w'. hamiltonian_operator demo_env 0 neg_beta_params (hist_engine, ()) = (Inl err, w')"
    by blast
  have q: "quad fail_env (integrand decay_params) 0 0 INTEGRATION_TOLERANCE
             INTEGRATION_TOLERANCE 100 = Inl (RuntimeError ''quadrature failed'')"
    by (simp add: fail_env_def)
  from hamiltonian_raises_iff [OF demo_engine_ok decay_params_valid, of fail_env 0 "()"] q
  have "integral_value fail_env 0 decay_params = integrand decay_params 0" by blast
  also have "\<dots> = ln 2"
    by (simp add: integrand_def decay_params_def softplus_def f_function_def g_prime_def)
  finally show ?thesis using a by blast
qed

section \<open>The one-channel scenario\<close>

lemma scenario_rejected:
  "TradingParameters 1 [1] [0] [0] [0] [1] 0 0 0 0 0 0 0 0 0 0 0
     = Inl (AssertionError ''frequency too small'')"
  by (simp add: TradingParameters_def post_init_def MIN_PARAM_VALUE_def)

lemma scenario_constructs:
  "1 / 10 ^ 10 \<le> f \<Longrightarrow>
     TradingParameters 1 [1] [f] [0] [0] [1] 0 0 0 0 0 0 0 0 0 0 0 = Inr (scenario_params f)"
  by (simp add: TradingParameters_def post_init_def MIN_PARAM_VALUE_def MAX_NOISE_AMPLITUDE_def
      scenario_params_def)

lemma scenario_valid: "1 / 10 ^ 10 \<le> f \<Longrightarrow> valid_params (scenario_params f)"
  by (simp add: valid_params_def post_init_def MIN_PARAM_VALUE_def MAX_NOISE_AMPLITUDE_def
      scenario_params_def)

lemma madd_smult_zero:
  assumes "is_mat r c H" "is_mat r c M"
  shows "madd H (smult 0 M) = H"
  by (simp add: smult_zero [OF assms(2)] madd_zeros [OF assms(1)])

lemma frobenius_zeros: "frobenius (zeros r c) = 0"
proof -
  have "sum_list (map (\<lambda>row. sum_list (map (\<lambda>x. (cmod x)\<^sup>2) row)) (zeros r c)) = 0"
    by (simp add: zeros_def mk_mat_def comp_def)
  then show ?thesis by (simp add: frobenius_def)
qed

lemma scenario_assembled:
  assumes q: "quad env (integrand (scenario_params f)) 0 0 INTEGRATION_TOLERANCE
                INTEGRATION_TOLERANCE 100 = Inr (0, qerr)"
  shows "assembled env 0 (scenario_params f) e r = zeros (hilbert_dim e) (hilbert_dim e)"
proof -
  let ?d = "hilbert_dim e"
  note m = real_sym_is_mat [OF construct_pauli_real_sym(1)]
    real_sym_is_mat [OF construct_pauli_real_sym(2)]
    real_sym_is_mat [OF pauli_sums_real_sym(1)] real_sym_is_mat [OF pauli_sums_real_sym(2)]
    real_sym_is_mat [OF regime_operator_real_sym] real_sym_is_mat [OF trading_operator_real_sym]
  have c: "channel_sum 0 (scenario_params f) e [0..<nat (n_pairs (scenario_params f))] (zeros ?d ?d)
      = zeros ?d ?d"
    by (simp add: channel_sum_def channel_signal_def scenario_params_def
        madd_smult_zero [OF zeros_is_mat m(6)])
  have i: "integral_value env 0 (scenario_params f) = 0"
    using q by (simp add: integral_value_def compute_softplus_integral_def)
  have a: "alpha_value 0 (scenario_params f) = 0"
    by (simp add: alpha_value_def scenario_params_def)
  have g: "regime_value (scenario_params f) = 0"
    by (simp add: regime_value_def scenario_params_def)
  have n: "noise_value env (scenario_params f) e r = 0"
    by (simp add: noise_value_def scenario_params_def)
  show ?thesis
    unfolding assembled_def Let_def c i a g n
    by (simp add: madd_smult_zero [OF zeros_is_mat m(2)] madd_smult_zero [OF zeros_is_mat m(3)]
        madd_smult_zero [OF zeros_is_mat m(4)] madd_smult_zero [OF zeros_is_mat m(5)])
qed

lemma scenario_run:
  assumes ok: "cache_ok e" and f: "1 / 10 ^ 10 \<le> f"
    and q: "quad env (integrand (scenario_params f)) 0 0 INTEGRATION_TOLERANCE
                INTEGRATION_TOLERANCE 100 = Inr (0, qerr)"
  shows "\<exists>e'. cache_step e e' \<and> hamiltonian_operator env 0 (scenario_params f) (e, r)
           = (Inr (zeros (hilbert_dim e) (hilbert_dim e)),
              (e', snd (rawint env (snd (gauss env r)))))"
proof -
  have s: "\<not> noise_scaling (scenario_params f) e < 0"
    by (simp add: noise_scaling_def scenario_params_def)
  from hamiltonian_operator_outcome [OF ok scenario_valid [OF f], of env 0 r]
  show ?thesis
    unfolding scenario_assembled [OF q] frobenius_zeros using s
    by (simp add: MAX_HAMILTONIAN_NORM_def)
qed

lemma two_qubit_x:
  assumes "n_qubits e = 2"
  shows "construct_pauli_x e 0 = [[0,0,1,0],[0,0,0,1],[1,0,0,0],[0,1,0,0]]"
    "construct_pauli_x e (Suc 0) = [[0,1,0,0],[1,0,0,0],[0,0,0,1],[0,0,1,0]]"
proof -
  have a: "tensor_of (\<lambda>i. if i = 0 then sigma_x else eye 2) 2
      = [[0,0,1,0],[0,0,0,1],[1,0,0,0],[0,1,0,0]]" by code_simp
  have b: "tensor_of (\<lambda>i. if i = 1 then sigma_x else eye 2) 2
      = [[0,1,0,0],[1,0,0,0],[0,0,0,1],[0,0,1,0]]" by code_simp
  show "construct_pauli_x e 0 = [[0,0,1,0],[0,0,0,1],[1,0,0,0],[0,1,0,0]]"
    using a by (simp add: construct_pauli_x_def tensor_product_operator_tensor_of assms)
  show "construct_pauli_x e (Suc 0) = [[0,1,0,0],[1,0,0,0],[0,0,0,1],[0,0,1,0]]"
    using b by (simp add: construct_pauli_x_def tensor_product_operator_tensor_of assms)
qed

lemma signal_zero:
  assumes ok: "cache_ok e" and n: "n_qubits e = 2" and st: "quantum_state e = [1, 0, 0, 0]"
  shows "fst (calculate_trading_signal e) = Inr 0"
proof -
  from get_each_x_run [OF ok, of "[0..<n_qubits e]"] obtain e'
    where g: "get_each get_pauli_x [0..<n_qubits e] e = (map (construct_pauli_x e) [0..<n_qubits e], e')"
      and s: "cache_step e e'" by blast
  have q: "quantum_state e' = [1, 0, 0, 0]" using s st by (simp add: cache_step_def)
  have u: "[0..<2] = [0, 1]" by (simp add: upt_rec)
  have z: "zeros 4 4 = [[0,0,0,0],[0,0,0,0],[0,0,0,0],[0,0,0,0]]" by code_simp
  show ?thesis
    unfolding calculate_trading_signal_def g
    by (simp add: q n u two_qubit_x [OF n] hilbert_dim_def
        sum_mats_def z madd_def matvec_def vdot_def)
qed


lemma init_engine_two:
  assumes "1 \<le> ts"
  shows "init_engine 2 ts = Inr \<lparr> n_qubits = 2, time_steps = nat ts,
           quantum_state = [1, 0, 0, 0], state_history = [], pauli_cache = Map.empty \<rparr>"
proof -
  have r: "(replicate 4 (0::complex))[0 := 1] = [1, 0, 0, 0]" by code_simp
  show ?thesis using assms by (simp add: init_engine_def r)
qed

text \<open>
  Claim C7, as stated, fails at its first step: the constructor rejects the parameter
  set of the scenario, because the frequency 0.0 is below the minimum 1e-10.
\<close>

theorem scenario_frequency_rejected:
  "TradingParameters 1 [1] [0] [0] [0] [1] 0 0 0 0 0 0 0 0 0 0 0
     = Inl (AssertionError ''frequency too small'')"
  by (rule scenario_rejected)

text \<open>
  Claim C7, amended. With any frequency of at least 1e-10 in the place of 0.0, and a
  quadrature that gives 0 for the integral from 0 to 0, the parameter set of the scenario
  constructs; on the engine of two qubits, as its constructor makes it,
  \<^verbatim>\<open>hamiltonian_operator(0, params)\<close> returns the 4 by 4 matrix of zeros, and the
  trading signal of the initial basis state is 0, before that call and after it.
\<close>

theorem scenario_zero_operator:
  "1 / 10 ^ 10 \<le> f \<Longrightarrow> 1 \<le> ts \<Longrightarrow>
   quad env (integrand (scenario_params f)) 0 0 INTEGRATION_TOLERANCE INTEGRATION_TOLERANCE 100
     = Inr (0, qerr) \<Longrightarrow>
   TradingParameters 1 [1] [f] [0] [0] [1] 0 0 0 0 0 0 0 0 0 0 0 = Inr (scenario_params f)
   \<and> (\<exists>e0 e1 r1. init_engine 2 ts = Inr e0
         \<and> quantum_state e0 = [1, 0, 0, 0]
         \<and> hamiltonian_operator env 0 (scenario_params f) (e0, r) = (Inr (zeros 4 4), (e1, r1))
         \<and> fst (calculate_trading_signal e0) = Inr 0
         \<and> fst (calculate_trading_signal e1) = Inr 0)"
proof -
  assume f: "1 / 10 ^ 10 \<le> f" and ts: "1 \<le> ts"
    and q: "quad env (integrand (scenario_params f)) 0 0 INTEGRATION_TOLERANCE
              INTEGRATION_TOLERANCE 100 = Inr (0, qerr)"
  let ?e0 = "\<lparr> n_qubits = 2, time_steps = nat ts, quantum_state = [1, 0, 0, 0],
               state_history = [], pauli_cache = Map.empty \<rparr>"
  have ok: "cache_ok ?e0" by (simp add: cache_ok_def)
  have d: "hilbert_dim ?e0 = 4" by (simp add: hilbert_dim_def)
  from scenario_run [OF ok f q, of r] obtain e1
    where s: "cache_step ?e0 e1"
      and h: "hamiltonian_operator env 0 (scenario_params f) (?e0, r)
               = (Inr (zeros 4 4), (e1, snd (rawint env (snd (gauss env r)))))"
    unfolding d by blast
  have s0: "fst (calculate_trading_signal ?e0) = Inr 0"
    by (rule signal_zero [OF ok]) simp_all
  have s1: "fst (calculate_trading_signal e1) = Inr 0"
    using s by (intro signal_zero) (simp_all add: cache_step_def)
  from init_engine_two [OF ts] h s0 s1 scenario_constructs [OF f]
  show ?thesis by auto
qed

theorem scenario_zero_operator_witness:
  "TradingParameters 1 [1] [1 / 10 ^ 10] [0] [0] [1] 0 0 0 0 0 0 0 0 0 0 0
     = Inr (scenario_params (1 / 10 ^ 10))
   \<and> (\<exists>e0 e1 r1. init_engine 2 1000 = Inr e0
         \<and> hamiltonian_operator demo_env 0 (scenario_params (1 / 10 ^ 10)) (e0, ())
             = (Inr (zeros 4 4), (e1, r1))
         \<and> fst (calculate_trading_signal e0) = Inr 0)"
proof -
  have q: "quad demo_env (integrand (scenario_params (1 / 10 ^ 10))) 0 0 INTEGRATION_TOLERANCE
             INTEGRATION_TOLERANCE 100 = Inr (0, 0)"
    by (simp add: demo_env_def)
  have f: "(1::real) / 10 ^ 10 \<le> 1 / 10 ^ 10" by simp
  have ts: "(1::int) \<le> 1000" by simp
  from scenario_zero_operator [OF f ts q, of "()"] show ?thesis by blast
qed

section \<open>Time evolution keeps the state normalised\<close>










section \<open>Adam under a constant loss\<close>

lemma pow_lt_one:
  fixes b :: real
  assumes "0 < b" "b < 1" "1 \<le> n"
  shows "0 < 1 - b ^ n"
proof -
  from assms(3) obtain k where n: "n = Suc k" by (cases n) auto
  have "b ^ k \<le> 1" using assms(1,2) by (simp add: power_le_one)
  then have "b * b ^ k \<le> b * 1" using assms(1) by (intro mult_left_mono) simp_all
  then have "b ^ n < 1" using assms(2) by (simp add: n)
  then show ?thesis by simp
qed

text \<open>One Adam update under the invariant.\<close>

lemma adam_update_inv:
  assumes inv: "opt_inv opt"
    and z: "zero_field (key_field k) \<longrightarrow> g = 0"
    and d: "key_field k = F_decay_rate \<longrightarrow> g \<le> 0"
  shows "\<exists>x' opt'. adam_update x g k opt = (Inr x', opt') \<and> opt_inv opt'
           \<and> use_adam opt' = use_adam opt \<and> learning_rate opt' = learning_rate opt
           \<and> (zero_field (key_field k) \<longrightarrow> x' = x)
           \<and> (key_field k = F_decay_rate \<longrightarrow> x \<le> x')"
proof -
  from inv have c: "config_ok opt" and t: "1 \<le> adam_t opt" and mo: "moments_ok opt"
    by (simp_all add: opt_inv_def)
  from c have b1: "0 < beta1 opt" "beta1 opt < 1" and b2: "0 < beta2 opt" "beta2 opt < 1"
    and eps: "0 < epsilon opt" and lr: "0 \<le> learning_rate opt"
    by (simp_all add: config_ok_def)
  define m0 where "m0 = (case adam_m opt k of None \<Rightarrow> 0 | Some y \<Rightarrow> y)"
  define v0 where "v0 = (case adam_v opt k of None \<Rightarrow> 0 | Some y \<Rightarrow> y)"
  define m1 where "m1 = beta1 opt * m0 + (1 - beta1 opt) * g"
  define v1 where "v1 = beta2 opt * v0 + (1 - beta2 opt) * g\<^sup>2"
  define opt' where "opt' = opt\<lparr>adam_m := (adam_m opt)(k \<mapsto> m1), adam_v := (adam_v opt)(k \<mapsto> v1)\<rparr>"
  define d1 where "d1 = 1 - beta1 opt ^ adam_t opt"
  define d2 where "d2 = 1 - beta2 opt ^ adam_t opt"
  have d1: "0 < d1" unfolding d1_def by (rule pow_lt_one [OF b1 t])
  have d2: "0 < d2" unfolding d2_def by (rule pow_lt_one [OF b2 t])
  have same: "(adam_m opt k = None) = (adam_v opt k = None)"
    using mo by (simp add: moments_ok_def)
  have v0: "0 \<le> v0" using mo by (auto simp: v0_def moments_ok_def split: option.splits)
  have v1: "0 \<le> v1" unfolding v1_def using v0 b2 by simp
  have den: "0 < sqrt (v1 / d2) + epsilon opt"
    using v1 d2 eps by (simp add: add_nonneg_pos)
  define x' where "x' = x - learning_rate opt * (m1 / d1) / (sqrt (v1 / d2) + epsilon opt)"
  have run: "adam_update x g k opt = (Inr x', opt')"
  proof (cases "adam_m opt k")
    case None
    with same have "adam_v opt k = None" by simp
    with None d1 d2 den show ?thesis
      by (simp add: adam_update_def Let_def m0_def v0_def m1_def v1_def opt'_def d1_def
          d2_def x'_def)
  next
    case (Some y)
    with same obtain w where w: "adam_v opt k = Some w" by auto
    with Some d1 d2 den show ?thesis
      by (simp add: adam_update_def Let_def m0_def v0_def m1_def v1_def opt'_def d1_def
          d2_def x'_def)
  qed
  have m0z: "zero_field (key_field k) \<Longrightarrow> m0 = 0"
    using mo by (auto simp: m0_def moments_ok_def split: option.splits)
  have m0d: "key_field k = F_decay_rate \<Longrightarrow> m0 \<le> 0"
    using mo by (auto simp: m0_def moments_ok_def split: option.splits)
  have m1z: "zero_field (key_field k) \<Longrightarrow> m1 = 0"
    using m0z z by (simp add: m1_def)
  have m1d: "key_field k = F_decay_rate \<Longrightarrow> m1 \<le> 0"
  proof -
    assume a: "key_field k = F_decay_rate"
    have "beta1 opt * m0 \<le> 0" using m0d [OF a] b1 by (simp add: mult_nonneg_nonpos)
    moreover have "(1 - beta1 opt) * g \<le> 0" using d a b1 by (simp add: mult_nonneg_nonpos)
    ultimately show "m1 \<le> 0" by (simp add: m1_def)
  qed
  have mo': "moments_ok opt'"
    using mo v1 m1z m1d by (auto simp: moments_ok_def opt'_def)
  have inv': "opt_inv opt'"
    using c t mo' by (simp add: opt_inv_def config_ok_def opt'_def)
  have xz: "zero_field (key_field k) \<Longrightarrow> x' = x"
    using m1z by (simp add: x'_def)
  have xd: "key_field k = F_decay_rate \<Longrightarrow> x \<le> x'"
  proof -
    assume a: "key_field k = F_decay_rate"
    have q: "m1 / d1 \<le> 0" by (rule divide_nonpos_pos [OF m1d [OF a] d1])
    have "learning_rate opt * (m1 / d1) \<le> 0" by (rule mult_nonneg_nonpos [OF lr q])
    then have "learning_rate opt * (m1 / d1) / (sqrt (v1 / d2) + epsilon opt) \<le> 0"
      using den by (rule divide_nonpos_pos)
    then show "x \<le> x'" unfolding x'_def by linarith
  qed
  from run inv' xz xd show ?thesis by (auto simp: opt'_def)
qed

lemma step_value_inv:
  assumes inv: "opt_inv opt"
    and z: "zero_field (key_field k) \<longrightarrow> g = 0"
    and d: "key_field k = F_decay_rate \<longrightarrow> g \<le> 0"
  shows "\<exists>x' opt'. (if use_adam opt then adam_update x g k opt
                      else (Inr (x - learning_rate opt * g), opt)) = (Inr x', opt')
           \<and> opt_inv opt'
           \<and> (zero_field (key_field k) \<longrightarrow> x' = x)
           \<and> (key_field k = F_decay_rate \<longrightarrow> x \<le> x')"
proof (cases "use_adam opt")
  case True
  with adam_update_inv [OF inv z d, of x] show ?thesis by auto
next
  case False
  from inv have lr: "0 \<le> learning_rate opt" by (simp add: opt_inv_def config_ok_def)
  have "key_field k = F_decay_rate \<Longrightarrow> x \<le> x - learning_rate opt * g"
  proof -
    assume "key_field k = F_decay_rate"
    with d have "g \<le> 0" by simp
    then have "learning_rate opt * g \<le> 0" by (rule mult_nonneg_nonpos [OF lr])
    then show ?thesis by linarith
  qed
  with False inv z show ?thesis by auto
qed

lemma update_entry_inv:
  assumes inv: "opt_inv opt" and G: "grads_ok n G" and i: "i < n"
    and arr: "array_of name p = Some xs" and len: "length xs = n"
  shows "\<exists>x' opt'. update_entry p G name i opt = (Inr x', opt') \<and> opt_inv opt'
           \<and> (zero_field name \<longrightarrow> x' = xs ! i)
           \<and> (name = F_decay_rate \<longrightarrow> xs ! i \<le> x')"
proof -
  from arr have a: "is_array name"
    by (auto simp: array_of_def is_array_def split: field.splits)
  from G a i obtain g where g: "grad_entry G name i = Inr g"
    and z: "zero_field name \<longrightarrow> g = 0" and d: "name = F_decay_rate \<longrightarrow> g \<le> 0"
    unfolding grads_ok_def by blast
  have k: "key_field (Key_entry name i) = name" by (simp add: key_field_def)
  from step_value_inv [OF inv, of "Key_entry name i" g "xs ! i"] z d
  show ?thesis
    using i len by (simp add: update_entry_def arr nth_err_def g bindC_apply liftE_def k)
qed

lemma update_scalar_inv:
  assumes inv: "opt_inv opt" and G: "grads_ok n G" and sc: "scalar_of name p = Some x"
  shows "\<exists>x' opt'. update_scalar p G name opt = (Inr x', opt') \<and> opt_inv opt'
           \<and> (zero_field name \<longrightarrow> x' = x)"
proof -
  from sc have a: "\<not> is_array name"
    by (auto simp: scalar_of_def is_array_def split: field.splits)
  from G a obtain g where g: "grad_scalar G name = Inr g" and z: "zero_field name \<longrightarrow> g = 0"
    unfolding grads_ok_def by blast
  have k: "key_field (Key_scalar name) = name" by (simp add: key_field_def)
  have d: "key_field (Key_scalar name) = F_decay_rate \<longrightarrow> g \<le> 0"
    using a by (simp add: k is_array_def)
  from step_value_inv [OF inv _ d, of x] z
  show ?thesis
    by (auto simp: update_scalar_def sc g bindC_apply liftE_def k)
qed

lemma update_pair_inv:
  assumes inv: "opt_inv opt" and G: "grads_ok (nat (n_pairs p)) G" and i: "i < nat (n_pairs p)"
    and v: "valid_params p"
  shows "\<exists>ph dr opt'. update_pair p G i opt
             = (Inr (amplitude p ! i, frequency p ! i, ph, decay p ! i, dr), opt')
           \<and> opt_inv opt' \<and> decay_rate p ! i \<le> dr"
proof -
  note l = valid_params_lengths [OF v]
  from update_entry_inv [OF inv G i, of F_amplitude p "amplitude p"] l obtain o1
    where 1: "update_entry p G F_amplitude i opt = (Inr (amplitude p ! i), o1)"
      and i1: "opt_inv o1"
    by (auto simp: array_of_def zero_field_def)
  from update_entry_inv [OF i1 G i, of F_frequency p "frequency p"] l obtain o2
    where 2: "update_entry p G F_frequency i o1 = (Inr (frequency p ! i), o2)"
      and i2: "opt_inv o2"
    by (auto simp: array_of_def zero_field_def)
  from update_entry_inv [OF i2 G i, of F_phase p "phase p"] l obtain ph o3
    where 3: "update_entry p G F_phase i o2 = (Inr ph, o3)" and i3: "opt_inv o3"
    by (auto simp: array_of_def zero_field_def)
  from update_entry_inv [OF i3 G i, of F_decay p "decay p"] l obtain o4
    where 4: "update_entry p G F_decay i o3 = (Inr (decay p ! i), o4)" and i4: "opt_inv o4"
    by (auto simp: array_of_def zero_field_def)
  from update_entry_inv [OF i4 G i, of F_decay_rate p "decay_rate p"] l obtain dr o5
    where 5: "update_entry p G F_decay_rate i o4 = (Inr dr, o5)" and i5: "opt_inv o5"
      and d: "decay_rate p ! i \<le> dr"
    by (auto simp: array_of_def zero_field_def)
  have "update_pair p G i opt
      = (Inr (amplitude p ! i, frequency p ! i, ph, decay p ! i, dr), o5)"
    by (simp add: update_pair_def bindC_apply 1 2 3 4 5)
  with i5 d show ?thesis by blast
qed

lemma mapC_inv:
  assumes step: "\<And>i s. i \<in> set idx \<Longrightarrow> I s \<Longrightarrow> \<exists>y s'. f i s = (Inr y, s') \<and> I s' \<and> Q i y"
    and "I s"
  shows "\<exists>ys s'. mapC f idx s = (Inr ys, s') \<and> I s' \<and> length ys = length idx
           \<and> (\<forall>j<length idx. Q (idx ! j) (ys ! j))"
  using assms
proof (induction idx arbitrary: s)
  case Nil
  then show ?case by simp
next
  case (Cons i idx)
  from Cons.prems(1) [of i s] Cons.prems(2) obtain y s1
    where 1: "f i s = (Inr y, s1)" and I1: "I s1" and Q1: "Q i y" by auto
  from Cons.IH [of s1] Cons.prems(1) I1 obtain ys s2
    where 2: "mapC f idx s1 = (Inr ys, s2)" and I2: "I s2" and l: "length ys = length idx"
      and Q2: "\<forall>j<length idx. Q (idx ! j) (ys ! j)" by auto
  have "mapC f (i # idx) s = (Inr (y # ys), s2)" by (simp add: bindC_apply 1 2)
  moreover have "\<forall>j<length (i # idx). Q ((i # idx) ! j) ((y # ys) ! j)"
    using Q1 Q2 by (auto simp: nth_Cons split: nat.splits)
  ultimately show ?case using I2 l by auto
qed

lemma update_params_inv:
  assumes inv: "opt_inv opt" and G: "grads_ok (nat (n_pairs p)) G" and v: "valid_params p"
  shows "\<exists>p' opt'. update_params_with_gradients p G opt = (Inr p', opt') \<and> opt_inv opt'
           \<and> kept p p' \<and> valid_params p'"
proof -
  let ?n = "nat (n_pairs p)"
  note l = valid_params_lengths [OF v]
  define Q where "Q = (\<lambda>i (y :: real \<times> real \<times> real \<times> real \<times> real).
     \<exists>ph dr. y = (amplitude p ! i, frequency p ! i, ph, decay p ! i, dr) \<and> decay_rate p ! i \<le> dr)"
  have step: "\<And>i s. i \<in> set [0..<?n] \<Longrightarrow> opt_inv s \<Longrightarrow>
      \<exists>y s'. update_pair p G i s = (Inr y, s') \<and> opt_inv s' \<and> Q i y"
  proof -
    fix i s assume "i \<in> set [0..<?n]" and s: "opt_inv s"
    then have i: "i < ?n" by simp
    from update_pair_inv [OF s G i v] show "\<exists>y s'. update_pair p G i s = (Inr y, s') \<and> opt_inv s' \<and> Q i y"
      unfolding Q_def by blast
  qed
  have "\<exists>ys s'. mapC (update_pair p G) [0..<?n] opt = (Inr ys, s') \<and> opt_inv s'
      \<and> length ys = length [0..<?n] \<and> (\<forall>j<length [0..<?n]. Q ([0..<?n] ! j) (ys ! j))"
    by (rule mapC_inv [where I = opt_inv and Q = Q]) (use step inv in blast)+
  then obtain rows o0 where rows: "mapC (update_pair p G) [0..<?n] opt = (Inr rows, o0)"
    and i0: "opt_inv o0" and len: "length rows = ?n"
    and q: "\<forall>j<?n. Q j (rows ! j)"
    by auto
  have am: "map (\<lambda>(am, fr, ph, de, dr). am) rows = amplitude p"
    using q len l by (intro nth_equalityI) (auto simp: Q_def)
  have fr: "map (\<lambda>(am, fr, ph, de, dr). fr) rows = frequency p"
    using q len l by (intro nth_equalityI) (auto simp: Q_def)
  have de: "map (\<lambda>(am, fr, ph, de, dr). de) rows = decay p"
    using q len l by (intro nth_equalityI) (auto simp: Q_def)
  define new_phase where "new_phase = map (\<lambda>(am, fr, ph, de, dr). ph) rows"
  define new_dr where "new_dr = map (\<lambda>(am, fr, ph, de, dr). dr) rows"
  have lp: "length new_phase = ?n" and ld: "length new_dr = ?n"
    by (simp_all add: new_phase_def new_dr_def len)
  have dr: "\<forall>j<?n. decay_rate p ! j \<le> new_dr ! j"
    using q len by (auto simp: Q_def new_dr_def)
  have dropz: "drop (length rows) (amplitude p) = []" "drop (length rows) (frequency p) = []"
    "drop (length rows) (phase p) = []" "drop (length rows) (decay p) = []"
    "drop (length rows) (decay_rate p) = []"
    using l len by simp_all
  note sc = update_scalar_inv [OF _ G]
  from sc [OF i0, of F_a p "soft_a p"] obtain xa o1
    where 1: "update_scalar p G F_a o0 = (Inr xa, o1)" and i1: "opt_inv o1"
    by (auto simp: scalar_of_def)
  from sc [OF i1, of F_b p "soft_b p"] obtain xb o2
    where 2: "update_scalar p G F_b o1 = (Inr xb, o2)" and i2: "opt_inv o2"
    by (auto simp: scalar_of_def)
  from sc [OF i2, of F_x0 p "x0 p"] obtain xx o3
    where 3: "update_scalar p G F_x0 o2 = (Inr xx, o3)" and i3: "opt_inv o3"
    by (auto simp: scalar_of_def)
  from sc [OF i3, of F_alpha_0 p "alpha_0 p"] obtain y0 o4
    where 4: "update_scalar p G F_alpha_0 o3 = (Inr y0, o4)" and i4: "opt_inv o4"
    by (auto simp: scalar_of_def)
  from sc [OF i4, of F_alpha_1 p "alpha_1 p"] obtain y1 o5
    where 5: "update_scalar p G F_alpha_1 o4 = (Inr y1, o5)" and i5: "opt_inv o5"
    by (auto simp: scalar_of_def)
  from sc [OF i5, of F_alpha_2 p "alpha_2 p"] obtain y2 o6
    where 6: "update_scalar p G F_alpha_2 o5 = (Inr y2, o6)" and i6: "opt_inv o6"
    by (auto simp: scalar_of_def)
  from sc [OF i6, of F_tau p "tau p"] obtain o7
    where 7: "update_scalar p G F_tau o6 = (Inr (tau p), o7)" and i7: "opt_inv o7"
    by (auto simp: scalar_of_def zero_field_def)
  from sc [OF i7, of F_eta p "eta p"] obtain o8
    where 8: "update_scalar p G F_eta o7 = (Inr (eta p), o8)" and i8: "opt_inv o8"
    by (auto simp: scalar_of_def zero_field_def)
  from sc [OF i8, of F_gamma p "gamma p"] obtain o9
    where 9: "update_scalar p G F_gamma o8 = (Inr (gamma p), o9)" and i9: "opt_inv o9"
    by (auto simp: scalar_of_def zero_field_def)
  from sc [OF i9, of F_sigma p "sigma p"] obtain o10
    where 10: "update_scalar p G F_sigma o9 = (Inr (sigma p), o10)" and i10: "opt_inv o10"
    by (auto simp: scalar_of_def zero_field_def)
  from sc [OF i10, of F_beta p "beta p"] obtain o11
    where 11: "update_scalar p G F_beta o10 = (Inr (beta p), o11)" and i11: "opt_inv o11"
    by (auto simp: scalar_of_def zero_field_def)
  define p' where "p' = \<lparr> n_pairs = n_pairs p, amplitude = amplitude p, frequency = frequency p,
      phase = new_phase, decay = decay p, decay_rate = new_dr, soft_a = xa, soft_b = xb,
      x0 = xx, alpha_0 = y0, alpha_1 = y1, alpha_2 = y2, tau = tau p, eta = eta p,
      gamma = gamma p, sigma = sigma p, beta = beta p \<rparr>"
  have "\<forall>j<?n. MIN_PARAM_VALUE \<le> new_dr ! j"
  proof (intro allI impI)
    fix j assume j: "j < ?n"
    from l(9) j l(6) have "MIN_PARAM_VALUE \<le> decay_rate p ! j" by (simp add: list_all_length)
    with dr j show "MIN_PARAM_VALUE \<le> new_dr ! j" by fastforce
  qed
  then have ndr: "list_all (\<lambda>x. x \<ge> MIN_PARAM_VALUE) new_dr"
    using ld by (simp add: list_all_length)
  have v': "valid_params p'"
    unfolding valid_params_iff using l lp ld ndr by (simp add: p'_def)
  have k: "kept p p'"
    using l lp ld dr by (simp add: kept_def p'_def)
  have "update_params_with_gradients p G opt = (Inr p', o11)"
    using v' [unfolded valid_params_def]
    by (simp add: update_params_with_gradients_def bindC_apply rows Let_def am fr de dropz
        1 2 3 4 5 6 7 8 9 10 11 liftE_def TradingParameters_def p'_def new_phase_def new_dr_def)
  with i11 k v' show ?thesis by blast
qed

section \<open>Gradients of a constant loss\<close>

lemma fd_array_constant:
  assumes "valid_params p" "array_of name p = Some xs" "i < length xs"
  shows "fd_array (constant_loss c) p name i s = (Inr 0, s)"
  by (simp add: fd_array_def finite_difference_def perturb_param_valid [OF assms]
      constant_loss_def)

lemma fd_scalar_constant:
  assumes "valid_params p" "scalar_of name p = Some x"
  shows "fd_scalar (constant_loss c) p name s = (Inr 0, s)"
  by (simp add: fd_scalar_def finite_difference_def perturb_scalar_param_valid [OF assms]
      constant_loss_def)

lemma mapC_pure:
  "(\<And>i s. i \<in> set idx \<Longrightarrow> f i s = (Inr (g i), s)) \<Longrightarrow> mapC f idx s = (Inr (map g idx), s)"
  by (induction idx) (simp_all add: bindC_apply)

lemma grads_ok_scale:
  assumes G: "grads_ok n G" and sc: "0 \<le> sc"
  shows "grads_ok n (map (\<lambda>(k, g). (k, grad_scale sc g)) G)"
proof -
  let ?G = "map (\<lambda>(k, g). (k, grad_scale sc g)) G"
  have m: "map_of ?G name = map_option (grad_scale sc) (map_of G name)" for name
    by (simp add: map_of_map)
  have e: "\<exists>g'. grad_entry ?G name i = Inr g' \<and> (g = 0 \<longrightarrow> g' = 0) \<and> (g \<le> 0 \<longrightarrow> g' \<le> 0)"
    if "grad_entry G name i = Inr g" for name i g
  proof -
    from that obtain xs where x: "map_of G name = Some (GArr xs)" "i < length xs" "g = xs ! i"
      by (auto simp: grad_entry_def nth_err_def split: option.splits grad.splits if_splits)
    have "grad_entry ?G name i = Inr (xs ! i * sc)"
      unfolding grad_entry_def m x(1) using x(2) by (simp add: grad_scale_def nth_err_def)
    then show ?thesis using x(3) sc by (auto simp: mult_nonpos_nonneg)
  qed
  have s: "\<exists>g'. grad_scalar ?G name = Inr g' \<and> (g = 0 \<longrightarrow> g' = 0)"
    if "grad_scalar G name = Inr g" for name g
  proof -
    from that have x: "map_of G name = Some (GScal g)"
      by (auto simp: grad_scalar_def split: option.splits grad.splits)
    have "grad_scalar ?G name = Inr (g * sc)"
      unfolding grad_scalar_def m x by (simp add: grad_scale_def)
    then show ?thesis by auto
  qed
  show ?thesis
    unfolding grads_ok_def
  proof (intro conjI allI impI)
    fix name i assume "is_array name" "i < n"
    with G obtain g where g: "grad_entry G name i = Inr g" "zero_field name \<longrightarrow> g = 0"
      "name = F_decay_rate \<longrightarrow> g \<le> 0" unfolding grads_ok_def by blast
    from e [OF g(1)] g(2,3)
    show "\<exists>g. grad_entry ?G name i = Inr g \<and> (zero_field name \<longrightarrow> g = 0)
            \<and> (name = F_decay_rate \<longrightarrow> g \<le> 0)" by blast
  next
    fix name assume "\<not> is_array name"
    with G obtain g where g: "grad_scalar G name = Inr g" "zero_field name \<longrightarrow> g = 0"
      unfolding grads_ok_def by blast
    from s [OF g(1)] g(2)
    show "\<exists>g. grad_scalar ?G name = Inr g \<and> (zero_field name \<longrightarrow> g = 0)" by blast
  qed
qed

lemma grads_ok_clip: "grads_ok n G \<Longrightarrow> grads_ok n (clip_gradients_fn G)"
  by (simp add: clip_gradients_fn_def Let_def grads_ok_scale GRADIENT_CLIP_THRESHOLD_def)


lemma compute_gradients_constant:
  assumes v: "valid_params p" and dec: "\<forall>x\<in>set (decay p). 0 \<le> x" and t: "0 \<le> t"
  shows "\<exists>G. compute_gradients_with opt p t (constant_loss c) s = (Inr G, s)
           \<and> grads_ok (nat (n_pairs p)) G"
proof -
  let ?n = "nat (n_pairs p)"
  let ?L = "constant_loss c :: params \<Rightarrow> ('a, real) comp"
  note l = valid_params_lengths [OF v]
  define gph where "gph = (\<lambda>i. 0.5 * (amplitude p ! i * cos (frequency p ! i * t + phase p ! i) + 0))"
  define gdr where "gdr = (\<lambda>i. - t * decay p ! i * exp (- decay_rate p ! i * t))"
  have a: "mapC (fd_array ?L p F_amplitude) [0..<?n] s' = (Inr (map (\<lambda>i. 0) [0..<?n]), s')" for s'
    by (rule mapC_pure) (simp add: fd_array_constant [OF v, of F_amplitude "amplitude p"] array_of_def l)
  have fr: "mapC (fd_array ?L p F_frequency) [0..<?n] s' = (Inr (map (\<lambda>i. 0) [0..<?n]), s')" for s'
    by (rule mapC_pure) (simp add: fd_array_constant [OF v, of F_frequency "frequency p"] array_of_def l)
  have de: "mapC (fd_array ?L p F_decay) [0..<?n] s' = (Inr (map (\<lambda>i. 0) [0..<?n]), s')" for s'
    by (rule mapC_pure) (simp add: fd_array_constant [OF v, of F_decay "decay p"] array_of_def l)
  have ph: "mapC (phase_gradient ?L p t) [0..<?n] s' = (Inr (map gph [0..<?n]), s')" for s'
    by (rule mapC_pure)
      (simp add: phase_gradient_def nth_err_def l bindC_apply gph_def Let_def
        fd_array_constant [OF v, of F_phase "phase p"] array_of_def)
  have dr: "mapC (decay_rate_gradient p t) [0..<?n] s' = (Inr (map gdr [0..<?n]), s')" for s'
    by (rule mapC_pure) (simp add: decay_rate_gradient_def nth_err_def l gdr_def)
  have sc: "fd_scalar ?L p F_tau s' = (Inr 0, s')" "fd_scalar ?L p F_eta s' = (Inr 0, s')"
    "fd_scalar ?L p F_gamma s' = (Inr 0, s')" "fd_scalar ?L p F_sigma s' = (Inr 0, s')"
    "fd_scalar ?L p F_beta s' = (Inr 0, s')" for s'
    by (simp_all add: fd_scalar_constant [OF v] scalar_of_def)
  have rg: "(if t \<ge> tau p
                 then bindC (fd_scalar ?L p F_tau) (\<lambda>g_tau.
                      bindC (fd_scalar ?L p F_eta) (\<lambda>g_eta.
                      bindC (fd_scalar ?L p F_gamma) (\<lambda>g_gamma.
                      returnC (g_tau, g_eta, g_gamma))))
                 else returnC (0, 0, 0)) s' = (Inr (0, 0, 0), s')" for s'
    by (simp add: bindC_apply sc)
  define sg where "sg = (if \<bar>soft_a p * (t - x0 p)\<^sup>2 + soft_b p\<bar> < 20
      then 1 / (1 + exp (- (soft_a p * (t - x0 p)\<^sup>2 + soft_b p)))
      else if soft_a p * (t - x0 p)\<^sup>2 + soft_b p > 0 then 1 else 0)"
  define g0 :: gradients where "g0 =
              [(F_amplitude, GArr (map (\<lambda>i. 0) [0..<?n])), (F_phase, GArr (map gph [0..<?n])),
               (F_decay_rate, GArr (map gdr [0..<?n])), (F_frequency, GArr (map (\<lambda>i. 0) [0..<?n])),
               (F_decay, GArr (map (\<lambda>i. 0) [0..<?n])),
               (F_a, GScal ((t - x0 p)\<^sup>2 * sg)), (F_b, GScal sg),
               (F_x0, GScal (- 2 * soft_a p * (t - x0 p) * sg)),
               (F_alpha_0, GScal (t\<^sup>2)), (F_alpha_1, GScal (sin (2 * pi * t))),
               (F_alpha_2, GScal (ln (1 + t))),
               (F_tau, GScal 0), (F_eta, GScal 0), (F_gamma, GScal 0),
               (F_sigma, GScal 0), (F_beta, GScal 0)]"
  have run: "compute_gradients_with opt p t ?L s
      = (Inr (if clip_gradients opt then clip_gradients_fn g0 else g0), s)"
    using l(1)
    by (simp add: compute_gradients_with_def bindC_apply a fr de ph dr rg sc Let_def g0_def
        sg_def)
  have neg: "gdr i \<le> 0" if "i < ?n" for i
  proof -
    from that l have "decay p ! i \<in> set (decay p)" by simp
    with dec have "0 \<le> decay p ! i" by blast
    then have "0 \<le> t * decay p ! i * exp (- decay_rate p ! i * t)" using t by simp
    then show ?thesis unfolding gdr_def by linarith
  qed
  have ok0: "grads_ok ?n g0"
    unfolding grads_ok_def
  proof (intro conjI allI impI)
    fix name i assume "is_array name" and i: "i < ?n"
    then show "\<exists>g. grad_entry g0 name i = Inr g \<and> (zero_field name \<longrightarrow> g = 0)
            \<and> (name = F_decay_rate \<longrightarrow> g \<le> 0)"
      using neg [OF i]
      by (cases name)
        (simp_all add: is_array_def g0_def grad_entry_def nth_err_def zero_field_def)
  next
    fix name assume "\<not> is_array name"
    then show "\<exists>g. grad_scalar g0 name = Inr g \<and> (zero_field name \<longrightarrow> g = 0)"
      by (cases name)
        (simp_all add: is_array_def g0_def grad_scalar_def zero_field_def)
  qed
  from run ok0 grads_ok_clip [OF ok0] show ?thesis by auto
qed

section \<open>The optimization loop under a constant loss\<close>

lemma update_learning_rate_inv:
  assumes c: "config_ok opt" and m: "moments_ok opt"
  shows "opt_inv (update_learning_rate epoch max_epochs (opt\<lparr>adam_t := epoch + 1\<rparr>))"
proof -
  from c have i: "MIN_LEARNING_RATE \<le> initial_learning_rate opt"
    by (simp add: config_ok_def)
  have mn: "0 \<le> MIN_LEARNING_RATE" by (simp add: MIN_LEARNING_RATE_def)
  have "0 \<le> 1 + cos (pi * real epoch / real_of_int max_epochs)"
    using cos_ge_minus_one [of "pi * real epoch / real_of_int max_epochs"] by linarith
  then have "0 \<le> 0.5 * (initial_learning_rate opt - MIN_LEARNING_RATE)
           * (1 + cos (pi * real epoch / real_of_int max_epochs))"
    using i by simp
  then have cs: "0 \<le> MIN_LEARNING_RATE + 0.5 * (initial_learning_rate opt - MIN_LEARNING_RATE)
           * (1 + cos (pi * real epoch / real_of_int max_epochs))"
    using mn by linarith
  have ex: "0 \<le> max (initial_learning_rate opt * ((95 / 100) powr (real epoch / 100)))
                     MIN_LEARNING_RATE"
    using mn by simp
  show ?thesis
    using c m cs ex
    by (cases "scheduler_type opt")
      (simp_all add: update_learning_rate_def opt_inv_def config_ok_def moments_ok_def)
qed

lemma kept_refl: "kept p p"
  by (simp add: kept_def)

lemma kept_trans: "kept p q \<Longrightarrow> kept q r \<Longrightarrow> kept p r"
  by (fastforce simp: kept_def)

lemma optimize_epoch_constant:
  assumes c: "config_ok opt" and m: "moments_ok opt" and v: "valid_params (r_params st)"
    and dec: "\<forall>x\<in>set (decay (r_params st)). 0 \<le> x"
  shows "\<exists>st' opt'. optimize_epoch env (Some (constant_loss c0)) max_epochs epoch st (opt, w)
             = (Inr (st', c0), (opt', w))
           \<and> config_ok opt' \<and> moments_ok opt'
           \<and> kept (r_params st) (r_params st') \<and> valid_params (r_params st')
           \<and> r_loss_history st' = r_loss_history st @ [c0]
           \<and> length (r_gradient_norms st') = Suc (length (r_gradient_norms st))
           \<and> length (r_learning_rates st') = Suc (length (r_learning_rates st))
           \<and> r_best_loss st' =
               (if (case r_best_loss st of None \<Rightarrow> True
                    | Some best \<Rightarrow> c0 < best - CONVERGENCE_TOLERANCE)
                then Some c0 else r_best_loss st)
           \<and> r_patience_counter st' =
               (if (case r_best_loss st of None \<Rightarrow> True
                    | Some best \<Rightarrow> c0 < best - CONVERGENCE_TOLERANCE)
                then 0 else r_patience_counter st + 1)"
proof -
  define o1 where "o1 = update_learning_rate epoch max_epochs (opt\<lparr>adam_t := Suc epoch\<rparr>)"
  have i1: "opt_inv o1"
    unfolding o1_def using update_learning_rate_inv [OF c m, of epoch max_epochs] by simp
  have t: "0 \<le> real epoch / 100" by simp
  from compute_gradients_constant [OF v dec t, of o1 c0 w] obtain G
    where g: "compute_gradients_with o1 (r_params st) (real epoch / 100) (constant_loss c0) w
                = (Inr G, w)"
      and gok: "grads_ok (nat (n_pairs (r_params st))) G" by blast
  from update_params_inv [OF i1 gok v] obtain p' o2
    where u: "update_params_with_gradients (r_params st) G o1 = (Inr p', o2)"
      and i2: "opt_inv o2" and k: "kept (r_params st) p'" and v': "valid_params p'"
    by blast
  have "optimize_epoch env (Some (constant_loss c0)) max_epochs epoch st (opt, w)
      = (Inr (\<lparr> r_params = p',
                r_loss_history = r_loss_history st @ [c0],
                r_gradient_norms = r_gradient_norms st @ [global_norm G],
                r_learning_rates = r_learning_rates st @ [learning_rate o1],
                r_best_loss = (if (case r_best_loss st of None \<Rightarrow> True
                                   | Some best \<Rightarrow> c0 < best - CONVERGENCE_TOLERANCE)
                               then Some c0 else r_best_loss st),
                r_patience_counter = (if (case r_best_loss st of None \<Rightarrow> True
                                   | Some best \<Rightarrow> c0 < best - CONVERGENCE_TOLERANCE)
                               then 0 else r_patience_counter st + 1) \<rparr>, c0), (o2, w))"
    by (simp add: optimize_epoch_def bindC_apply on_opt_def on_world_def Let_def
        o1_def [symmetric] constant_loss_def [of c0, THEN fun_cong] compute_gradients_def g u)
  with i2 k v' show ?thesis by (auto simp: opt_inv_def)
qed


lemma optimize_loop_constant:
  assumes "config_ok opt" "moments_ok opt" "valid_params (r_params st)"
    and "\<forall>x\<in>set (decay (r_params st)). 0 \<le> x"
    and "k \<le> P" "P < M"
    and "(k = 0 \<and> r_best_loss st = None)
         \<or> (0 < k \<and> r_best_loss st = Some c0 \<and> r_patience_counter st = int k - 1)"
  shows "\<exists>res opt'. optimize_loop env (Some (constant_loss c0)) (int M) (int P) [k..<M] st (opt, w)
             = (Inr res, (opt', w))
           \<and> epochs res = int P + 1 \<and> converged res \<and> convergence_reason res = ''patience''
           \<and> kept (r_params st) (optimized_params res) \<and> final_loss res = c0
           \<and> loss_history res = r_loss_history st @ replicate (Suc P - k) c0
           \<and> config_ok opt'"
  using assms
proof (induction "P - k" arbitrary: k st opt)
  case 0
  then have kP: "k = P" by simp
  from optimize_epoch_constant [OF "0.prems"(1-4), of env c0 "int M" k w] obtain st' opt'
    where e: "optimize_epoch env (Some (constant_loss c0)) (int M) k st (opt, w)
             = (Inr (st', c0), (opt', w))"
      and c': "config_ok opt'" and k': "kept (r_params st) (r_params st')"
      and h: "r_loss_history st' = r_loss_history st @ [c0]"
      and pc: "r_patience_counter st' =
               (if (case r_best_loss st of None \<Rightarrow> True
                    | Some best \<Rightarrow> c0 < best - CONVERGENCE_TOLERANCE)
                then 0 else r_patience_counter st + 1)"
    by blast
  have cnt: "r_patience_counter st' = int k"
    using "0.prems"(7) pc by (auto simp: CONVERGENCE_TOLERANCE_def)
  have l: "[k..<M] = k # [Suc k..<M]" using "0.prems"(6) kP by (simp add: upt_conv_Cons)
  show ?case
    unfolding l using e cnt kP c' k' h by (simp add: bindC_apply)
next
  case (Suc d)
  then have kP: "k < P" by simp
  from optimize_epoch_constant [OF Suc.prems(1-4), of env c0 "int M" k w] obtain st' opt'
    where e: "optimize_epoch env (Some (constant_loss c0)) (int M) k st (opt, w)
             = (Inr (st', c0), (opt', w))"
      and c': "config_ok opt'" and m': "moments_ok opt'"
      and k': "kept (r_params st) (r_params st')" and v': "valid_params (r_params st')"
      and h: "r_loss_history st' = r_loss_history st @ [c0]"
      and b: "r_best_loss st' =
               (if (case r_best_loss st of None \<Rightarrow> True
                    | Some best \<Rightarrow> c0 < best - CONVERGENCE_TOLERANCE)
                then Some c0 else r_best_loss st)"
      and pc: "r_patience_counter st' =
               (if (case r_best_loss st of None \<Rightarrow> True
                    | Some best \<Rightarrow> c0 < best - CONVERGENCE_TOLERANCE)
                then 0 else r_patience_counter st + 1)"
    by blast
  have cnt: "r_patience_counter st' = int k" and best: "r_best_loss st' = Some c0"
    using Suc.prems(7) pc b by (auto simp: CONVERGENCE_TOLERANCE_def)
  have dec': "\<forall>x\<in>set (decay (r_params st')). 0 \<le> x"
    using Suc.prems(4) k' by (simp add: kept_def)
  have d: "d = P - Suc k" using Suc.hyps(2) by simp
  have start: "(Suc k = 0 \<and> r_best_loss st' = None)
         \<or> (0 < Suc k \<and> r_best_loss st' = Some c0 \<and> r_patience_counter st' = int (Suc k) - 1)"
    using cnt best by simp
  from Suc.hyps(1) [OF d c' m' v' dec' _ Suc.prems(6) start] kP obtain res opt''
    where r: "optimize_loop env (Some (constant_loss c0)) (int M) (int P) [Suc k..<M] st' (opt', w)
             = (Inr res, (opt'', w))"
      and q: "epochs res = int P + 1" "converged res" "convergence_reason res = ''patience''"
        "kept (r_params st') (optimized_params res)" "final_loss res = c0"
        "loss_history res = r_loss_history st' @ replicate (Suc P - Suc k) c0"
        "config_ok opt''"
    by auto
  have l: "[k..<M] = k # [Suc k..<M]" using Suc.prems(6) kP by (simp add: upt_conv_Cons)
  have rep: "[c0] @ replicate (Suc P - Suc k) c0 = replicate (Suc P - k) c0"
    using kP by (simp add: Suc_diff_le replicate_Suc [symmetric] del: replicate_Suc)
  have "optimize_loop env (Some (constant_loss c0)) (int M) (int P) [k..<M] st (opt, w)
      = (Inr res, (opt'', w))"
    unfolding l using e cnt kP r by (simp add: bindC_apply)
  moreover have "loss_history res = r_loss_history st @ replicate (Suc P - k) c0"
    using q(6) h rep by simp
  ultimately show ?case
    using q kept_trans [OF k' q(4)] by blast
qed

lemma sgd_one_epoch:
  "\<exists>res s'. optimize_parameters demo_env decay_params (Some (constant_loss 1)) 1 0
               (sgd_optimizer, (demo_engine, ())) = (Inr res, s')
     \<and> soft_b (optimized_params res) = - (1 / 200) \<and> epochs res = 1
     \<and> convergence_reason res = ''patience''"
  by (simp add: optimize_parameters_def optimize_epoch_def bindC_apply on_opt_def on_world_def
      update_learning_rate_def sgd_optimizer_def constant_loss_def compute_gradients_def
      compute_gradients_with_def decay_params_def upt_small fd_array_def fd_scalar_def
      finite_difference_def perturb_param_def perturb_scalar_param_def copy_params_def
      TradingParameters_def post_init_def MIN_PARAM_VALUE_def MAX_NOISE_AMPLITUDE_def
      array_of_def scalar_of_def set_array_def set_scalar_def liftE_def phase_gradient_def
      decay_rate_gradient_def nth_err_def fd_h_def update_params_with_gradients_def
      update_pair_def update_entry_def update_scalar_def grad_entry_def grad_scalar_def
      Let_def split_def)


lemma optimize_parameters_constant:
  assumes c: "config_ok opt" and v: "valid_params p" and dec: "\<forall>x\<in>set (decay p). 0 \<le> x"
    and p0: "0 \<le> patience" and pm: "patience < max_epochs"
  shows "\<exists>res opt'. optimize_parameters env p (Some (constant_loss c0)) max_epochs patience (opt, w)
             = (Inr res, (opt', w))
           \<and> epochs res = patience + 1 \<and> converged res \<and> convergence_reason res = ''patience''
           \<and> kept p (optimized_params res) \<and> final_loss res = c0
           \<and> loss_history res = replicate (nat patience + 1) c0"
proof -
  define st0 where "st0 = \<lparr> r_params = p, r_loss_history = [], r_gradient_norms = [],
         r_learning_rates = [], r_best_loss = None, r_patience_counter = 0 \<rparr>"
  define o0 where "o0 = opt\<lparr>adam_m := Map.empty, adam_v := Map.empty, adam_t := 0\<rparr>"
  have c0: "config_ok o0" using c by (simp add: config_ok_def o0_def)
  have m0: "moments_ok o0" by (simp add: moments_ok_def o0_def)
  have P: "int (nat patience) = patience" and M: "int (nat max_epochs) = max_epochs"
    using p0 pm by simp_all
  have lt: "nat patience < nat max_epochs" using p0 pm by simp
  from optimize_loop_constant [where st = st0 and k = 0 and P = "nat patience"
      and M = "nat max_epochs" and opt = o0 and env = env and ?c0.0 = c0 and w = w, OF c0 m0]
    v dec lt
  obtain res opt' where
    r: "optimize_loop env (Some (constant_loss c0)) max_epochs patience [0..<nat max_epochs] st0 (o0, w)
             = (Inr res, (opt', w))"
    and q: "epochs res = patience + 1" "converged res" "convergence_reason res = ''patience''"
      "kept p (optimized_params res)" "final_loss res = c0"
      "loss_history res = replicate (nat patience + 1) c0"
    unfolding P M by (auto simp: st0_def)
  have "optimize_parameters env p (Some (constant_loss c0)) max_epochs patience (opt, w)
      = (Inr res, (opt', w))"
    using r by (simp add: optimize_parameters_def bindC_apply on_opt_def st0_def o0_def)
  with q show ?thesis by blast
qed

lemma demo_optimizer_ok: "config_ok demo_optimizer"
  by (simp add: config_ok_def demo_optimizer_def MIN_LEARNING_RATE_def)

lemma decay_params_decay: "\<forall>x\<in>set (decay decay_params). 0 \<le> x"
  by (simp add: decay_params_def)

text \<open>
  Claim C1, as stated, fails twice. One epoch of plain gradient descent under the
  constant loss 1 moves the parameter \<open>b\<close> from 0 to -1/200 (its gradient is the sigmoid
  of the shape term, which never looks at the loss), and that run, with patience 0, returns
  1 epoch; the default optimizer with patience 2 and at most 5 epochs stops for patience
  after 3 epochs.
\<close>

theorem constant_loss_moves_parameters:
  "soft_b decay_params = 0
   \<and> (\<exists>res s'. optimize_parameters demo_env decay_params (Some (constant_loss 1)) 1 0
                 (sgd_optimizer, (demo_engine, ())) = (Inr res, s')
         \<and> soft_b (optimized_params res) = - (1 / 200) \<and> epochs res = 1
         \<and> convergence_reason res = ''patience'')
   \<and> (\<exists>res s'. optimize_parameters demo_env decay_params (Some (constant_loss 1)) 5 2
                 (demo_optimizer, (demo_engine, ())) = (Inr res, s')
         \<and> epochs res = 3 \<and> convergence_reason res = ''patience'')"
proof -
  have a: "soft_b decay_params = 0" by (simp add: decay_params_def)
  from optimize_parameters_constant [OF demo_optimizer_ok decay_params_valid decay_params_decay,
      of 2 5 demo_env 1 "(demo_engine, ())"]
  have b: "\<exists>res s'. optimize_parameters demo_env decay_params (Some (constant_loss 1)) 5 2
                 (demo_optimizer, (demo_engine, ())) = (Inr res, s')
         \<and> epochs res = 3 \<and> convergence_reason res = ''patience''"
    by auto
  from a sgd_one_epoch b show ?thesis by blast
qed

text \<open>
  Claim C1, amended. With a constant loss function, an optimizer whose configuration
  passed the constructor's assertions and has a positive \<open>epsilon\<close>, a valid parameter
  set with no negative decay amplitude, and \<open>0 \<le> patience < max_epochs\<close>, the run
  returns; it leaves the parameters whose gradients are finite differences of the loss
  (amplitude, frequency, decay amplitude, tau, eta, gamma, sigma, beta) unchanged, and it
  terminates with reason "patience" after exactly \<open>patience + 1\<close> epochs, every recorded
  loss being the constant. The first epoch always improves on the initial infinite best
  loss, so the counter reaches the patience one epoch later than the claim says.
\<close>

theorem constant_loss_run:
  "config_ok opt \<Longrightarrow> valid_params p \<Longrightarrow> \<forall>x\<in>set (decay p). 0 \<le> x \<Longrightarrow>
   0 \<le> patience \<Longrightarrow> patience < max_epochs \<Longrightarrow>
     \<exists>res opt'. optimize_parameters env p (Some (constant_loss c)) max_epochs patience (opt, w)
             = (Inr res, (opt', w))
       \<and> convergence_reason res = ''patience'' \<and> converged res \<and> epochs res = patience + 1
       \<and> loss_history res = replicate (nat patience + 1) c \<and> final_loss res = c
       \<and> n_pairs (optimized_params res) = n_pairs p
       \<and> amplitude (optimized_params res) = amplitude p
       \<and> frequency (optimized_params res) = frequency p
       \<and> decay (optimized_params res) = decay p
       \<and> tau (optimized_params res) = tau p \<and> eta (optimized_params res) = eta p
       \<and> gamma (optimized_params res) = gamma p \<and> sigma (optimized_params res) = sigma p
       \<and> beta (optimized_params res) = beta p"
proof -
  assume "config_ok opt" "valid_params p" "\<forall>x\<in>set (decay p). 0 \<le> x"
    "0 \<le> patience" "patience < max_epochs"
  from optimize_parameters_constant [OF this, of env c w] show ?thesis
    unfolding kept_def by blast
qed

theorem constant_loss_run_witness:
  "\<exists>res opt'. optimize_parameters demo_env decay_params (Some (constant_loss 1)) 5 2
                 (demo_optimizer, (demo_engine, ())) = (Inr res, (opt', (demo_engine, ())))
     \<and> convergence_reason res = ''patience'' \<and> epochs res = 3
     \<and> loss_history res = [1, 1, 1]
     \<and> amplitude (optimized_params res) = [1] \<and> sigma (optimized_params res) = 0"
proof -
  have p: "(0::int) \<le> 2" "(2::int) < 5" by simp_all
  have n: "replicate (nat 2 + 1) (1::real) = [1, 1, 1]" by (simp add: numeral_3_eq_3 eval_nat_numeral)
  from constant_loss_run [OF demo_optimizer_ok decay_params_valid decay_params_decay p,
      of demo_env 1 "(demo_engine, ())"]
  show ?thesis unfolding n by (auto simp: decay_params_def)
qed

section \<open>What the constructors establish\<close>

lemma init_optimizer_config:
  assumes "init_optimizer lr b1 b2 eps adam clip sched = Inr opt" "0 < eps"
  shows "config_ok opt" "moments_ok opt"
  using assms
  by (auto simp: init_optimizer_def config_ok_def moments_ok_def MIN_LEARNING_RATE_def
      split: if_splits)

lemma default_optimizer:
  "init_optimizer DEFAULT_LEARNING_RATE (9 / 10) (999 / 1000) (1 / 10 ^ 8) True True Cosine
     = Inr demo_optimizer"
  by (simp add: init_optimizer_def demo_optimizer_def DEFAULT_LEARNING_RATE_def
      MIN_LEARNING_RATE_def MAX_LEARNING_RATE_def)

end
